theory Spec2Isabelle
  imports Complex_Main
begin

section \<open>The auto-close scheduler (services/auto\_close\_scheduler.py)\<close>

text \<open>
  The scheduler is a loop that runs once a minute: it asks the shift service to close the
  shifts that are overdue, and sends a summary of each closed shift to its chat through
  the bot service. Every function of the class is embedded below as a function on an
  explicit world state; every \<open>raise\<close> is a value \<open>Inl e\<close>.
\<close>

subsection \<open>Exceptions\<close>

text \<open>
  The handlers of the source are all \<open>except Exception\<close>. Python's exceptions that derive
  from \<open>BaseException\<close> without deriving from \<open>Exception\<close> (\<open>asyncio.CancelledError\<close>,
  \<open>KeyboardInterrupt\<close>, \<open>SystemExit\<close>, \<open>GeneratorExit\<close>) pass through such a handler. The
  constructor \<open>KeyError k\<close> is what \<open>d[k]\<close> raises on a dict without the key \<open>k\<close>,
  \<open>AttributeError\<close> what an attribute access on \<open>None\<close> raises, \<open>Exception s\<close> any other
  instance of \<open>Exception\<close>, and \<open>BaseExceptionOnly s\<close> an instance of \<open>BaseException\<close>
  that is no instance of \<open>Exception\<close>.
\<close>

datatype exn =
    KeyError string
  | AttributeError string
  | Exception string
  | BaseExceptionOnly string

fun isinstance_Exception :: "exn \<Rightarrow> bool" where
  "isinstance_Exception (KeyError k) = True"
| "isinstance_Exception (AttributeError a) = True"
| "isinstance_Exception (Exception s) = True"
| "isinstance_Exception (BaseExceptionOnly s) = False"

subsection \<open>Data\<close>

text \<open>
  A closed shift is a dict (\<open>shift_info: dict\<close>) read at the keys \<open>id\<close>, \<open>chat_id\<close> and
  \<open>number\<close>; a key may be missing, and then \<open>shift_info[key]\<close> raises \<open>KeyError\<close>.

  Modelled from the spec: the income summary is what \<open>ShiftService\<close> returns, and
  \<open>ShiftService\<close> is not among the sources. It has the three keys of section 6 of the
  spec, and each entry of \<open>currencies\<close> has an amount and a count. \<open>currencies\<close> is a dict
  iterated with \<open>.items()\<close>, in insertion order, so it is an association list. The type
  \<open>'a\<close> is the type of the amounts.
\<close>

type_synonym shift_info = "string \<rightharpoonup> int"

record 'a currency_data =
  amount :: 'a
  count :: int

record 'a income_summary =
  transaction_count :: int
  total_amount :: 'a
  currencies :: "(string \<times> 'a currency_data) list"

definition getitem :: "shift_info \<Rightarrow> string \<Rightarrow> exn + int" where
  \<comment> \<open>\<open>d[k]\<close>\<close>
  "getitem d k = (case d k of None \<Rightarrow> Inl (KeyError k) | Some v \<Rightarrow> Inr v)"

subsection \<open>Strings\<close>

text \<open>
  A Python \<open>str\<close> is modelled by its UTF-8 encoding, a list of bytes. The Khmer words and
  the emoji of the message templates are the following byte strings.
\<close>

definition lock_emoji :: string where
  \<comment> \<open>the padlock emoji U+1F512\<close>
  "lock_emoji =
    [CHR 0xF0, CHR 0x9F, CHR 0x94, CHR 0x92]"

definition kh_shift :: string where
  \<comment> \<open>Khmer for shift\<close>
  "kh_shift =
    [CHR 0xE1, CHR 0x9E, CHR 0x9C, CHR 0xE1, CHR 0x9F, CHR 0x81, CHR 0xE1, CHR 0x9E, CHR 0x93]"

definition kh_closed_automatically :: string where
  \<comment> \<open>Khmer for was closed automatically\<close>
  "kh_closed_automatically =
    [CHR 0xE1, CHR 0x9E, CHR 0x94, CHR 0xE1, CHR 0x9E, CHR 0xB6, CHR 0xE1, CHR 0x9E, CHR 0x93,
     CHR 0xE1, CHR 0x9E, CHR 0x94, CHR 0xE1, CHR 0x9E, CHR 0xB7, CHR 0xE1, CHR 0x9E, CHR 0x91,
     CHR 0xE1, CHR 0x9E, CHR 0x8A, CHR 0xE1, CHR 0x9F, CHR 0x84, CHR 0xE1, CHR 0x9E, CHR 0x99,
     CHR 0xE1, CHR 0x9E, CHR 0x9F, CHR 0xE1, CHR 0x9F, CHR 0x92, CHR 0xE1, CHR 0x9E, CHR 0x9C,
     CHR 0xE1, CHR 0x9F, CHR 0x90, CHR 0xE1, CHR 0x9E, CHR 0x99, CHR 0xE1, CHR 0x9E, CHR 0x94,
     CHR 0xE1, CHR 0x9F, CHR 0x92, CHR 0xE1, CHR 0x9E, CHR 0x9A, CHR 0xE1, CHR 0x9E, CHR 0x9C,
     CHR 0xE1, CHR 0x9E, CHR 0x8F, CHR 0xE1, CHR 0x9F, CHR 0x92, CHR 0xE1, CHR 0x9E, CHR 0x8F,
     CHR 0xE1, CHR 0x9E, CHR 0xB7]"

definition chart_emoji :: string where
  \<comment> \<open>the bar chart emoji U+1F4CA\<close>
  "chart_emoji =
    [CHR 0xF0, CHR 0x9F, CHR 0x93, CHR 0x8A]"

definition kh_total_income :: string where
  \<comment> \<open>Khmer for total income\<close>
  "kh_total_income =
    [CHR 0xE1, CHR 0x9E, CHR 0x9F, CHR 0xE1, CHR 0x9E, CHR 0x9A, CHR 0xE1, CHR 0x9E, CHR 0xBB,
     CHR 0xE1, CHR 0x9E, CHR 0x94, CHR 0xE1, CHR 0x9E, CHR 0x85, CHR 0xE1, CHR 0x9F, CHR 0x86,
     CHR 0xE1, CHR 0x9E, CHR 0x8E, CHR 0xE1, CHR 0x9E, CHR 0xBC, CHR 0xE1, CHR 0x9E, CHR 0x9B]"

definition memo_emoji :: string where
  \<comment> \<open>the memo emoji U+1F4DD\<close>
  "memo_emoji =
    [CHR 0xF0, CHR 0x9F, CHR 0x93, CHR 0x9D]"

definition kh_details :: string where
  \<comment> \<open>Khmer for details\<close>
  "kh_details =
    [CHR 0xE1, CHR 0x9E, CHR 0x96, CHR 0xE1, CHR 0x9F, CHR 0x90, CHR 0xE1, CHR 0x9E, CHR 0x8F,
     CHR 0xE1, CHR 0x9F, CHR 0x8C, CHR 0xE1, CHR 0x9E, CHR 0x98, CHR 0xE1, CHR 0x9E, CHR 0xB6,
     CHR 0xE1, CHR 0x9E, CHR 0x93, CHR 0xE1, CHR 0x9E, CHR 0x9B, CHR 0xE1, CHR 0x9E, CHR 0x98,
     CHR 0xE1, CHR 0x9F, CHR 0x92, CHR 0xE1, CHR 0x9E, CHR 0xA2, CHR 0xE1, CHR 0x9E, CHR 0xB7,
     CHR 0xE1, CHR 0x9E, CHR 0x8F]"

definition bullet :: string where
  \<comment> \<open>the bullet U+2022\<close>
  "bullet =
    [CHR 0xE2, CHR 0x80, CHR 0xA2]"

definition kh_total_transactions :: string where
  \<comment> \<open>Khmer for total number of transactions\<close>
  "kh_total_transactions =
    [CHR 0xE1, CHR 0x9E, CHR 0x85, CHR 0xE1, CHR 0x9F, CHR 0x86, CHR 0xE1, CHR 0x9E, CHR 0x93,
     CHR 0xE1, CHR 0x9E, CHR 0xBD, CHR 0xE1, CHR 0x9E, CHR 0x93, CHR 0xE1, CHR 0x9E, CHR 0x94,
     CHR 0xE1, CHR 0x9F, CHR 0x92, CHR 0xE1, CHR 0x9E, CHR 0x9A, CHR 0xE1, CHR 0x9E, CHR 0x8F,
     CHR 0xE1, CHR 0x9E, CHR 0xB7, CHR 0xE1, CHR 0x9E, CHR 0x94, CHR 0xE1, CHR 0x9E, CHR 0x8F,
     CHR 0xE1, CHR 0x9F, CHR 0x92, CHR 0xE1, CHR 0x9E, CHR 0x8F, CHR 0xE1, CHR 0x9E, CHR 0xB7,
     CHR 0xE1, CHR 0x9E, CHR 0x80, CHR 0xE1, CHR 0x9E, CHR 0xB6, CHR 0xE1, CHR 0x9E, CHR 0x9A,
     CHR 0xE1, CHR 0x9E, CHR 0x9F, CHR 0xE1, CHR 0x9E, CHR 0x9A, CHR 0xE1, CHR 0x9E, CHR 0xBB,
     CHR 0xE1, CHR 0x9E, CHR 0x94]"

definition kh_total_value :: string where
  \<comment> \<open>Khmer for total value\<close>
  "kh_total_value =
    [CHR 0xE1, CHR 0x9E, CHR 0x8F, CHR 0xE1, CHR 0x9E, CHR 0x98, CHR 0xE1, CHR 0x9F, CHR 0x92,
     CHR 0xE1, CHR 0x9E, CHR 0x9B, CHR 0xE1, CHR 0x9F, CHR 0x83, CHR 0xE1, CHR 0x9E, CHR 0x9F,
     CHR 0xE1, CHR 0x9E, CHR 0x9A, CHR 0xE1, CHR 0x9E, CHR 0xBB, CHR 0xE1, CHR 0x9E, CHR 0x94]"

definition zap_emoji :: string where
  \<comment> \<open>the high voltage emoji U+26A1\<close>
  "zap_emoji =
    [CHR 0xE2, CHR 0x9A, CHR 0xA1]"

definition kh_closed_by :: string where
  \<comment> \<open>Khmer for closed by\<close>
  "kh_closed_by =
    [CHR 0xE1, CHR 0x9E, CHR 0x94, CHR 0xE1, CHR 0x9E, CHR 0xB7, CHR 0xE1, CHR 0x9E, CHR 0x91,
     CHR 0xE1, CHR 0x9E, CHR 0x8A, CHR 0xE1, CHR 0x9F, CHR 0x84, CHR 0xE1, CHR 0x9E, CHR 0x99]"

definition kh_scheduled_timer :: string where
  \<comment> \<open>Khmer for automatic time setting\<close>
  "kh_scheduled_timer =
    [CHR 0xE1, CHR 0x9E, CHR 0x80, CHR 0xE1, CHR 0x9E, CHR 0xB6, CHR 0xE1, CHR 0x9E, CHR 0x9A,
     CHR 0xE1, CHR 0x9E, CHR 0x80, CHR 0xE1, CHR 0x9F, CHR 0x86, CHR 0xE1, CHR 0x9E, CHR 0x8E,
     CHR 0xE1, CHR 0x9E, CHR 0x8F, CHR 0xE1, CHR 0x9F, CHR 0x8B, CHR 0xE1, CHR 0x9E, CHR 0x96,
     CHR 0xE1, CHR 0x9F, CHR 0x81, CHR 0xE1, CHR 0x9E, CHR 0x9B, CHR 0xE1, CHR 0x9E, CHR 0x9C,
     CHR 0xE1, CHR 0x9F, CHR 0x81, CHR 0xE1, CHR 0x9E, CHR 0x9B, CHR 0xE1, CHR 0x9E, CHR 0xB6,
     CHR 0xE1, CHR 0x9E, CHR 0x9F, CHR 0xE1, CHR 0x9F, CHR 0x92, CHR 0xE1, CHR 0x9E, CHR 0x9C,
     CHR 0xE1, CHR 0x9F, CHR 0x90, CHR 0xE1, CHR 0x9E, CHR 0x99, CHR 0xE1, CHR 0x9E, CHR 0x94,
     CHR 0xE1, CHR 0x9F, CHR 0x92, CHR 0xE1, CHR 0x9E, CHR 0x9A, CHR 0xE1, CHR 0x9E, CHR 0x9C,
     CHR 0xE1, CHR 0x9E, CHR 0x8F, CHR 0xE1, CHR 0x9F, CHR 0x92, CHR 0xE1, CHR 0x9E, CHR 0x8F,
     CHR 0xE1, CHR 0x9E, CHR 0xB7]"

definition kh_no_transactions :: string where
  \<comment> \<open>Khmer for no transactions\<close>
  "kh_no_transactions =
    [CHR 0xE1, CHR 0x9E, CHR 0x98, CHR 0xE1, CHR 0x9E, CHR 0xB7, CHR 0xE1, CHR 0x9E, CHR 0x93,
     CHR 0xE1, CHR 0x9E, CHR 0x98, CHR 0xE1, CHR 0x9E, CHR 0xB6, CHR 0xE1, CHR 0x9E, CHR 0x93,
     CHR 0xE1, CHR 0x9E, CHR 0x94, CHR 0xE1, CHR 0x9F, CHR 0x92, CHR 0xE1, CHR 0x9E, CHR 0x9A,
     CHR 0xE1, CHR 0x9E, CHR 0x8F, CHR 0xE1, CHR 0x9E, CHR 0xB7, CHR 0xE1, CHR 0x9E, CHR 0x94,
     CHR 0xE1, CHR 0x9E, CHR 0x8F, CHR 0xE1, CHR 0x9F, CHR 0x92, CHR 0xE1, CHR 0x9E, CHR 0x8F,
     CHR 0xE1, CHR 0x9E, CHR 0xB7, CHR 0xE1, CHR 0x9E, CHR 0x80, CHR 0xE1, CHR 0x9E, CHR 0xB6,
     CHR 0xE1, CHR 0x9E, CHR 0x9A]"

definition riel :: string where
  \<comment> \<open>the riel sign U+17DB\<close>
  "riel =
    [CHR 0xE1, CHR 0x9F, CHR 0x9B]"

definition nl :: string where
  "nl = [CHR 0x0A]"

definition digit :: "nat \<Rightarrow> char" where
  \<comment> \<open>the character of a digit; used below \<open>10\<close> only\<close>
  "digit n = ''0123456789'' ! n"

fun str_nat :: "nat \<Rightarrow> string" where
  "str_nat n = (if n < 10 then [digit n] else str_nat (n div 10) @ [digit (n mod 10)])"

declare str_nat.simps [simp del]

definition str_int :: "int \<Rightarrow> string" where
  \<comment> \<open>\<open>str(i)\<close> of an \<open>int\<close>, as an f-string renders it\<close>
  "str_int i = (if i < 0 then ''-'' @ str_nat (nat (- i)) else str_nat (nat i))"

definition fstr :: "string \<Rightarrow> string" where
  \<comment> \<open>\<open>f"{s}"\<close> of a \<open>str\<close>\<close>
  "fstr s = s"

fun join :: "string \<Rightarrow> string list \<Rightarrow> string" where
  "join sep [] = []"
| "join sep [x] = x"
| "join sep (x # y # ys) = x @ sep @ join sep (y # ys)"

definition is_space :: "char \<Rightarrow> bool" where
  \<comment> \<open>the ASCII characters that \<open>str.isspace\<close> accepts\<close>
  "is_space c = (c \<in> set [CHR 0x09, CHR 0x0A, CHR 0x0B, CHR 0x0C, CHR 0x0D,
                           CHR 0x1C, CHR 0x1D, CHR 0x1E, CHR 0x1F, CHR 0x20])"

definition strip :: "string \<Rightarrow> string" where
  \<comment> \<open>\<open>s.strip()\<close>; the templates begin and end with fixed characters outside ASCII, so
      the white space that is removed around them is ASCII\<close>
  "strip s = rev (dropWhile is_space (rev (dropWhile is_space s)))"

subsection \<open>Formatting the message (lines 80 to 113)\<close>

definition currency_symbol :: "string \<Rightarrow> string" where
  \<comment> \<open>\<open>currency if currency in ["$", riel] else f"{currency}"\<close>\<close>
  "currency_symbol currency =
     (if currency \<in> set [''$'', riel] then currency else fstr currency)"

definition currency_line :: "string \<Rightarrow> string \<Rightarrow> int \<Rightarrow> string" where
  \<comment> \<open>line 88, with the amount already rendered by \<open>:,.2f\<close>\<close>
  "currency_line currency amount_text n =
     bullet @ '' '' @ currency_symbol currency @ amount_text
       @ '' ('' @ str_int n @ '' transactions)''"

text \<open>
  The format \<open>:,.2f\<close> is a parameter \<open>fmt\<close>: it raises for a value that has no such
  format. The loop of lines 83 to 89 stops at the first entry whose amount does not format.
\<close>

fun currency_details :: "('a \<Rightarrow> exn + string) \<Rightarrow> (string \<times> 'a currency_data) list
    \<Rightarrow> exn + string list" where
  "currency_details fmt [] = Inr []"
| "currency_details fmt ((currency, d) # rest) =
     (case fmt (amount d) of
        Inl e \<Rightarrow> Inl e
      | Inr a \<Rightarrow>
          (case currency_details fmt rest of
             Inl e \<Rightarrow> Inl e
           | Inr ls \<Rightarrow> Inr (currency_line currency a (count d) # ls)))"

definition title_line :: "int \<Rightarrow> string" where
  \<comment> \<open>lines 94 and 107\<close>
  "title_line shift_number =
     lock_emoji @ '' **'' @ kh_shift @ '' #'' @ str_int shift_number @ '' ''
       @ kh_closed_automatically @ ''**''"

definition income_line :: string where
  \<comment> \<open>lines 96 and 109\<close>
  "income_line = chart_emoji @ '' **'' @ kh_total_income @ '':**''"

definition footer_line :: string where
  \<comment> \<open>lines 103 and 112\<close>
  "footer_line = zap_emoji @ '' '' @ kh_closed_by @ '': '' @ kh_scheduled_timer"

definition padding :: string where
  \<comment> \<open>the sixteen spaces before the closing quotes, lines 104 and 113\<close>
  "padding = replicate 16 (CHR 0x20)"

definition message_with_transactions :: "int \<Rightarrow> string \<Rightarrow> int \<Rightarrow> string \<Rightarrow> string" where
  \<comment> \<open>the f-string of lines 93 to 104, before \<open>.strip()\<close>\<close>
  "message_with_transactions shift_number currency_text n total_text =
     nl @ title_line shift_number @ nl
       @ nl
       @ income_line @ nl
       @ currency_text @ nl
       @ nl
       @ memo_emoji @ '' **'' @ kh_details @ '':**'' @ nl
       @ bullet @ '' '' @ kh_total_transactions @ '': '' @ str_int n @ nl
       @ bullet @ '' '' @ kh_total_value @ '': '' @ total_text @ nl
       @ nl
       @ footer_line @ nl
       @ padding"

definition message_without_transactions :: "int \<Rightarrow> string" where
  \<comment> \<open>the f-string of lines 106 to 113, before \<open>.strip()\<close>\<close>
  "message_without_transactions shift_number =
     nl @ title_line shift_number @ nl
       @ nl
       @ income_line @ nl
       @ bullet @ '' '' @ kh_no_transactions @ nl
       @ nl
       @ footer_line @ nl
       @ padding"

definition format_message :: "('a \<Rightarrow> exn + string) \<Rightarrow> int \<Rightarrow> 'a income_summary
    \<Rightarrow> exn + string" where
  "format_message fmt shift_number summary =
     (if transaction_count summary > 0 then
        (case currency_details fmt (currencies summary) of
           Inl e \<Rightarrow> Inl e
         | Inr details \<Rightarrow>
             (case fmt (total_amount summary) of
                Inl e \<Rightarrow> Inl e
              | Inr total_text \<Rightarrow>
                  Inr (strip (message_with_transactions shift_number (join nl details)
                         (transaction_count summary) total_text))))
      else Inr (strip (message_without_transactions shift_number)))"

subsection \<open>The world\<close>

text \<open>
  Modelled from the spec: \<open>helper.logger_utils.force_log\<close> is not among the sources; it
  records its message and returns. A log entry stands for one \<open>force_log\<close> call of the
  source and carries the values that the message interpolates.
\<close>

datatype log_entry =
    Log_started \<comment> \<open>line 19\<close>
  | Log_loop_error exn \<comment> \<open>line 27\<close>
  | Log_stopped \<comment> \<open>line 34\<close>
  | Log_check_starting \<comment> \<open>line 38\<close>
  | Log_auto_closed nat "int list" \<comment> \<open>line 45: the number of shifts and their ids\<close>
  | Log_shift_closed int int \<comment> \<open>line 51: shift id and chat id\<close>
  | Log_no_shifts \<comment> \<open>line 59\<close>
  | Log_check_error exn \<comment> \<open>line 62\<close>
  | Log_check_traceback exn \<comment> \<open>line 65\<close>
  | Log_sent int int \<comment> \<open>line 118: shift id and chat id\<close>
  | Log_send_failed int int \<comment> \<open>line 120: shift id and chat id\<close>
  | Log_summary_error "int option" exn \<comment> \<open>line 125: the id, or \<open>None\<close> for 'unknown'\<close>
  | Log_summary_traceback exn \<comment> \<open>line 130\<close>

text \<open>
  The calls that the scheduler makes are recorded in the order in which they are made.
\<close>

datatype call =
    Call_check \<comment> \<open>\<open>check_auto_close_shifts()\<close>\<close>
  | Call_close \<comment> \<open>\<open>shift_service.check_and_auto_close_shifts()\<close>\<close>
  | Call_notify shift_info \<comment> \<open>\<open>_send_shift_summary(shift)\<close>\<close>
  | Call_summary int int \<comment> \<open>\<open>shift_service.get_shift_income_summary(shift_id, chat_id)\<close>\<close>
  | Call_send int string \<comment> \<open>\<open>bot_service.send_message(chat_id, message)\<close>\<close>
  | Call_sleep nat \<comment> \<open>\<open>asyncio.sleep(n)\<close>\<close>

text \<open>
  The world is the flag \<open>self.is_running\<close>, the log, the calls made so far, the state of
  the shift store, and the state of everything else outside the scheduler (the chats, the
  clock, the other tasks of the event loop).
\<close>

record ('s, 'k) world =
  is_running :: bool
  logged :: "log_entry list"
  calls :: "call list"
  store :: 's
  outside :: 'k

text \<open>
  Modelled from the spec: \<open>ShiftService\<close> is not among the sources, and the class
  \<open>AutosumBusinessBot\<close> of the sources defines no \<open>send_message\<close>. The operations are
  parameters, with the signatures of section 6 of the spec: the close operation changes
  the store and returns the closed shifts, the summary is derived from the store and read
  only (section 3), and the send operation returns a success indicator. Each of them may
  raise. \<open>bot_service\<close> is \<open>None\<close> when the scheduler was constructed with \<open>None\<close>.
  \<open>stop_requested\<close> tells whether another task called \<open>stop_scheduler\<close> while the
  scheduler was suspended at an \<open>await\<close>.
\<close>

record ('s, 'k, 'a) scheduler =
  check_and_auto_close_shifts :: "'s \<Rightarrow> (exn + shift_info list) \<times> 's"
  get_shift_income_summary :: "int \<Rightarrow> int \<Rightarrow> 's \<Rightarrow> exn + 'a income_summary"
  bot_service :: "(int \<Rightarrow> string \<Rightarrow> 'k \<Rightarrow> (exn + bool) \<times> 'k) option"
  format_2f :: "'a \<Rightarrow> exn + string"
  asyncio_sleep :: "nat \<Rightarrow> 'k \<Rightarrow> (exn + unit) \<times> 'k"
  stop_requested :: "'k \<Rightarrow> bool \<times> 'k"

definition init :: "'s \<Rightarrow> 'k \<Rightarrow> ('s, 'k) world" where
  \<comment> \<open>\<open>__init__\<close>, in a world where nothing was logged or called yet\<close>
  "init s k = \<lparr>is_running = False, logged = [], calls = [], store = s, outside = k\<rparr>"

definition force_log :: "log_entry \<Rightarrow> ('s, 'k) world \<Rightarrow> ('s, 'k) world" where
  "force_log m w = w\<lparr>logged := logged w @ [m]\<rparr>"

definition called :: "call \<Rightarrow> ('s, 'k) world \<Rightarrow> ('s, 'k) world" where
  "called c w = w\<lparr>calls := calls w @ [c]\<rparr>"

subsection \<open>Sequencing and handlers\<close>

definition bindE :: "('w \<Rightarrow> (exn + 'b) \<times> 'w) \<Rightarrow> ('b \<Rightarrow> 'w \<Rightarrow> (exn + 'c) \<times> 'w)
    \<Rightarrow> 'w \<Rightarrow> (exn + 'c) \<times> 'w" where
  \<comment> \<open>one statement after another: an exception skips the rest\<close>
  "bindE m f w = (case m w of (Inl e, w') \<Rightarrow> (Inl e, w') | (Inr v, w') \<Rightarrow> f v w')"

definition lift :: "exn + 'b \<Rightarrow> 'w \<Rightarrow> (exn + 'b) \<times> 'w" where
  \<comment> \<open>an expression that reads no state\<close>
  "lift r w = (r, w)"

definition logging :: "log_entry \<Rightarrow> ('s, 'k) world \<Rightarrow> (exn + unit) \<times> ('s, 'k) world" where
  "logging m w = (Inr (), force_log m w)"

definition except_Exception :: "(exn + 'b) \<times> 'w \<Rightarrow> (exn \<Rightarrow> 'w \<Rightarrow> (exn + 'b) \<times> 'w)
    \<Rightarrow> (exn + 'b) \<times> 'w" where
  \<comment> \<open>\<open>try: ... except Exception as e: handler\<close>\<close>
  "except_Exception r handler =
     (case r of
        (Inl e, w) \<Rightarrow> if isinstance_Exception e then handler e w else (Inl e, w)
      | (Inr v, w) \<Rightarrow> (Inr v, w))"

subsection \<open>\<open>stop_scheduler\<close> and the awaits\<close>

definition stop_scheduler :: "('s, 'k) world \<Rightarrow> (exn + unit) \<times> ('s, 'k) world" where
  "stop_scheduler w = logging Log_stopped (w\<lparr>is_running := False\<rparr>)"

definition resumed :: "('s, 'k, 'a) scheduler \<Rightarrow> ('s, 'k) world \<Rightarrow> ('s, 'k) world" where
  \<comment> \<open>the other tasks have run while the scheduler was suspended\<close>
  "resumed S w =
     (case stop_requested S (outside w) of
        (stop, k) \<Rightarrow>
          if stop then snd (stop_scheduler (w\<lparr>outside := k\<rparr>)) else w\<lparr>outside := k\<rparr>)"

definition await_check_and_auto_close_shifts :: "('s, 'k, 'a) scheduler \<Rightarrow> ('s, 'k) world
    \<Rightarrow> (exn + shift_info list) \<times> ('s, 'k) world" where
  "await_check_and_auto_close_shifts S w =
     (case check_and_auto_close_shifts S (store w) of
        (r, s) \<Rightarrow> (r, resumed S ((called Call_close w)\<lparr>store := s\<rparr>)))"

definition await_get_shift_income_summary :: "('s, 'k, 'a) scheduler \<Rightarrow> int \<Rightarrow> int
    \<Rightarrow> ('s, 'k) world \<Rightarrow> (exn + 'a income_summary) \<times> ('s, 'k) world" where
  "await_get_shift_income_summary S shift_id chat_id w =
     (get_shift_income_summary S shift_id chat_id (store w),
      resumed S (called (Call_summary shift_id chat_id) w))"

definition await_send_message :: "('s, 'k, 'a) scheduler \<Rightarrow> int \<Rightarrow> string
    \<Rightarrow> ('s, 'k) world \<Rightarrow> (exn + bool) \<times> ('s, 'k) world" where
  "await_send_message S chat_id message w =
     (case bot_service S of
        None \<Rightarrow> (Inl (AttributeError ''send_message''), w)
      | Some send_message \<Rightarrow>
          (case send_message chat_id message (outside w) of
             (r, k) \<Rightarrow> (r, resumed S ((called (Call_send chat_id message) w)\<lparr>outside := k\<rparr>))))"

definition await_sleep :: "('s, 'k, 'a) scheduler \<Rightarrow> nat \<Rightarrow> ('s, 'k) world
    \<Rightarrow> (exn + unit) \<times> ('s, 'k) world" where
  "await_sleep S n w =
     (case asyncio_sleep S n (outside w) of
        (r, k) \<Rightarrow> (r, resumed S ((called (Call_sleep n) w)\<lparr>outside := k\<rparr>)))"

subsection \<open>\<open>_send_shift_summary\<close> (lines 67 to 130)\<close>

definition send_shift_summary_try :: "('s, 'k, 'a) scheduler \<Rightarrow> shift_info
    \<Rightarrow> ('s, 'k) world \<Rightarrow> (exn + unit) \<times> ('s, 'k) world" where
  \<comment> \<open>the body of the \<open>try\<close>, lines 70 to 122\<close>
  "send_shift_summary_try S shift_info =
     bindE (lift (getitem shift_info ''chat_id'')) (\<lambda>chat_id.
     bindE (lift (getitem shift_info ''id'')) (\<lambda>shift_id.
     bindE (lift (getitem shift_info ''number'')) (\<lambda>shift_number.
     bindE (await_get_shift_income_summary S shift_id chat_id) (\<lambda>summary.
     bindE (lift (format_message (format_2f S) shift_number summary)) (\<lambda>message.
     bindE (await_send_message S chat_id message) (\<lambda>success.
     logging (if success then Log_sent shift_id chat_id
              else Log_send_failed shift_id chat_id)))))))"

definition send_shift_summary_except :: "shift_info \<Rightarrow> exn
    \<Rightarrow> ('s, 'k) world \<Rightarrow> (exn + unit) \<times> ('s, 'k) world" where
  \<comment> \<open>the handler, lines 125 to 130; \<open>shift_info.get('id', 'unknown')\<close> is the
      optional id\<close>
  "send_shift_summary_except shift_info e =
     bindE (logging (Log_summary_error (shift_info ''id'') e))
       (\<lambda>_. logging (Log_summary_traceback e))"

definition send_shift_summary :: "('s, 'k, 'a) scheduler \<Rightarrow> shift_info
    \<Rightarrow> ('s, 'k) world \<Rightarrow> (exn + unit) \<times> ('s, 'k) world" where
  "send_shift_summary S shift_info w =
     except_Exception (send_shift_summary_try S shift_info (called (Call_notify shift_info) w))
       (send_shift_summary_except shift_info)"

subsection \<open>\<open>check_auto_close_shifts\<close> (lines 36 to 65)\<close>

fun shift_ids :: "shift_info list \<Rightarrow> exn + int list" where
  \<comment> \<open>\<open>[shift['id'] for shift in closed_shifts]\<close>\<close>
  "shift_ids [] = Inr []"
| "shift_ids (shift # rest) =
     (case getitem shift ''id'' of
        Inl e \<Rightarrow> Inl e
      | Inr i \<Rightarrow> (case shift_ids rest of Inl e \<Rightarrow> Inl e | Inr ids \<Rightarrow> Inr (i # ids)))"

definition closed_shift_step :: "('s, 'k, 'a) scheduler \<Rightarrow> shift_info
    \<Rightarrow> ('s, 'k) world \<Rightarrow> (exn + unit) \<times> ('s, 'k) world" where
  \<comment> \<open>the body of the \<open>for\<close>, lines 51 to 57\<close>
  "closed_shift_step S shift =
     bindE (lift (getitem shift ''id'')) (\<lambda>shift_id.
     bindE (lift (getitem shift ''chat_id'')) (\<lambda>chat_id.
     bindE (logging (Log_shift_closed shift_id chat_id)) (\<lambda>_.
     if bot_service S \<noteq> None then send_shift_summary S shift else lift (Inr ()))))"

fun for_closed_shifts :: "('s, 'k, 'a) scheduler \<Rightarrow> shift_info list
    \<Rightarrow> ('s, 'k) world \<Rightarrow> (exn + unit) \<times> ('s, 'k) world" where
  "for_closed_shifts S [] w = (Inr (), w)"
| "for_closed_shifts S (shift # rest) w =
     (case closed_shift_step S shift w of
        (Inl e, w') \<Rightarrow> (Inl e, w')
      | (Inr u, w') \<Rightarrow> for_closed_shifts S rest w')"

definition report_closed_shifts :: "('s, 'k, 'a) scheduler \<Rightarrow> shift_info list
    \<Rightarrow> ('s, 'k) world \<Rightarrow> (exn + unit) \<times> ('s, 'k) world" where
  \<comment> \<open>the \<open>if closed_shifts:\<close> of lines 44 to 59\<close>
  "report_closed_shifts S closed_shifts =
     (if closed_shifts \<noteq> [] then
        bindE (lift (shift_ids closed_shifts)) (\<lambda>ids.
        bindE (logging (Log_auto_closed (length closed_shifts) ids)) (\<lambda>_.
        for_closed_shifts S closed_shifts))
      else logging Log_no_shifts)"

definition check_auto_close_shifts_try :: "('s, 'k, 'a) scheduler
    \<Rightarrow> ('s, 'k) world \<Rightarrow> (exn + unit) \<times> ('s, 'k) world" where
  \<comment> \<open>the body of the \<open>try\<close>, lines 42 to 59\<close>
  "check_auto_close_shifts_try S =
     bindE (await_check_and_auto_close_shifts S) (report_closed_shifts S)"

definition check_auto_close_shifts_except :: "exn
    \<Rightarrow> ('s, 'k) world \<Rightarrow> (exn + unit) \<times> ('s, 'k) world" where
  \<comment> \<open>the handler, lines 62 to 65\<close>
  "check_auto_close_shifts_except e =
     bindE (logging (Log_check_error e)) (\<lambda>_. logging (Log_check_traceback e))"

definition check_auto_close_shifts :: "('s, 'k, 'a) scheduler
    \<Rightarrow> ('s, 'k) world \<Rightarrow> (exn + unit) \<times> ('s, 'k) world" where
  "check_auto_close_shifts S w =
     except_Exception
       (check_auto_close_shifts_try S (force_log Log_check_starting (called Call_check w)))
       check_auto_close_shifts_except"

subsection \<open>\<open>start_scheduler\<close> (lines 16 to 29)\<close>

definition scheduler_iteration_except :: "('s, 'k, 'a) scheduler \<Rightarrow> exn
    \<Rightarrow> ('s, 'k) world \<Rightarrow> (exn + unit) \<times> ('s, 'k) world" where
  \<comment> \<open>the handler, lines 27 to 29\<close>
  "scheduler_iteration_except S e =
     bindE (logging (Log_loop_error e)) (\<lambda>_. await_sleep S 60)"

definition scheduler_iteration :: "('s, 'k, 'a) scheduler
    \<Rightarrow> ('s, 'k) world \<Rightarrow> (exn + unit) \<times> ('s, 'k) world" where
  \<comment> \<open>the body of the \<open>while\<close>, lines 22 to 29\<close>
  "scheduler_iteration S w =
     except_Exception (bindE (check_auto_close_shifts S) (\<lambda>_. await_sleep S 60) w)
       (scheduler_iteration_except S)"

text \<open>
  The loop has no bound in the source. Here it runs at most \<open>fuel\<close> iterations: the
  result is \<open>None\<close> when the flag is still set after that many, \<open>Some (Inr ())\<close> when the
  loop has seen the flag cleared and returned, and \<open>Some (Inl e)\<close> when \<open>e\<close> has left it.
\<close>

fun scheduler_loop :: "nat \<Rightarrow> ('s, 'k, 'a) scheduler
    \<Rightarrow> ('s, 'k) world \<Rightarrow> (exn + unit) option \<times> ('s, 'k) world" where
  "scheduler_loop 0 S w = (if is_running w then (None, w) else (Some (Inr ()), w))"
| "scheduler_loop (Suc fuel) S w =
     (if is_running w then
        (case scheduler_iteration S w of
           (Inl e, w') \<Rightarrow> (Some (Inl e), w')
         | (Inr u, w') \<Rightarrow> scheduler_loop fuel S w')
      else (Some (Inr ()), w))"

definition start_scheduler :: "nat \<Rightarrow> ('s, 'k, 'a) scheduler
    \<Rightarrow> ('s, 'k) world \<Rightarrow> (exn + unit) option \<times> ('s, 'k) world" where
  "start_scheduler fuel S w =
     scheduler_loop fuel S (force_log Log_started (w\<lparr>is_running := True\<rparr>))"

subsection \<open>A formatter and collaborators to run the scheduler on\<close>

text \<open>
  The spec has the amounts as decimals (section 6). For a \<open>Decimal\<close> with the finite
  value \<open>x\<close>, under the default context, and for a float with that value,
  \<open>format(x, ',.2f')\<close> is the following: two decimals, rounded half to even, the
  integer part grouped by thousands, and a sign for a negative number. What is no
  rational number is outside: a negative zero (which prints \<open>-0.00\<close>), an infinity, a
  NaN. An \<open>int\<close> is outside as well: the format converts it to a float first, which
  changes its value from \<open>2^53\<close> on and raises \<open>OverflowError\<close> from \<open>2^1024\<close> on. The
  function serves as the formatter of the examples, whose amounts are 45.5, 1000 and
  1045.5.
\<close>

fun group_thousands :: "string \<Rightarrow> string" where
  "group_thousands s =
     (if length s \<le> 3 then s
      else group_thousands (take (length s - 3) s) @ '','' @ drop (length s - 3) s)"

declare group_thousands.simps [simp del]

definition round_half_even :: "rat \<Rightarrow> int" where
  "round_half_even q =
     (let f = \<lfloor>q\<rfloor>; r = q - of_int f
      in if r < 1 / 2 then f else if 1 / 2 < r then f + 1 else if even f then f else f + 1)"

definition format_comma_2f :: "rat \<Rightarrow> string" where
  "format_comma_2f x =
     (let cents = nat (round_half_even (\<bar>x\<bar> * 100))
      in (if x < 0 then ''-'' else [])
           @ group_thousands (str_nat (cents div 100))
           @ ''.'' @ [digit (cents mod 100 div 10), digit (cents mod 10)])"

definition shift_a :: shift_info where
  "shift_a = [''id'' \<mapsto> 1, ''chat_id'' \<mapsto> 100, ''number'' \<mapsto> 7]"

definition shift_b :: shift_info where
  "shift_b = [''id'' \<mapsto> 2, ''chat_id'' \<mapsto> 200, ''number'' \<mapsto> 8]"

definition example_summary :: "rat income_summary" where
  \<comment> \<open>the summary of section 8 of the spec; its total is not given there\<close>
  "example_summary =
     \<lparr>transaction_count = 3, total_amount = 1045.5,
      currencies = [(''$'', \<lparr>amount = 45.5, count = 2\<rparr>), (riel, \<lparr>amount = 1000, count = 1\<rparr>)]\<rparr>"

definition example_scheduler :: "(unit, unit, rat) scheduler" where
  \<comment> \<open>two shifts are closed in every cycle, every summary is the example, every message
      is delivered, and no other task stops the scheduler\<close>
  "example_scheduler =
     \<lparr>check_and_auto_close_shifts = (\<lambda>s. (Inr [shift_a, shift_b], s)),
      get_shift_income_summary = (\<lambda>shift_id chat_id s. Inr example_summary),
      bot_service = Some (\<lambda>chat_id message k. (Inr True, k)),
      format_2f = (\<lambda>x. Inr (format_comma_2f x)),
      asyncio_sleep = (\<lambda>n k. (Inr (), k)),
      stop_requested = (\<lambda>k. (False, k))\<rparr>"

definition scheduler_without_bot :: "(unit, unit, rat) scheduler" where
  \<comment> \<open>constructed with \<open>None\<close> for the bot service\<close>
  "scheduler_without_bot = example_scheduler\<lparr>bot_service := None\<rparr>"

definition scheduler_without_shifts :: "(unit, unit, rat) scheduler" where
  \<comment> \<open>no shift is overdue\<close>
  "scheduler_without_shifts =
     example_scheduler\<lparr>check_and_auto_close_shifts := (\<lambda>s. (Inr [], s))\<rparr>"

definition scheduler_store_down :: "(unit, unit, rat) scheduler" where
  \<comment> \<open>the close operation raises an \<open>Exception\<close>\<close>
  "scheduler_store_down =
     example_scheduler\<lparr>check_and_auto_close_shifts :=
       (\<lambda>s. (Inl (Exception ''store unreachable''), s))\<rparr>"

definition scheduler_summary_fails :: "(unit, unit, rat) scheduler" where
  \<comment> \<open>the summary of shift 1 raises an \<open>Exception\<close>\<close>
  "scheduler_summary_fails =
     example_scheduler\<lparr>get_shift_income_summary :=
       (\<lambda>shift_id chat_id s.
          if shift_id = 1 then Inl (Exception ''no such shift'') else Inr example_summary)\<rparr>"

definition scheduler_close_cancelled :: "(unit, unit, rat) scheduler" where
  \<comment> \<open>the task is cancelled while it awaits the close operation\<close>
  "scheduler_close_cancelled =
     example_scheduler\<lparr>check_and_auto_close_shifts :=
       (\<lambda>s. (Inl (BaseExceptionOnly ''CancelledError''), s))\<rparr>"

definition scheduler_summary_cancelled :: "(unit, unit, rat) scheduler" where
  \<comment> \<open>the task is cancelled while it awaits the summary of shift 1\<close>
  "scheduler_summary_cancelled =
     example_scheduler\<lparr>get_shift_income_summary :=
       (\<lambda>shift_id chat_id s.
          if shift_id = 1 then Inl (BaseExceptionOnly ''CancelledError'')
          else Inr example_summary)\<rparr>"

definition scheduler_send_interrupted :: "(unit, unit, rat) scheduler" where
  \<comment> \<open>the process is interrupted while a message is sent\<close>
  "scheduler_send_interrupted =
     example_scheduler\<lparr>bot_service :=
       Some (\<lambda>chat_id message k. (Inl (BaseExceptionOnly ''KeyboardInterrupt''), k))\<rparr>"

definition scheduler_stopping :: "(unit, unit, rat) scheduler" where
  \<comment> \<open>another task calls \<open>stop_scheduler\<close> whenever the scheduler is suspended\<close>
  "scheduler_stopping = example_scheduler\<lparr>stop_requested := (\<lambda>k. (True, k))\<rparr>"

definition scheduler_delivery_fails :: "(unit, unit, rat) scheduler" where
  \<comment> \<open>no message is delivered: \<open>send_message\<close> returns \<open>False\<close>\<close>
  "scheduler_delivery_fails =
     example_scheduler\<lparr>bot_service := Some (\<lambda>chat_id message k. (Inr False, k))\<rparr>"

subsection \<open>Vocabulary of the properties\<close>

definition is_notify :: "call \<Rightarrow> bool" where
  "is_notify c = (case c of Call_notify shift \<Rightarrow> True | _ \<Rightarrow> False)"

definition is_fetch_or_send :: "call \<Rightarrow> bool" where
  "is_fetch_or_send c =
     (case c of Call_summary i ch \<Rightarrow> True | Call_send ch m \<Rightarrow> True | _ \<Rightarrow> False)"

definition is_send_to :: "int \<Rightarrow> call \<Rightarrow> bool" where
  "is_send_to chat_id c = (case c of Call_send ch m \<Rightarrow> ch = chat_id | _ \<Rightarrow> False)"

definition closed_shift_record :: "shift_info \<Rightarrow> bool" where
  \<comment> \<open>the \<open>ClosedShiftRecord\<close> of the spec: a dict with the three keys\<close>
  "closed_shift_record shift =
     (shift ''id'' \<noteq> None \<and> shift ''chat_id'' \<noteq> None \<and> shift ''number'' \<noteq> None)"

definition raises_only_Exception :: "exn + 'b \<Rightarrow> bool" where
  "raises_only_Exception r = (case r of Inl e \<Rightarrow> isinstance_Exception e | Inr v \<Rightarrow> True)"

definition notifying_raises_only_Exception :: "('s, 'k, 'a) scheduler \<Rightarrow> bool" where
  \<comment> \<open>whatever the summary fetch, the format and the send operation raise is an
      instance of \<open>Exception\<close>\<close>
  "notifying_raises_only_Exception S =
     ((\<forall>shift_id chat_id s. raises_only_Exception (get_shift_income_summary S shift_id chat_id s))
      \<and> (\<forall>x. raises_only_Exception (format_2f S x))
      \<and> (\<forall>send_message chat_id message k. bot_service S = Some send_message
            \<longrightarrow> raises_only_Exception (fst (send_message chat_id message k))))"

definition closing_raises_only_Exception :: "('s, 'k, 'a) scheduler \<Rightarrow> bool" where
  "closing_raises_only_Exception S =
     (\<forall>s. raises_only_Exception (fst (check_and_auto_close_shifts S s)))"

definition sleep_returns :: "('s, 'k, 'a) scheduler \<Rightarrow> bool" where
  \<comment> \<open>\<open>asyncio.sleep\<close> returns: the task is not cancelled while it sleeps\<close>
  "sleep_returns S = (\<forall>n k. fst (asyncio_sleep S n k) = Inr ())"

definition same_calls_and_state :: "('s, 'k) world \<Rightarrow> ('s, 'k) world \<Rightarrow> bool" where
  \<comment> \<open>two worlds that differ in the flag and in the log at most\<close>
  "same_calls_and_state w v =
     (calls w = calls v \<and> store w = store v \<and> outside w = outside v)"

abbreviation at_line_40 :: "('s, 'k) world \<Rightarrow> ('s, 'k) world" where
  \<comment> \<open>the world in which the \<open>try\<close> of a cycle begins: the cycle was called and
      line 38 has logged\<close>
  "at_line_40 w \<equiv> force_log Log_check_starting (called Call_check w)"

abbreviation at_line_50 :: "('s, 'k, 'a) scheduler \<Rightarrow> shift_info list \<Rightarrow> 's
    \<Rightarrow> ('s, 'k) world \<Rightarrow> ('s, 'k) world" where
  \<comment> \<open>the world in which the \<open>for\<close> of a cycle begins: the close operation has
      returned the records \<open>shifts\<close> and left the store \<open>s\<close>, and line 45 has logged\<close>
  "at_line_50 S shifts s w \<equiv>
     force_log (Log_auto_closed (length shifts) (map (\<lambda>shift. the (shift ''id'')) shifts))
       (resumed S ((called Call_close (at_line_40 w))\<lparr>store := s\<rparr>))"

definition quiet_step :: "('s, 'k) world \<Rightarrow> ('s, 'k) world \<Rightarrow> bool" where
  \<comment> \<open>from the first world to the second no cycle was started, the flag was not set,
      and a logged stop has cleared the flag\<close>
  "quiet_step w w' =
     (\<exists>l cs. logged w' = logged w @ l \<and> calls w' = calls w @ cs
          \<and> Log_check_starting \<notin> set l \<and> Call_check \<notin> set cs
          \<and> (Log_stopped \<in> set l \<longrightarrow> \<not> is_running w')
          \<and> (is_running w' \<longrightarrow> is_running w))"

fun no_check_after_stop :: "log_entry list \<Rightarrow> bool" where
  \<comment> \<open>no cycle starts after a stop\<close>
  "no_check_after_stop [] = True"
| "no_check_after_stop (m # l) =
     ((m = Log_stopped \<longrightarrow> Log_check_starting \<notin> set l) \<and> no_check_after_stop l)"

fun closure_lines :: "shift_info list \<Rightarrow> log_entry list" where
  \<comment> \<open>the log entries of line 51 for a list of shifts that have both keys\<close>
  "closure_lines [] = []"
| "closure_lines (shift # rest) =
     Log_shift_closed (the (shift ''id'')) (the (shift ''chat_id'')) # closure_lines rest"

section \<open>Properties\<close>

subsection \<open>Strings and the message\<close>

lemma strip_padded:
  assumes a: "\<forall>c\<in>set a. is_space c" and b: "\<forall>c\<in>set b. is_space c"
    and xs: "xs \<noteq> []" and h: "\<not> is_space (hd xs)" and l: "\<not> is_space (last xs)"
  shows "strip (a @ xs @ b) = xs"
proof -
  have "dropWhile is_space (a @ xs @ b) = dropWhile is_space (xs @ b)"
    using a by (simp add: dropWhile_append2)
  also have "\<dots> = xs @ b"
    using xs h by (simp add: dropWhile_eq_self_iff)
  finally have 1: "dropWhile is_space (a @ xs @ b) = xs @ b" .
  have "\<And>c. c \<in> set (rev b) \<Longrightarrow> is_space c"
    using b by simp
  then have "dropWhile is_space (rev b @ rev xs) = dropWhile is_space (rev xs)"
    by (rule dropWhile_append2)
  also have "\<dots> = rev xs"
    using xs l by (simp add: dropWhile_eq_self_iff hd_rev)
  finally show ?thesis
    using 1 by (simp add: strip_def)
qed

lemma title_line_head: "\<exists>t. title_line n = CHR 0xF0 # t"
  by (simp add: title_line_def lock_emoji_def)

lemma footer_line_last: "footer_line \<noteq> [] \<and> last footer_line = CHR 0xB7"
  by (simp add: footer_line_def kh_scheduled_timer_def)

lemma strip_message:
  "strip (nl @ title_line n @ middle @ footer_line @ nl @ padding)
     = title_line n @ middle @ footer_line"
proof -
  obtain t where t: "title_line n = CHR 0xF0 # t"
    using title_line_head by blast
  let ?xs = "title_line n @ middle @ footer_line"
  have "strip (nl @ ?xs @ (nl @ padding)) = ?xs"
  proof (rule strip_padded)
    show "\<forall>c\<in>set nl. is_space c" by (simp add: nl_def is_space_def)
    show "\<forall>c\<in>set (nl @ padding). is_space c"
      by (auto simp add: nl_def padding_def is_space_def)
    show "?xs \<noteq> []" by (simp add: t)
    show "\<not> is_space (hd ?xs)" by (simp add: t is_space_def)
    show "\<not> is_space (last ?xs)" using footer_line_last by (simp add: is_space_def)
  qed
  then show ?thesis by simp
qed

lemma strip_with_transactions:
  "strip (message_with_transactions shift_number ctext n total_text)
      = title_line shift_number @ nl @ nl @ income_line @ nl @ ctext @ nl @ nl
          @ memo_emoji @ '' **'' @ kh_details @ '':**'' @ nl
          @ bullet @ '' '' @ kh_total_transactions @ '': '' @ str_int n @ nl
          @ bullet @ '' '' @ kh_total_value @ '': '' @ total_text @ nl @ nl @ footer_line"
proof -
  let ?middle = "nl @ nl @ income_line @ nl @ ctext @ nl @ nl
          @ memo_emoji @ '' **'' @ kh_details @ '':**'' @ nl
          @ bullet @ '' '' @ kh_total_transactions @ '': '' @ str_int n @ nl
          @ bullet @ '' '' @ kh_total_value @ '': '' @ total_text @ nl @ nl"
  have "message_with_transactions shift_number ctext n total_text
      = nl @ title_line shift_number @ ?middle @ footer_line @ nl @ padding"
    unfolding message_with_transactions_def by (simp only: append_assoc)
  then have "strip (message_with_transactions shift_number ctext n total_text)
      = title_line shift_number @ ?middle @ footer_line"
    by (simp only: strip_message)
  then show ?thesis by (simp only: append_assoc)
qed

lemma strip_without_transactions:
  "strip (message_without_transactions shift_number)
      = title_line shift_number @ nl @ nl @ income_line @ nl
          @ bullet @ '' '' @ kh_no_transactions @ nl @ nl @ footer_line"
proof -
  let ?middle = "nl @ nl @ income_line @ nl @ bullet @ '' '' @ kh_no_transactions @ nl @ nl"
  have "message_without_transactions shift_number
      = nl @ title_line shift_number @ ?middle @ footer_line @ nl @ padding"
    unfolding message_without_transactions_def by (simp only: append_assoc)
  then have "strip (message_without_transactions shift_number)
      = title_line shift_number @ ?middle @ footer_line"
    by (simp only: strip_message)
  then show ?thesis by (simp only: append_assoc)
qed

lemma currency_details_total:
  "currency_details (\<lambda>x. Inr (txt x)) cs
     = Inr (map (\<lambda>(currency, d). currency_line currency (txt (amount d)) (count d)) cs)"
  by (induction cs) auto

lemma str_int_digits: "str_int 1 = ''1''" "str_int 2 = ''2''" "str_int 3 = ''3''"
  by (simp_all add: str_int_def str_nat.simps digit_def)

lemma format_comma_2f_examples:
  "format_comma_2f (91 / 2) = ''45.50''"
  "format_comma_2f 1000 = ''1,000.00''"
  "format_comma_2f (2091 / 2) = ''1,045.50''"
  by (simp_all add: format_comma_2f_def round_half_even_def str_nat.simps
      group_thousands.simps digit_def)

text \<open>
  C10. The choice of the currency symbol is the identity: for every currency code, the
  expression of line 85 evaluates to the code itself, so that a breakdown line shows the
  key of the \<open>currencies\<close> mapping as it is.
\<close>

theorem currency_symbol_identity: "currency_symbol currency = currency"
  by (simp add: currency_symbol_def fstr_def)

lemmas message_constants =
  title_line_def income_line_def footer_line_def nl_def
  lock_emoji_def kh_shift_def kh_closed_automatically_def chart_emoji_def
  kh_total_income_def memo_emoji_def kh_details_def bullet_def kh_total_transactions_def
  kh_total_value_def zap_emoji_def kh_closed_by_def kh_scheduled_timer_def
  kh_no_transactions_def

text \<open>
  C5. For every income summary whose amounts format, the message is the following text,
  spelled in the bytes of its UTF-8 encoding. With a positive transaction count: the
  title of line 94 with the shift number after the number sign, the income heading, one
  line per entry of \<open>currencies\<close> (a bullet, the currency, the amount, and the count of
  transactions in parentheses) joined by newlines, the details heading, the line with the
  transaction count, the line with the total amount, and the footer of line 103 that names
  the automatic timer. Otherwise: the same title with the shift number, the income
  heading, the line of line 110 that says there are no transactions, and the same footer.
\<close>

theorem format_message_contents:
  "format_message (\<lambda>x. Inr (txt x)) shift_number summary =
     Inr (if 0 < transaction_count summary then
            [CHR 0xF0, CHR 0x9F, CHR 0x94, CHR 0x92]
            @ '' **''
            @ [CHR 0xE1, CHR 0x9E, CHR 0x9C, CHR 0xE1, CHR 0x9F, CHR 0x81, CHR 0xE1, CHR 0x9E,
             CHR 0x93]
            @ '' #''
            @ str_int shift_number
            @ '' ''
            @ [CHR 0xE1, CHR 0x9E, CHR 0x94, CHR 0xE1, CHR 0x9E, CHR 0xB6, CHR 0xE1, CHR 0x9E,
             CHR 0x93, CHR 0xE1, CHR 0x9E, CHR 0x94, CHR 0xE1, CHR 0x9E, CHR 0xB7, CHR 0xE1,
             CHR 0x9E, CHR 0x91, CHR 0xE1, CHR 0x9E, CHR 0x8A, CHR 0xE1, CHR 0x9F, CHR 0x84,
             CHR 0xE1, CHR 0x9E, CHR 0x99, CHR 0xE1, CHR 0x9E, CHR 0x9F, CHR 0xE1, CHR 0x9F,
             CHR 0x92, CHR 0xE1, CHR 0x9E, CHR 0x9C, CHR 0xE1, CHR 0x9F, CHR 0x90, CHR 0xE1,
             CHR 0x9E, CHR 0x99, CHR 0xE1, CHR 0x9E, CHR 0x94, CHR 0xE1, CHR 0x9F, CHR 0x92,
             CHR 0xE1, CHR 0x9E, CHR 0x9A, CHR 0xE1, CHR 0x9E, CHR 0x9C, CHR 0xE1, CHR 0x9E,
             CHR 0x8F, CHR 0xE1, CHR 0x9F, CHR 0x92, CHR 0xE1, CHR 0x9E, CHR 0x8F, CHR 0xE1,
             CHR 0x9E, CHR 0xB7]
            @ ''**''
            @ [CHR 0x0A, CHR 0x0A, CHR 0xF0, CHR 0x9F, CHR 0x93, CHR 0x8A]
            @ '' **''
            @ [CHR 0xE1, CHR 0x9E, CHR 0x9F, CHR 0xE1, CHR 0x9E, CHR 0x9A, CHR 0xE1, CHR 0x9E,
             CHR 0xBB, CHR 0xE1, CHR 0x9E, CHR 0x94, CHR 0xE1, CHR 0x9E, CHR 0x85, CHR 0xE1,
             CHR 0x9F, CHR 0x86, CHR 0xE1, CHR 0x9E, CHR 0x8E, CHR 0xE1, CHR 0x9E, CHR 0xBC,
             CHR 0xE1, CHR 0x9E, CHR 0x9B]
            @ '':**''
            @ [CHR 0x0A]
            @ join [CHR 0x0A]
                (map (\<lambda>(currency, d).
                        [CHR 0xE2, CHR 0x80, CHR 0xA2]
                          @ '' ''
                          @ currency
                          @ txt (amount d)
                          @ '' (''
                          @ str_int (count d)
                          @ '' transactions)'')
                   (currencies summary))
            @ [CHR 0x0A, CHR 0x0A, CHR 0xF0, CHR 0x9F, CHR 0x93, CHR 0x9D]
            @ '' **''
            @ [CHR 0xE1, CHR 0x9E, CHR 0x96, CHR 0xE1, CHR 0x9F, CHR 0x90, CHR 0xE1, CHR 0x9E,
             CHR 0x8F, CHR 0xE1, CHR 0x9F, CHR 0x8C, CHR 0xE1, CHR 0x9E, CHR 0x98, CHR 0xE1,
             CHR 0x9E, CHR 0xB6, CHR 0xE1, CHR 0x9E, CHR 0x93, CHR 0xE1, CHR 0x9E, CHR 0x9B,
             CHR 0xE1, CHR 0x9E, CHR 0x98, CHR 0xE1, CHR 0x9F, CHR 0x92, CHR 0xE1, CHR 0x9E,
             CHR 0xA2, CHR 0xE1, CHR 0x9E, CHR 0xB7, CHR 0xE1, CHR 0x9E, CHR 0x8F]
            @ '':**''
            @ [CHR 0x0A, CHR 0xE2, CHR 0x80, CHR 0xA2]
            @ '' ''
            @ [CHR 0xE1, CHR 0x9E, CHR 0x85, CHR 0xE1, CHR 0x9F, CHR 0x86, CHR 0xE1, CHR 0x9E,
             CHR 0x93, CHR 0xE1, CHR 0x9E, CHR 0xBD, CHR 0xE1, CHR 0x9E, CHR 0x93, CHR 0xE1,
             CHR 0x9E, CHR 0x94, CHR 0xE1, CHR 0x9F, CHR 0x92, CHR 0xE1, CHR 0x9E, CHR 0x9A,
             CHR 0xE1, CHR 0x9E, CHR 0x8F, CHR 0xE1, CHR 0x9E, CHR 0xB7, CHR 0xE1, CHR 0x9E,
             CHR 0x94, CHR 0xE1, CHR 0x9E, CHR 0x8F, CHR 0xE1, CHR 0x9F, CHR 0x92, CHR 0xE1,
             CHR 0x9E, CHR 0x8F, CHR 0xE1, CHR 0x9E, CHR 0xB7, CHR 0xE1, CHR 0x9E, CHR 0x80,
             CHR 0xE1, CHR 0x9E, CHR 0xB6, CHR 0xE1, CHR 0x9E, CHR 0x9A, CHR 0xE1, CHR 0x9E,
             CHR 0x9F, CHR 0xE1, CHR 0x9E, CHR 0x9A, CHR 0xE1, CHR 0x9E, CHR 0xBB, CHR 0xE1,
             CHR 0x9E, CHR 0x94]
            @ '': ''
            @ str_int (transaction_count summary)
            @ [CHR 0x0A, CHR 0xE2, CHR 0x80, CHR 0xA2]
            @ '' ''
            @ [CHR 0xE1, CHR 0x9E, CHR 0x8F, CHR 0xE1, CHR 0x9E, CHR 0x98, CHR 0xE1, CHR 0x9F,
             CHR 0x92, CHR 0xE1, CHR 0x9E, CHR 0x9B, CHR 0xE1, CHR 0x9F, CHR 0x83, CHR 0xE1,
             CHR 0x9E, CHR 0x9F, CHR 0xE1, CHR 0x9E, CHR 0x9A, CHR 0xE1, CHR 0x9E, CHR 0xBB,
             CHR 0xE1, CHR 0x9E, CHR 0x94]
            @ '': ''
            @ txt (total_amount summary)
            @ [CHR 0x0A, CHR 0x0A, CHR 0xE2, CHR 0x9A, CHR 0xA1]
            @ '' ''
            @ [CHR 0xE1, CHR 0x9E, CHR 0x94, CHR 0xE1, CHR 0x9E, CHR 0xB7, CHR 0xE1, CHR 0x9E,
             CHR 0x91, CHR 0xE1, CHR 0x9E, CHR 0x8A, CHR 0xE1, CHR 0x9F, CHR 0x84, CHR 0xE1,
             CHR 0x9E, CHR 0x99]
            @ '': ''
            @ [CHR 0xE1, CHR 0x9E, CHR 0x80, CHR 0xE1, CHR 0x9E, CHR 0xB6, CHR 0xE1, CHR 0x9E,
             CHR 0x9A, CHR 0xE1, CHR 0x9E, CHR 0x80, CHR 0xE1, CHR 0x9F, CHR 0x86, CHR 0xE1,
             CHR 0x9E, CHR 0x8E, CHR 0xE1, CHR 0x9E, CHR 0x8F, CHR 0xE1, CHR 0x9F, CHR 0x8B,
             CHR 0xE1, CHR 0x9E, CHR 0x96, CHR 0xE1, CHR 0x9F, CHR 0x81, CHR 0xE1, CHR 0x9E,
             CHR 0x9B, CHR 0xE1, CHR 0x9E, CHR 0x9C, CHR 0xE1, CHR 0x9F, CHR 0x81, CHR 0xE1,
             CHR 0x9E, CHR 0x9B, CHR 0xE1, CHR 0x9E, CHR 0xB6, CHR 0xE1, CHR 0x9E, CHR 0x9F,
             CHR 0xE1, CHR 0x9F, CHR 0x92, CHR 0xE1, CHR 0x9E, CHR 0x9C, CHR 0xE1, CHR 0x9F,
             CHR 0x90, CHR 0xE1, CHR 0x9E, CHR 0x99, CHR 0xE1, CHR 0x9E, CHR 0x94, CHR 0xE1,
             CHR 0x9F, CHR 0x92, CHR 0xE1, CHR 0x9E, CHR 0x9A, CHR 0xE1, CHR 0x9E, CHR 0x9C,
             CHR 0xE1, CHR 0x9E, CHR 0x8F, CHR 0xE1, CHR 0x9F, CHR 0x92, CHR 0xE1, CHR 0x9E,
             CHR 0x8F, CHR 0xE1, CHR 0x9E, CHR 0xB7]
          else
            [CHR 0xF0, CHR 0x9F, CHR 0x94, CHR 0x92]
            @ '' **''
            @ [CHR 0xE1, CHR 0x9E, CHR 0x9C, CHR 0xE1, CHR 0x9F, CHR 0x81, CHR 0xE1, CHR 0x9E,
             CHR 0x93]
            @ '' #''
            @ str_int shift_number
            @ '' ''
            @ [CHR 0xE1, CHR 0x9E, CHR 0x94, CHR 0xE1, CHR 0x9E, CHR 0xB6, CHR 0xE1, CHR 0x9E,
             CHR 0x93, CHR 0xE1, CHR 0x9E, CHR 0x94, CHR 0xE1, CHR 0x9E, CHR 0xB7, CHR 0xE1,
             CHR 0x9E, CHR 0x91, CHR 0xE1, CHR 0x9E, CHR 0x8A, CHR 0xE1, CHR 0x9F, CHR 0x84,
             CHR 0xE1, CHR 0x9E, CHR 0x99, CHR 0xE1, CHR 0x9E, CHR 0x9F, CHR 0xE1, CHR 0x9F,
             CHR 0x92, CHR 0xE1, CHR 0x9E, CHR 0x9C, CHR 0xE1, CHR 0x9F, CHR 0x90, CHR 0xE1,
             CHR 0x9E, CHR 0x99, CHR 0xE1, CHR 0x9E, CHR 0x94, CHR 0xE1, CHR 0x9F, CHR 0x92,
             CHR 0xE1, CHR 0x9E, CHR 0x9A, CHR 0xE1, CHR 0x9E, CHR 0x9C, CHR 0xE1, CHR 0x9E,
             CHR 0x8F, CHR 0xE1, CHR 0x9F, CHR 0x92, CHR 0xE1, CHR 0x9E, CHR 0x8F, CHR 0xE1,
             CHR 0x9E, CHR 0xB7]
            @ ''**''
            @ [CHR 0x0A, CHR 0x0A, CHR 0xF0, CHR 0x9F, CHR 0x93, CHR 0x8A]
            @ '' **''
            @ [CHR 0xE1, CHR 0x9E, CHR 0x9F, CHR 0xE1, CHR 0x9E, CHR 0x9A, CHR 0xE1, CHR 0x9E,
             CHR 0xBB, CHR 0xE1, CHR 0x9E, CHR 0x94, CHR 0xE1, CHR 0x9E, CHR 0x85, CHR 0xE1,
             CHR 0x9F, CHR 0x86, CHR 0xE1, CHR 0x9E, CHR 0x8E, CHR 0xE1, CHR 0x9E, CHR 0xBC,
             CHR 0xE1, CHR 0x9E, CHR 0x9B]
            @ '':**''
            @ [CHR 0x0A, CHR 0xE2, CHR 0x80, CHR 0xA2]
            @ '' ''
            @ [CHR 0xE1, CHR 0x9E, CHR 0x98, CHR 0xE1, CHR 0x9E, CHR 0xB7, CHR 0xE1, CHR 0x9E,
             CHR 0x93, CHR 0xE1, CHR 0x9E, CHR 0x98, CHR 0xE1, CHR 0x9E, CHR 0xB6, CHR 0xE1,
             CHR 0x9E, CHR 0x93, CHR 0xE1, CHR 0x9E, CHR 0x94, CHR 0xE1, CHR 0x9F, CHR 0x92,
             CHR 0xE1, CHR 0x9E, CHR 0x9A, CHR 0xE1, CHR 0x9E, CHR 0x8F, CHR 0xE1, CHR 0x9E,
             CHR 0xB7, CHR 0xE1, CHR 0x9E, CHR 0x94, CHR 0xE1, CHR 0x9E, CHR 0x8F, CHR 0xE1,
             CHR 0x9F, CHR 0x92, CHR 0xE1, CHR 0x9E, CHR 0x8F, CHR 0xE1, CHR 0x9E, CHR 0xB7,
             CHR 0xE1, CHR 0x9E, CHR 0x80, CHR 0xE1, CHR 0x9E, CHR 0xB6, CHR 0xE1, CHR 0x9E,
             CHR 0x9A, CHR 0x0A, CHR 0x0A, CHR 0xE2, CHR 0x9A, CHR 0xA1]
            @ '' ''
            @ [CHR 0xE1, CHR 0x9E, CHR 0x94, CHR 0xE1, CHR 0x9E, CHR 0xB7, CHR 0xE1, CHR 0x9E,
             CHR 0x91, CHR 0xE1, CHR 0x9E, CHR 0x8A, CHR 0xE1, CHR 0x9F, CHR 0x84, CHR 0xE1,
             CHR 0x9E, CHR 0x99]
            @ '': ''
            @ [CHR 0xE1, CHR 0x9E, CHR 0x80, CHR 0xE1, CHR 0x9E, CHR 0xB6, CHR 0xE1, CHR 0x9E,
             CHR 0x9A, CHR 0xE1, CHR 0x9E, CHR 0x80, CHR 0xE1, CHR 0x9F, CHR 0x86, CHR 0xE1,
             CHR 0x9E, CHR 0x8E, CHR 0xE1, CHR 0x9E, CHR 0x8F, CHR 0xE1, CHR 0x9F, CHR 0x8B,
             CHR 0xE1, CHR 0x9E, CHR 0x96, CHR 0xE1, CHR 0x9F, CHR 0x81, CHR 0xE1, CHR 0x9E,
             CHR 0x9B, CHR 0xE1, CHR 0x9E, CHR 0x9C, CHR 0xE1, CHR 0x9F, CHR 0x81, CHR 0xE1,
             CHR 0x9E, CHR 0x9B, CHR 0xE1, CHR 0x9E, CHR 0xB6, CHR 0xE1, CHR 0x9E, CHR 0x9F,
             CHR 0xE1, CHR 0x9F, CHR 0x92, CHR 0xE1, CHR 0x9E, CHR 0x9C, CHR 0xE1, CHR 0x9F,
             CHR 0x90, CHR 0xE1, CHR 0x9E, CHR 0x99, CHR 0xE1, CHR 0x9E, CHR 0x94, CHR 0xE1,
             CHR 0x9F, CHR 0x92, CHR 0xE1, CHR 0x9E, CHR 0x9A, CHR 0xE1, CHR 0x9E, CHR 0x9C,
             CHR 0xE1, CHR 0x9E, CHR 0x8F, CHR 0xE1, CHR 0x9F, CHR 0x92, CHR 0xE1, CHR 0x9E,
             CHR 0x8F, CHR 0xE1, CHR 0x9E, CHR 0xB7])"
proof -
  have line: "currency_line currency a n
      = bullet @ '' '' @ currency @ a @ '' ('' @ str_int n @ '' transactions)''"
    for currency a n
    by (simp add: currency_line_def currency_symbol_def fstr_def)
  show ?thesis
  proof (cases "0 < transaction_count summary")
    case True
    then show ?thesis
      by (simp add: format_message_def currency_details_total strip_with_transactions line
          message_constants)
  next
    case False
    then show ?thesis
      by (simp add: format_message_def strip_without_transactions message_constants)
  qed
qed

lemma str_int_examples: "str_int 7 = ''7''" "str_int 12 = ''12''"
  by (simp_all add: str_int_def str_nat.simps digit_def)

text \<open>
  The summary of section 8 of the spec, for shift number 7: three transactions, 45.5 in
  two of them in dollars and 1000 in one of them in riel. And the same summary with no
  transaction, for shift number 12.
\<close>

theorem format_message_contents_example:
  "format_message (format_2f example_scheduler) 7 example_summary =
     Inr ([CHR 0xF0, CHR 0x9F, CHR 0x94, CHR 0x92]
          @ '' **''
          @ [CHR 0xE1, CHR 0x9E, CHR 0x9C, CHR 0xE1, CHR 0x9F, CHR 0x81, CHR 0xE1, CHR 0x9E,
           CHR 0x93]
          @ '' #7 ''
          @ [CHR 0xE1, CHR 0x9E, CHR 0x94, CHR 0xE1, CHR 0x9E, CHR 0xB6, CHR 0xE1, CHR 0x9E,
           CHR 0x93, CHR 0xE1, CHR 0x9E, CHR 0x94, CHR 0xE1, CHR 0x9E, CHR 0xB7, CHR 0xE1,
           CHR 0x9E, CHR 0x91, CHR 0xE1, CHR 0x9E, CHR 0x8A, CHR 0xE1, CHR 0x9F, CHR 0x84,
           CHR 0xE1, CHR 0x9E, CHR 0x99, CHR 0xE1, CHR 0x9E, CHR 0x9F, CHR 0xE1, CHR 0x9F,
           CHR 0x92, CHR 0xE1, CHR 0x9E, CHR 0x9C, CHR 0xE1, CHR 0x9F, CHR 0x90, CHR 0xE1,
           CHR 0x9E, CHR 0x99, CHR 0xE1, CHR 0x9E, CHR 0x94, CHR 0xE1, CHR 0x9F, CHR 0x92,
           CHR 0xE1, CHR 0x9E, CHR 0x9A, CHR 0xE1, CHR 0x9E, CHR 0x9C, CHR 0xE1, CHR 0x9E,
           CHR 0x8F, CHR 0xE1, CHR 0x9F, CHR 0x92, CHR 0xE1, CHR 0x9E, CHR 0x8F, CHR 0xE1,
           CHR 0x9E, CHR 0xB7]
          @ ''**''
          @ [CHR 0x0A, CHR 0x0A, CHR 0xF0, CHR 0x9F, CHR 0x93, CHR 0x8A]
          @ '' **''
          @ [CHR 0xE1, CHR 0x9E, CHR 0x9F, CHR 0xE1, CHR 0x9E, CHR 0x9A, CHR 0xE1, CHR 0x9E,
           CHR 0xBB, CHR 0xE1, CHR 0x9E, CHR 0x94, CHR 0xE1, CHR 0x9E, CHR 0x85, CHR 0xE1,
           CHR 0x9F, CHR 0x86, CHR 0xE1, CHR 0x9E, CHR 0x8E, CHR 0xE1, CHR 0x9E, CHR 0xBC,
           CHR 0xE1, CHR 0x9E, CHR 0x9B]
          @ '':**''
          @ [CHR 0x0A, CHR 0xE2, CHR 0x80, CHR 0xA2]
          @ '' $45.50 (2 transactions)''
          @ [CHR 0x0A, CHR 0xE2, CHR 0x80, CHR 0xA2]
          @ '' ''
          @ [CHR 0xE1, CHR 0x9F, CHR 0x9B]
          @ ''1,000.00 (1 transactions)''
          @ [CHR 0x0A, CHR 0x0A, CHR 0xF0, CHR 0x9F, CHR 0x93, CHR 0x9D]
          @ '' **''
          @ [CHR 0xE1, CHR 0x9E, CHR 0x96, CHR 0xE1, CHR 0x9F, CHR 0x90, CHR 0xE1, CHR 0x9E,
           CHR 0x8F, CHR 0xE1, CHR 0x9F, CHR 0x8C, CHR 0xE1, CHR 0x9E, CHR 0x98, CHR 0xE1,
           CHR 0x9E, CHR 0xB6, CHR 0xE1, CHR 0x9E, CHR 0x93, CHR 0xE1, CHR 0x9E, CHR 0x9B,
           CHR 0xE1, CHR 0x9E, CHR 0x98, CHR 0xE1, CHR 0x9F, CHR 0x92, CHR 0xE1, CHR 0x9E,
           CHR 0xA2, CHR 0xE1, CHR 0x9E, CHR 0xB7, CHR 0xE1, CHR 0x9E, CHR 0x8F]
          @ '':**''
          @ [CHR 0x0A, CHR 0xE2, CHR 0x80, CHR 0xA2]
          @ '' ''
          @ [CHR 0xE1, CHR 0x9E, CHR 0x85, CHR 0xE1, CHR 0x9F, CHR 0x86, CHR 0xE1, CHR 0x9E,
           CHR 0x93, CHR 0xE1, CHR 0x9E, CHR 0xBD, CHR 0xE1, CHR 0x9E, CHR 0x93, CHR 0xE1,
           CHR 0x9E, CHR 0x94, CHR 0xE1, CHR 0x9F, CHR 0x92, CHR 0xE1, CHR 0x9E, CHR 0x9A,
           CHR 0xE1, CHR 0x9E, CHR 0x8F, CHR 0xE1, CHR 0x9E, CHR 0xB7, CHR 0xE1, CHR 0x9E,
           CHR 0x94, CHR 0xE1, CHR 0x9E, CHR 0x8F, CHR 0xE1, CHR 0x9F, CHR 0x92, CHR 0xE1,
           CHR 0x9E, CHR 0x8F, CHR 0xE1, CHR 0x9E, CHR 0xB7, CHR 0xE1, CHR 0x9E, CHR 0x80,
           CHR 0xE1, CHR 0x9E, CHR 0xB6, CHR 0xE1, CHR 0x9E, CHR 0x9A, CHR 0xE1, CHR 0x9E,
           CHR 0x9F, CHR 0xE1, CHR 0x9E, CHR 0x9A, CHR 0xE1, CHR 0x9E, CHR 0xBB, CHR 0xE1,
           CHR 0x9E, CHR 0x94]
          @ '': 3''
          @ [CHR 0x0A, CHR 0xE2, CHR 0x80, CHR 0xA2]
          @ '' ''
          @ [CHR 0xE1, CHR 0x9E, CHR 0x8F, CHR 0xE1, CHR 0x9E, CHR 0x98, CHR 0xE1, CHR 0x9F,
           CHR 0x92, CHR 0xE1, CHR 0x9E, CHR 0x9B, CHR 0xE1, CHR 0x9F, CHR 0x83, CHR 0xE1,
           CHR 0x9E, CHR 0x9F, CHR 0xE1, CHR 0x9E, CHR 0x9A, CHR 0xE1, CHR 0x9E, CHR 0xBB,
           CHR 0xE1, CHR 0x9E, CHR 0x94]
          @ '': 1,045.50''
          @ [CHR 0x0A, CHR 0x0A, CHR 0xE2, CHR 0x9A, CHR 0xA1]
          @ '' ''
          @ [CHR 0xE1, CHR 0x9E, CHR 0x94, CHR 0xE1, CHR 0x9E, CHR 0xB7, CHR 0xE1, CHR 0x9E,
           CHR 0x91, CHR 0xE1, CHR 0x9E, CHR 0x8A, CHR 0xE1, CHR 0x9F, CHR 0x84, CHR 0xE1,
           CHR 0x9E, CHR 0x99]
          @ '': ''
          @ [CHR 0xE1, CHR 0x9E, CHR 0x80, CHR 0xE1, CHR 0x9E, CHR 0xB6, CHR 0xE1, CHR 0x9E,
           CHR 0x9A, CHR 0xE1, CHR 0x9E, CHR 0x80, CHR 0xE1, CHR 0x9F, CHR 0x86, CHR 0xE1,
           CHR 0x9E, CHR 0x8E, CHR 0xE1, CHR 0x9E, CHR 0x8F, CHR 0xE1, CHR 0x9F, CHR 0x8B,
           CHR 0xE1, CHR 0x9E, CHR 0x96, CHR 0xE1, CHR 0x9F, CHR 0x81, CHR 0xE1, CHR 0x9E,
           CHR 0x9B, CHR 0xE1, CHR 0x9E, CHR 0x9C, CHR 0xE1, CHR 0x9F, CHR 0x81, CHR 0xE1,
           CHR 0x9E, CHR 0x9B, CHR 0xE1, CHR 0x9E, CHR 0xB6, CHR 0xE1, CHR 0x9E, CHR 0x9F,
           CHR 0xE1, CHR 0x9F, CHR 0x92, CHR 0xE1, CHR 0x9E, CHR 0x9C, CHR 0xE1, CHR 0x9F,
           CHR 0x90, CHR 0xE1, CHR 0x9E, CHR 0x99, CHR 0xE1, CHR 0x9E, CHR 0x94, CHR 0xE1,
           CHR 0x9F, CHR 0x92, CHR 0xE1, CHR 0x9E, CHR 0x9A, CHR 0xE1, CHR 0x9E, CHR 0x9C,
           CHR 0xE1, CHR 0x9E, CHR 0x8F, CHR 0xE1, CHR 0x9F, CHR 0x92, CHR 0xE1, CHR 0x9E,
           CHR 0x8F, CHR 0xE1, CHR 0x9E, CHR 0xB7])
   \<and> format_message (format_2f example_scheduler) 12 (example_summary\<lparr>transaction_count := 0\<rparr>) =
     Inr ([CHR 0xF0, CHR 0x9F, CHR 0x94, CHR 0x92]
          @ '' **''
          @ [CHR 0xE1, CHR 0x9E, CHR 0x9C, CHR 0xE1, CHR 0x9F, CHR 0x81, CHR 0xE1, CHR 0x9E,
           CHR 0x93]
          @ '' #12 ''
          @ [CHR 0xE1, CHR 0x9E, CHR 0x94, CHR 0xE1, CHR 0x9E, CHR 0xB6, CHR 0xE1, CHR 0x9E,
           CHR 0x93, CHR 0xE1, CHR 0x9E, CHR 0x94, CHR 0xE1, CHR 0x9E, CHR 0xB7, CHR 0xE1,
           CHR 0x9E, CHR 0x91, CHR 0xE1, CHR 0x9E, CHR 0x8A, CHR 0xE1, CHR 0x9F, CHR 0x84,
           CHR 0xE1, CHR 0x9E, CHR 0x99, CHR 0xE1, CHR 0x9E, CHR 0x9F, CHR 0xE1, CHR 0x9F,
           CHR 0x92, CHR 0xE1, CHR 0x9E, CHR 0x9C, CHR 0xE1, CHR 0x9F, CHR 0x90, CHR 0xE1,
           CHR 0x9E, CHR 0x99, CHR 0xE1, CHR 0x9E, CHR 0x94, CHR 0xE1, CHR 0x9F, CHR 0x92,
           CHR 0xE1, CHR 0x9E, CHR 0x9A, CHR 0xE1, CHR 0x9E, CHR 0x9C, CHR 0xE1, CHR 0x9E,
           CHR 0x8F, CHR 0xE1, CHR 0x9F, CHR 0x92, CHR 0xE1, CHR 0x9E, CHR 0x8F, CHR 0xE1,
           CHR 0x9E, CHR 0xB7]
          @ ''**''
          @ [CHR 0x0A, CHR 0x0A, CHR 0xF0, CHR 0x9F, CHR 0x93, CHR 0x8A]
          @ '' **''
          @ [CHR 0xE1, CHR 0x9E, CHR 0x9F, CHR 0xE1, CHR 0x9E, CHR 0x9A, CHR 0xE1, CHR 0x9E,
           CHR 0xBB, CHR 0xE1, CHR 0x9E, CHR 0x94, CHR 0xE1, CHR 0x9E, CHR 0x85, CHR 0xE1,
           CHR 0x9F, CHR 0x86, CHR 0xE1, CHR 0x9E, CHR 0x8E, CHR 0xE1, CHR 0x9E, CHR 0xBC,
           CHR 0xE1, CHR 0x9E, CHR 0x9B]
          @ '':**''
          @ [CHR 0x0A, CHR 0xE2, CHR 0x80, CHR 0xA2]
          @ '' ''
          @ [CHR 0xE1, CHR 0x9E, CHR 0x98, CHR 0xE1, CHR 0x9E, CHR 0xB7, CHR 0xE1, CHR 0x9E,
           CHR 0x93, CHR 0xE1, CHR 0x9E, CHR 0x98, CHR 0xE1, CHR 0x9E, CHR 0xB6, CHR 0xE1,
           CHR 0x9E, CHR 0x93, CHR 0xE1, CHR 0x9E, CHR 0x94, CHR 0xE1, CHR 0x9F, CHR 0x92,
           CHR 0xE1, CHR 0x9E, CHR 0x9A, CHR 0xE1, CHR 0x9E, CHR 0x8F, CHR 0xE1, CHR 0x9E,
           CHR 0xB7, CHR 0xE1, CHR 0x9E, CHR 0x94, CHR 0xE1, CHR 0x9E, CHR 0x8F, CHR 0xE1,
           CHR 0x9F, CHR 0x92, CHR 0xE1, CHR 0x9E, CHR 0x8F, CHR 0xE1, CHR 0x9E, CHR 0xB7,
           CHR 0xE1, CHR 0x9E, CHR 0x80, CHR 0xE1, CHR 0x9E, CHR 0xB6, CHR 0xE1, CHR 0x9E,
           CHR 0x9A, CHR 0x0A, CHR 0x0A, CHR 0xE2, CHR 0x9A, CHR 0xA1]
          @ '' ''
          @ [CHR 0xE1, CHR 0x9E, CHR 0x94, CHR 0xE1, CHR 0x9E, CHR 0xB7, CHR 0xE1, CHR 0x9E,
           CHR 0x91, CHR 0xE1, CHR 0x9E, CHR 0x8A, CHR 0xE1, CHR 0x9F, CHR 0x84, CHR 0xE1,
           CHR 0x9E, CHR 0x99]
          @ '': ''
          @ [CHR 0xE1, CHR 0x9E, CHR 0x80, CHR 0xE1, CHR 0x9E, CHR 0xB6, CHR 0xE1, CHR 0x9E,
           CHR 0x9A, CHR 0xE1, CHR 0x9E, CHR 0x80, CHR 0xE1, CHR 0x9F, CHR 0x86, CHR 0xE1,
           CHR 0x9E, CHR 0x8E, CHR 0xE1, CHR 0x9E, CHR 0x8F, CHR 0xE1, CHR 0x9F, CHR 0x8B,
           CHR 0xE1, CHR 0x9E, CHR 0x96, CHR 0xE1, CHR 0x9F, CHR 0x81, CHR 0xE1, CHR 0x9E,
           CHR 0x9B, CHR 0xE1, CHR 0x9E, CHR 0x9C, CHR 0xE1, CHR 0x9F, CHR 0x81, CHR 0xE1,
           CHR 0x9E, CHR 0x9B, CHR 0xE1, CHR 0x9E, CHR 0xB6, CHR 0xE1, CHR 0x9E, CHR 0x9F,
           CHR 0xE1, CHR 0x9F, CHR 0x92, CHR 0xE1, CHR 0x9E, CHR 0x9C, CHR 0xE1, CHR 0x9F,
           CHR 0x90, CHR 0xE1, CHR 0x9E, CHR 0x99, CHR 0xE1, CHR 0x9E, CHR 0x94, CHR 0xE1,
           CHR 0x9F, CHR 0x92, CHR 0xE1, CHR 0x9E, CHR 0x9A, CHR 0xE1, CHR 0x9E, CHR 0x9C,
           CHR 0xE1, CHR 0x9E, CHR 0x8F, CHR 0xE1, CHR 0x9F, CHR 0x92, CHR 0xE1, CHR 0x9E,
           CHR 0x8F, CHR 0xE1, CHR 0x9E, CHR 0xB7])"
  using format_message_contents [of format_comma_2f 7 example_summary]
    format_message_contents [of format_comma_2f 12 "example_summary\<lparr>transaction_count := 0\<rparr>"]
  by (simp add: example_scheduler_def example_summary_def str_int_digits str_int_examples
      format_comma_2f_examples riel_def)

subsection \<open>The world after each operation\<close>

lemma force_log_fields [simp]:
  "is_running (force_log m w) = is_running w"
  "logged (force_log m w) = logged w @ [m]"
  "calls (force_log m w) = calls w"
  "store (force_log m w) = store w"
  "outside (force_log m w) = outside w"
  by (simp_all add: force_log_def)

lemma called_fields [simp]:
  "is_running (called c w) = is_running w"
  "logged (called c w) = logged w"
  "calls (called c w) = calls w @ [c]"
  "store (called c w) = store w"
  "outside (called c w) = outside w"
  by (simp_all add: called_def)

lemma resumed_fields [simp]:
  "is_running (resumed S w) = (is_running w \<and> \<not> fst (stop_requested S (outside w)))"
  "logged (resumed S w)
     = logged w @ (if fst (stop_requested S (outside w)) then [Log_stopped] else [])"
  "calls (resumed S w) = calls w"
  "store (resumed S w) = store w"
  "outside (resumed S w) = snd (stop_requested S (outside w))"
  by (simp_all add: resumed_def stop_scheduler_def logging_def split: prod.splits)

lemma bindE_eq:
  "bindE m f w = (case fst (m w) of Inl e \<Rightarrow> (Inl e, snd (m w)) | Inr v \<Rightarrow> f v (snd (m w)))"
  by (simp add: bindE_def split: prod.splits sum.splits)

lemma except_Exception_eq:
  "except_Exception r handler =
     (case fst r of
        Inl e \<Rightarrow> if isinstance_Exception e then handler e (snd r) else r
      | Inr v \<Rightarrow> r)"
  by (simp add: except_Exception_def split: prod.splits sum.splits)

lemma lift_eq [simp]: "fst (lift r w) = r" "snd (lift r w) = w"
  by (simp_all add: lift_def)

lemma logging_eq [simp]: "fst (logging m w) = Inr ()" "snd (logging m w) = force_log m w"
  by (simp_all add: logging_def)

lemma await_get_shift_income_summary_eq [simp]:
  "fst (await_get_shift_income_summary S i c w) = get_shift_income_summary S i c (store w)"
  "snd (await_get_shift_income_summary S i c w) = resumed S (called (Call_summary i c) w)"
  by (simp_all add: await_get_shift_income_summary_def)

lemma await_send_message_eq:
  "fst (await_send_message S c m w) =
     (case bot_service S of
        None \<Rightarrow> Inl (AttributeError ''send_message'')
      | Some send_message \<Rightarrow> fst (send_message c m (outside w)))"
  "snd (await_send_message S c m w) =
     (case bot_service S of
        None \<Rightarrow> w
      | Some send_message \<Rightarrow>
          resumed S ((called (Call_send c m) w)\<lparr>outside := snd (send_message c m (outside w))\<rparr>))"
  by (simp_all add: await_send_message_def split: option.splits prod.splits)

lemma await_check_and_auto_close_shifts_eq [simp]:
  "fst (await_check_and_auto_close_shifts S w) = fst (check_and_auto_close_shifts S (store w))"
  "snd (await_check_and_auto_close_shifts S w) =
     resumed S ((called Call_close w)\<lparr>store := snd (check_and_auto_close_shifts S (store w))\<rparr>)"
  by (simp_all add: await_check_and_auto_close_shifts_def split: prod.splits)

lemma await_sleep_eq [simp]:
  "fst (await_sleep S n w) = fst (asyncio_sleep S n (outside w))"
  "snd (await_sleep S n w) =
     resumed S ((called (Call_sleep n) w)\<lparr>outside := snd (asyncio_sleep S n (outside w))\<rparr>)"
  by (simp_all add: await_sleep_def split: prod.splits)

subsection \<open>\<open>_send_shift_summary\<close>\<close>

lemmas send_shift_summary_unfold =
  send_shift_summary_def send_shift_summary_try_def send_shift_summary_except_def
  bindE_eq except_Exception_eq await_send_message_eq getitem_def

lemma send_shift_summary_store:
  "store (snd (send_shift_summary S shift w)) = store w"
  by (simp add: send_shift_summary_unfold split: option.splits sum.splits)

lemma send_shift_summary_is_running:
  "is_running (snd (send_shift_summary S shift w)) \<Longrightarrow> is_running w"
  by (simp add: send_shift_summary_unfold split: option.splits sum.splits if_splits)

lemma currency_details_raises:
  "currency_details fmt cs = Inl e \<Longrightarrow> \<exists>x. fmt x = Inl e"
  by (induction cs) (auto split: sum.splits)

lemma format_message_raises:
  "format_message fmt n summary = Inl e \<Longrightarrow> \<exists>x. fmt x = Inl e"
  by (auto simp add: format_message_def split: if_splits sum.splits
      dest: currency_details_raises)

lemma raises_only_ExceptionD:
  "raises_only_Exception r \<Longrightarrow> r = Inl e \<Longrightarrow> isinstance_Exception e"
  by (simp add: raises_only_Exception_def)

lemma send_shift_summary_returns:
  assumes "notifying_raises_only_Exception S"
  shows "fst (send_shift_summary S shift w) = Inr ()"
proof -
  have summary: "get_shift_income_summary S i c s = Inl e \<Longrightarrow> isinstance_Exception e"
    for i c s e
    using assms raises_only_ExceptionD
    unfolding notifying_raises_only_Exception_def by blast
  have "format_2f S x = Inl e \<Longrightarrow> isinstance_Exception e" for x e
    using assms raises_only_ExceptionD
    unfolding notifying_raises_only_Exception_def by blast
  then have format: "format_message (format_2f S) n sm = Inl e \<Longrightarrow> isinstance_Exception e"
    for n sm e
    using format_message_raises by blast
  have send: "bot_service S = Some f \<Longrightarrow> fst (f c m k) = Inl e \<Longrightarrow> isinstance_Exception e"
    for f c m k e
    using assms raises_only_ExceptionD
    unfolding notifying_raises_only_Exception_def by blast
  show ?thesis
    by (simp add: send_shift_summary_unfold summary format send
        split: option.splits sum.splits)
qed

lemma send_shift_summary_calls:
  "\<exists>cs. calls (snd (send_shift_summary S shift w)) = calls w @ Call_notify shift # cs
     \<and> list_all is_fetch_or_send cs
     \<and> length (filter (is_send_to chat_id) cs)
         \<le> (if shift ''chat_id'' = Some chat_id then 1 else 0)"
  by (simp add: send_shift_summary_unfold is_fetch_or_send_def is_send_to_def
      split: option.splits sum.splits)

lemma fetch_or_send_not_notify: "list_all is_fetch_or_send cs \<Longrightarrow> filter is_notify cs = []"
  by (induction cs) (auto simp add: is_fetch_or_send_def is_notify_def split: call.splits)

lemma send_shift_summary_notify:
  "filter is_notify (calls (snd (send_shift_summary S shift w)))
     = filter is_notify (calls w) @ [Call_notify shift]"
proof -
  obtain cs where "calls (snd (send_shift_summary S shift w)) = calls w @ Call_notify shift # cs"
    and "list_all is_fetch_or_send cs"
    using send_shift_summary_calls [of S shift w] by blast
  then show ?thesis
    by (simp add: fetch_or_send_not_notify is_notify_def)
qed

lemma send_shift_summary_sends:
  "length (filter (is_send_to chat_id) (calls (snd (send_shift_summary S shift w))))
     \<le> length (filter (is_send_to chat_id) (calls w))
         + (if shift ''chat_id'' = Some chat_id then 1 else 0)"
proof -
  obtain cs where "calls (snd (send_shift_summary S shift w)) = calls w @ Call_notify shift # cs"
    and "length (filter (is_send_to chat_id) cs)
         \<le> (if shift ''chat_id'' = Some chat_id then 1 else 0)"
    using send_shift_summary_calls [of S shift w chat_id] by blast
  then show ?thesis
    by (simp add: is_send_to_def)
qed

subsection \<open>The loop over the closed shifts\<close>

lemmas closed_shift_step_unfold = closed_shift_step_def bindE_eq getitem_def

lemma closed_shift_step_store:
  "store (snd (closed_shift_step S shift w)) = store w"
  by (simp add: closed_shift_step_unfold send_shift_summary_store
      split: option.splits sum.splits)

lemma closed_shift_step_is_running:
  "is_running (snd (closed_shift_step S shift w)) \<Longrightarrow> is_running w"
  by (auto simp add: closed_shift_step_unfold
      split: option.splits sum.splits if_splits dest: send_shift_summary_is_running)

lemma closed_shift_step_sends:
  "length (filter (is_send_to chat_id) (calls (snd (closed_shift_step S shift w))))
     \<le> length (filter (is_send_to chat_id) (calls w))
         + (if shift ''chat_id'' = Some chat_id then 1 else 0)"
  using send_shift_summary_sends [of chat_id S shift "force_log m w" for m]
  by (auto simp add: closed_shift_step_unfold split: option.splits sum.splits)

lemma closed_shift_step_calls:
  "\<exists>cs. calls (snd (closed_shift_step S shift w)) = calls w @ cs"
  using send_shift_summary_calls [of S shift "force_log m w" for m]
  by (auto simp add: closed_shift_step_unfold split: option.splits sum.splits)

lemma closed_shift_step_raises:
  "notifying_raises_only_Exception S \<Longrightarrow> raises_only_Exception (fst (closed_shift_step S shift w))"
  by (simp add: closed_shift_step_unfold send_shift_summary_returns raises_only_Exception_def
      split: option.splits sum.splits)

lemma closed_shift_step_notifies:
  assumes "bot_service S \<noteq> None" and "notifying_raises_only_Exception S"
    and "closed_shift_record shift"
  shows "fst (closed_shift_step S shift w) = Inr ()"
    and "filter is_notify (calls (snd (closed_shift_step S shift w)))
           = filter is_notify (calls w) @ [Call_notify shift]"
  using assms
  by (auto simp add: closed_shift_step_unfold closed_shift_record_def
      send_shift_summary_returns send_shift_summary_notify)

lemma closed_shift_step_without_bot:
  assumes "bot_service S = None"
  shows "calls (snd (closed_shift_step S shift w)) = calls w"
    and "shift ''id'' = Some i \<Longrightarrow> shift ''chat_id'' = Some c \<Longrightarrow>
           fst (closed_shift_step S shift w) = Inr ()
           \<and> logged (snd (closed_shift_step S shift w)) = logged w @ [Log_shift_closed i c]"
  using assms
  by (auto simp add: closed_shift_step_unfold split: option.splits sum.splits)

lemma for_closed_shifts_store:
  "store (snd (for_closed_shifts S shifts w)) = store w"
proof (induction shifts arbitrary: w)
  case Nil
  show ?case by simp
next
  case (Cons shift rest)
  show ?case
    using closed_shift_step_store [of S shift w] Cons.IH
    by (auto split: prod.splits sum.splits)
qed

lemma for_closed_shifts_is_running:
  "is_running (snd (for_closed_shifts S shifts w)) \<Longrightarrow> is_running w"
proof (induction shifts arbitrary: w)
  case Nil
  then show ?case by simp
next
  case (Cons shift rest)
  then show ?case
    using closed_shift_step_is_running [of S shift w]
    by (auto split: prod.splits sum.splits)
qed

lemma for_closed_shifts_calls:
  "\<exists>cs. calls (snd (for_closed_shifts S shifts w)) = calls w @ cs"
proof (induction shifts arbitrary: w)
  case Nil
  show ?case by simp
next
  case (Cons shift rest)
  obtain r w' where step: "closed_shift_step S shift w = (r, w')"
    by (cases "closed_shift_step S shift w")
  obtain cs where cs: "calls w' = calls w @ cs"
    using closed_shift_step_calls [of S shift w] step by auto
  show ?case
  proof (cases r)
    case (Inl e)
    with step cs show ?thesis by simp
  next
    case (Inr u)
    obtain cs' where "calls (snd (for_closed_shifts S rest w')) = calls w' @ cs'"
      using Cons.IH by blast
    with Inr step cs show ?thesis by simp
  qed
qed

lemma for_closed_shifts_sends:
  "length (filter (is_send_to chat_id) (calls (snd (for_closed_shifts S shifts w))))
     \<le> length (filter (is_send_to chat_id) (calls w))
         + length (filter (\<lambda>shift. shift ''chat_id'' = Some chat_id) shifts)"
proof (induction shifts arbitrary: w)
  case Nil
  show ?case by simp
next
  case (Cons shift rest)
  obtain r w' where step: "closed_shift_step S shift w = (r, w')"
    by (cases "closed_shift_step S shift w")
  have 1: "length (filter (is_send_to chat_id) (calls w'))
     \<le> length (filter (is_send_to chat_id) (calls w))
         + (if shift ''chat_id'' = Some chat_id then 1 else 0)"
    using closed_shift_step_sends [of chat_id S shift w] step by simp
  show ?case
  proof (cases r)
    case (Inl e)
    with step 1 show ?thesis by (simp split: if_splits)
  next
    case (Inr u)
    have "length (filter (is_send_to chat_id) (calls (snd (for_closed_shifts S rest w'))))
     \<le> length (filter (is_send_to chat_id) (calls w'))
         + length (filter (\<lambda>shift. shift ''chat_id'' = Some chat_id) rest)"
      using Cons.IH by blast
    with Inr step 1 show ?thesis by (simp split: if_splits)
  qed
qed

lemma for_closed_shifts_raises:
  assumes "notifying_raises_only_Exception S"
  shows "raises_only_Exception (fst (for_closed_shifts S shifts w))"
proof (induction shifts arbitrary: w)
  case Nil
  show ?case by (simp add: raises_only_Exception_def)
next
  case (Cons shift rest)
  obtain r w' where step: "closed_shift_step S shift w = (r, w')"
    by (cases "closed_shift_step S shift w")
  have r: "raises_only_Exception r"
    using closed_shift_step_raises [OF assms, of shift w] step by simp
  show ?case
  proof (cases r)
    case (Inl e)
    with step r show ?thesis by simp
  next
    case (Inr u)
    with step Cons.IH [of w'] show ?thesis by simp
  qed
qed

lemma for_closed_shifts_notifies:
  assumes "bot_service S \<noteq> None" and "notifying_raises_only_Exception S"
  shows "list_all closed_shift_record shifts \<Longrightarrow>
    fst (for_closed_shifts S shifts w) = Inr ()
    \<and> filter is_notify (calls (snd (for_closed_shifts S shifts w)))
         = filter is_notify (calls w) @ map Call_notify shifts"
proof (induction shifts arbitrary: w)
  case Nil
  show ?case by simp
next
  case (Cons shift rest)
  then have shift: "closed_shift_record shift" and rest: "list_all closed_shift_record rest"
    by simp_all
  obtain r w' where step: "closed_shift_step S shift w = (r, w')"
    by (cases "closed_shift_step S shift w")
  have r: "r = Inr ()"
    and w': "filter is_notify (calls w') = filter is_notify (calls w) @ [Call_notify shift]"
    using closed_shift_step_notifies [OF assms shift, of w] step by simp_all
  show ?case
    using Cons.IH [OF rest, of w'] step r w' by simp
qed

lemma for_closed_shifts_without_bot_calls:
  assumes "bot_service S = None"
  shows "calls (snd (for_closed_shifts S shifts w)) = calls w"
proof (induction shifts arbitrary: w)
  case Nil
  show ?case by simp
next
  case (Cons shift rest)
  obtain r w' where step: "closed_shift_step S shift w = (r, w')"
    by (cases "closed_shift_step S shift w")
  have "calls w' = calls w"
    using closed_shift_step_without_bot(1) [OF assms, of shift w] step by simp
  then show ?case
    using step Cons.IH [of w'] by (cases r) simp_all
qed

lemma for_closed_shifts_without_bot_logged:
  assumes "bot_service S = None"
  shows "list_all closed_shift_record shifts \<Longrightarrow>
      fst (for_closed_shifts S shifts w) = Inr ()
      \<and> logged (snd (for_closed_shifts S shifts w)) = logged w @ closure_lines shifts"
proof (induction shifts arbitrary: w)
  case Nil
  show ?case by simp
next
  case (Cons shift rest)
  then have shift: "closed_shift_record shift" and rest: "list_all closed_shift_record rest"
    by simp_all
  obtain r w' where step: "closed_shift_step S shift w = (r, w')"
    by (cases "closed_shift_step S shift w")
  obtain i c where ic: "shift ''id'' = Some i" "shift ''chat_id'' = Some c"
    using shift by (auto simp add: closed_shift_record_def)
  have "r = Inr ()" "logged w' = logged w @ [Log_shift_closed i c]"
    using closed_shift_step_without_bot(2) [OF assms ic, of w] step by simp_all
  then show ?case
    using Cons.IH [OF rest, of w'] step ic by simp
qed

subsection \<open>\<open>check_auto_close_shifts\<close>\<close>

lemma shift_ids_records:
  "list_all closed_shift_record shifts \<Longrightarrow>
     shift_ids shifts = Inr (map (\<lambda>shift. the (shift ''id'')) shifts)"
  by (induction shifts) (auto simp add: getitem_def closed_shift_record_def)

lemma shift_ids_raises: "raises_only_Exception (shift_ids shifts)"
  by (induction shifts)
     (auto simp add: getitem_def raises_only_Exception_def split: option.splits sum.splits)

lemmas report_closed_shifts_unfold = report_closed_shifts_def bindE_eq

lemma report_closed_shifts_store:
  "store (snd (report_closed_shifts S shifts w)) = store w"
  by (simp add: report_closed_shifts_unfold for_closed_shifts_store split: sum.splits)

lemma report_closed_shifts_is_running:
  "is_running (snd (report_closed_shifts S shifts w)) \<Longrightarrow> is_running w"
  by (auto simp add: report_closed_shifts_unfold split: sum.splits if_splits
      dest: for_closed_shifts_is_running)

lemma report_closed_shifts_calls:
  "\<exists>cs. calls (snd (report_closed_shifts S shifts w)) = calls w @ cs"
proof -
  have "\<exists>cs. calls (snd (for_closed_shifts S shifts (force_log m w))) = calls w @ cs" for m
    using for_closed_shifts_calls [of S shifts "force_log m w"] by simp
  then show ?thesis
    by (simp add: report_closed_shifts_unfold split: sum.splits)
qed

lemma report_closed_shifts_raises:
  assumes "notifying_raises_only_Exception S"
  shows "raises_only_Exception (fst (report_closed_shifts S shifts w))"
proof -
  have ids: "shift_ids shifts = Inl e \<Longrightarrow> isinstance_Exception e" for e
    using shift_ids_raises raises_only_ExceptionD by blast
  have loop: "fst (for_closed_shifts S shifts v) = Inl e \<Longrightarrow> isinstance_Exception e" for v e
    using for_closed_shifts_raises [OF assms] raises_only_ExceptionD by blast
  show ?thesis
    using ids loop
    by (auto simp add: report_closed_shifts_unfold raises_only_Exception_def
        split: sum.splits)
qed

lemma report_closed_shifts_notifies:
  assumes "bot_service S \<noteq> None" and "notifying_raises_only_Exception S"
    and "list_all closed_shift_record shifts"
  shows "fst (report_closed_shifts S shifts w) = Inr ()"
    and "filter is_notify (calls (snd (report_closed_shifts S shifts w)))
           = filter is_notify (calls w) @ map Call_notify shifts"
  using shift_ids_records [OF assms(3)] for_closed_shifts_notifies [OF assms]
  by (simp_all add: report_closed_shifts_unfold)

lemma report_closed_shifts_without_bot:
  assumes "bot_service S = None"
  shows "calls (snd (report_closed_shifts S shifts w)) = calls w"
    and "list_all closed_shift_record shifts \<Longrightarrow>
      fst (report_closed_shifts S shifts w) = Inr ()
      \<and> logged (snd (report_closed_shifts S shifts w))
          = logged w @
            (if shifts = [] then [Log_no_shifts]
             else Log_auto_closed (length shifts) (map (\<lambda>shift. the (shift ''id'')) shifts)
                    # closure_lines shifts)"
  using for_closed_shifts_without_bot_calls [OF assms]
    for_closed_shifts_without_bot_logged [OF assms] shift_ids_records
  by (simp_all add: report_closed_shifts_unfold split: sum.splits)

lemmas check_auto_close_shifts_unfold =
  check_auto_close_shifts_def check_auto_close_shifts_try_def
  check_auto_close_shifts_except_def bindE_eq except_Exception_eq

lemma check_auto_close_shifts_is_running:
  "is_running (snd (check_auto_close_shifts S w)) \<Longrightarrow> is_running w"
  by (auto simp add: check_auto_close_shifts_unfold
      split: sum.splits if_splits dest: report_closed_shifts_is_running)

lemma check_auto_close_shifts_calls:
  "\<exists>cs. calls (snd (check_auto_close_shifts S w)) = calls w @ Call_check # Call_close # cs"
proof -
  have "\<exists>cs. calls (snd (report_closed_shifts S shifts v)) = calls w @ Call_check # Call_close # cs"
    if "calls v = calls w @ [Call_check, Call_close]" for shifts v
    using report_closed_shifts_calls [of S shifts v] that by auto
  then show ?thesis
    by (simp add: check_auto_close_shifts_unfold split: sum.splits)
qed

lemma check_auto_close_shifts_returns:
  assumes "closing_raises_only_Exception S" and "notifying_raises_only_Exception S"
  shows "fst (check_auto_close_shifts S w) = Inr ()"
proof -
  have close: "fst (check_and_auto_close_shifts S s) = Inl e \<Longrightarrow> isinstance_Exception e"
    for s e
    using assms(1) raises_only_ExceptionD
    unfolding closing_raises_only_Exception_def by blast
  have report: "fst (report_closed_shifts S shifts v) = Inl e \<Longrightarrow> isinstance_Exception e"
    for shifts v e
    using report_closed_shifts_raises [OF assms(2)] raises_only_ExceptionD by blast
  show ?thesis
    using close report
    by (auto simp add: check_auto_close_shifts_unfold split: sum.splits)
qed

lemma check_auto_close_shifts_notifies:
  assumes "bot_service S \<noteq> None" and "notifying_raises_only_Exception S"
    and "check_and_auto_close_shifts S (store w) = (Inr shifts, s')"
    and "list_all closed_shift_record shifts"
  shows "fst (check_auto_close_shifts S w) = Inr ()"
    and "filter is_notify (calls (snd (check_auto_close_shifts S w)))
           = filter is_notify (calls w) @ map Call_notify shifts"
  using assms(3) report_closed_shifts_notifies [OF assms(1,2,4)]
  by (simp_all add: check_auto_close_shifts_unfold is_notify_def)

subsection \<open>The loop of \<open>start_scheduler\<close>\<close>

lemmas scheduler_iteration_unfold =
  scheduler_iteration_def scheduler_iteration_except_def bindE_eq except_Exception_eq

lemma scheduler_iteration_is_running:
  "is_running (snd (scheduler_iteration S w)) \<Longrightarrow> is_running w"
  by (auto simp add: scheduler_iteration_unfold
      split: sum.splits if_splits dest: check_auto_close_shifts_is_running)

lemma scheduler_iteration_calls:
  "\<exists>cs. calls (snd (scheduler_iteration S w)) = calls w @ Call_check # cs"
proof -
  obtain cs where "calls (snd (check_auto_close_shifts S w)) = calls w @ Call_check # Call_close # cs"
    using check_auto_close_shifts_calls by blast
  then show ?thesis
    by (simp add: scheduler_iteration_unfold split: sum.splits)
qed

lemma scheduler_iteration_returns:
  assumes "closing_raises_only_Exception S" and "notifying_raises_only_Exception S"
    and "sleep_returns S"
  shows "fst (scheduler_iteration S w) = Inr ()"
  using check_auto_close_shifts_returns [OF assms(1,2)] assms(3)
  by (simp add: scheduler_iteration_unfold sleep_returns_def)

lemma scheduler_loop_stopped:
  "\<not> is_running w \<Longrightarrow> scheduler_loop fuel S w = (Some (Inr ()), w)"
  by (cases fuel) simp_all

lemma scheduler_loop_calls:
  "\<exists>cs. calls (snd (scheduler_loop fuel S w)) = calls w @ cs"
proof (induction fuel arbitrary: w)
  case 0
  show ?case by simp
next
  case (Suc fuel)
  obtain r w' where step: "scheduler_iteration S w = (r, w')"
    by (cases "scheduler_iteration S w")
  obtain cs where cs: "calls w' = calls w @ Call_check # cs"
    using scheduler_iteration_calls [of S w] step by auto
  show ?case
  proof (cases r)
    case (Inl e)
    with step cs show ?thesis by simp
  next
    case (Inr u)
    obtain cs' where "calls (snd (scheduler_loop fuel S w')) = calls w' @ cs'"
      using Suc.IH by blast
    with Inr step cs show ?thesis by simp
  qed
qed

lemma scheduler_loop_running_calls:
  assumes "is_running w"
  shows "\<exists>cs. calls (snd (scheduler_loop (Suc fuel) S w)) = calls w @ Call_check # cs"
proof -
  obtain r w' where step: "scheduler_iteration S w = (r, w')"
    by (cases "scheduler_iteration S w")
  obtain cs where cs: "calls w' = calls w @ Call_check # cs"
    using scheduler_iteration_calls [of S w] step by auto
  show ?thesis
  proof (cases r)
    case (Inl e)
    with step cs assms show ?thesis by simp
  next
    case (Inr u)
    obtain cs' where "calls (snd (scheduler_loop fuel S w')) = calls w' @ cs'"
      using scheduler_loop_calls by blast
    with Inr step cs assms show ?thesis by simp
  qed
qed

lemma scheduler_loop_returns:
  assumes "closing_raises_only_Exception S" and "notifying_raises_only_Exception S"
    and "sleep_returns S"
  shows "fst (scheduler_loop fuel S w) \<noteq> Some (Inl e)"
proof (induction fuel arbitrary: w)
  case 0
  show ?case by simp
next
  case (Suc fuel)
  obtain r w' where step: "scheduler_iteration S w = (r, w')"
    by (cases "scheduler_iteration S w")
  have "r = Inr ()"
    using scheduler_iteration_returns [OF assms, of w] step by simp
  with step Suc.IH [of w'] show ?case by simp
qed

subsection \<open>The flag is written and never read inside a cycle\<close>

lemma resumed_same:
  "same_calls_and_state w v \<Longrightarrow> same_calls_and_state (resumed S w) (resumed S v)"
  by (simp add: same_calls_and_state_def)

lemma send_shift_summary_same:
  assumes "same_calls_and_state w v"
  shows "fst (send_shift_summary S shift w) = fst (send_shift_summary S shift v)"
    and "same_calls_and_state (snd (send_shift_summary S shift w))
           (snd (send_shift_summary S shift v))"
  using assms
  by (simp_all add: send_shift_summary_unfold same_calls_and_state_def
      split: option.splits sum.splits)

lemma closed_shift_step_same:
  assumes "same_calls_and_state w v"
  shows "fst (closed_shift_step S shift w) = fst (closed_shift_step S shift v)"
    and "same_calls_and_state (snd (closed_shift_step S shift w))
           (snd (closed_shift_step S shift v))"
proof -
  have "same_calls_and_state (force_log m w) (force_log m v)" for m
    using assms by (simp add: same_calls_and_state_def)
  then show "fst (closed_shift_step S shift w) = fst (closed_shift_step S shift v)"
    and "same_calls_and_state (snd (closed_shift_step S shift w))
           (snd (closed_shift_step S shift v))"
    using assms send_shift_summary_same [of "force_log m w" "force_log m v" S shift for m]
    by (simp_all add: closed_shift_step_unfold split: option.splits sum.splits)
qed

lemma for_closed_shifts_same:
  "same_calls_and_state w v \<Longrightarrow>
     fst (for_closed_shifts S shifts w) = fst (for_closed_shifts S shifts v)
     \<and> same_calls_and_state (snd (for_closed_shifts S shifts w))
           (snd (for_closed_shifts S shifts v))"
proof (induction shifts arbitrary: w v)
  case Nil
  then show ?case by simp
next
  case (Cons shift rest)
  obtain r w' where w: "closed_shift_step S shift w = (r, w')"
    by (cases "closed_shift_step S shift w")
  obtain r' v' where v: "closed_shift_step S shift v = (r', v')"
    by (cases "closed_shift_step S shift v")
  have r: "r' = r" and same: "same_calls_and_state w' v'"
    using closed_shift_step_same [OF Cons.prems, of S shift] w v by simp_all
  show ?case
  proof (cases r)
    case (Inl e)
    with w v r same show ?thesis by simp
  next
    case (Inr u)
    with w v r Cons.IH [OF same] show ?thesis by simp
  qed
qed

lemma report_closed_shifts_same:
  assumes "same_calls_and_state w v"
  shows "fst (report_closed_shifts S shifts w) = fst (report_closed_shifts S shifts v)"
    and "same_calls_and_state (snd (report_closed_shifts S shifts w))
           (snd (report_closed_shifts S shifts v))"
proof -
  have same: "same_calls_and_state (force_log m w) (force_log m v)" for m
    using assms by (simp add: same_calls_and_state_def)
  show "fst (report_closed_shifts S shifts w) = fst (report_closed_shifts S shifts v)"
    and "same_calls_and_state (snd (report_closed_shifts S shifts w))
           (snd (report_closed_shifts S shifts v))"
    using assms same for_closed_shifts_same [OF same, of S shifts]
    by (simp_all add: report_closed_shifts_unfold split: sum.splits)
qed

lemma bindE_same:
  assumes "fst (m w) = fst (m v)" and "same_calls_and_state (snd (m w)) (snd (m v))"
    and "\<And>x a b. same_calls_and_state a b \<Longrightarrow>
           fst (f x a) = fst (f x b) \<and> same_calls_and_state (snd (f x a)) (snd (f x b))"
  shows "fst (bindE m f w) = fst (bindE m f v)
     \<and> same_calls_and_state (snd (bindE m f w)) (snd (bindE m f v))"
  using assms by (cases "fst (m v)") (simp_all add: bindE_eq)

lemma except_Exception_same:
  assumes "fst r = fst r'" and "same_calls_and_state (snd r) (snd r')"
    and "\<And>e a b. same_calls_and_state a b \<Longrightarrow>
           fst (h e a) = fst (h e b) \<and> same_calls_and_state (snd (h e a)) (snd (h e b))"
  shows "fst (except_Exception r h) = fst (except_Exception r' h)
     \<and> same_calls_and_state (snd (except_Exception r h)) (snd (except_Exception r' h))"
  using assms by (cases "fst r'") (simp_all add: except_Exception_eq)

lemma check_auto_close_shifts_except_same:
  "same_calls_and_state a b \<Longrightarrow>
     fst (check_auto_close_shifts_except e a) = fst (check_auto_close_shifts_except e b)
     \<and> same_calls_and_state (snd (check_auto_close_shifts_except e a))
          (snd (check_auto_close_shifts_except e b))"
  by (simp add: check_auto_close_shifts_except_def bindE_eq same_calls_and_state_def)

lemma check_auto_close_shifts_same:
  assumes "same_calls_and_state w v"
  shows "fst (check_auto_close_shifts S w) = fst (check_auto_close_shifts S v)
     \<and> same_calls_and_state (snd (check_auto_close_shifts S w))
           (snd (check_auto_close_shifts S v))"
proof -
  let ?w = "force_log Log_check_starting (called Call_check w)"
  let ?v = "force_log Log_check_starting (called Call_check v)"
  have "fst (check_auto_close_shifts_try S ?w) = fst (check_auto_close_shifts_try S ?v)
     \<and> same_calls_and_state (snd (check_auto_close_shifts_try S ?w))
           (snd (check_auto_close_shifts_try S ?v))"
    unfolding check_auto_close_shifts_try_def
  proof (rule bindE_same)
    show "fst (await_check_and_auto_close_shifts S ?w)
        = fst (await_check_and_auto_close_shifts S ?v)"
      using assms by (simp add: same_calls_and_state_def)
    show "same_calls_and_state (snd (await_check_and_auto_close_shifts S ?w))
        (snd (await_check_and_auto_close_shifts S ?v))"
      using assms by (simp add: same_calls_and_state_def)
    show "fst (report_closed_shifts S x a) = fst (report_closed_shifts S x b)
        \<and> same_calls_and_state (snd (report_closed_shifts S x a))
             (snd (report_closed_shifts S x b))"
      if "same_calls_and_state a b" for x and a b :: "('a, 'b) world"
      using report_closed_shifts_same [OF that] by blast
  qed
  then show ?thesis
    unfolding check_auto_close_shifts_def
    using except_Exception_same check_auto_close_shifts_except_same by blast
qed

subsection \<open>Running the scheduler on the example collaborators\<close>

lemma format_message_total:
  "format_message (\<lambda>x. Inr (txt x)) n summary =
     Inr (strip (if 0 < transaction_count summary then
                   message_with_transactions n
                     (join nl (map (\<lambda>(currency, d).
                        currency_line currency (txt (amount d)) (count d)) (currencies summary)))
                     (transaction_count summary) (txt (total_amount summary))
                 else message_without_transactions n))"
  by (simp add: format_message_def currency_details_total)

lemmas run_simps =
  start_scheduler_def scheduler_iteration_def scheduler_iteration_except_def
  check_auto_close_shifts_def check_auto_close_shifts_try_def check_auto_close_shifts_except_def
  report_closed_shifts_def closed_shift_step_def
  send_shift_summary_def send_shift_summary_try_def send_shift_summary_except_def
  await_check_and_auto_close_shifts_def await_get_shift_income_summary_def
  await_send_message_def await_sleep_def resumed_def stop_scheduler_def
  bindE_def lift_def logging_def except_Exception_def getitem_def
  force_log_def called_def init_def format_message_total
  shift_a_def shift_b_def is_notify_def

lemma run_without_bot:
  "check_auto_close_shifts scheduler_without_bot (init () ()) =
     (Inr (), \<lparr>is_running = False,
        logged = [Log_check_starting, Log_auto_closed 2 [1, 2],
                  Log_shift_closed 1 100, Log_shift_closed 2 200],
        calls = [Call_check, Call_close], store = (), outside = ()\<rparr>)"
  by (simp add: run_simps scheduler_without_bot_def example_scheduler_def)

lemma run_summary_cancelled:
  "check_auto_close_shifts scheduler_summary_cancelled (init () ()) =
     (Inl (BaseExceptionOnly ''CancelledError''), \<lparr>is_running = False,
        logged = [Log_check_starting, Log_auto_closed 2 [1, 2], Log_shift_closed 1 100],
        calls = [Call_check, Call_close, Call_notify shift_a, Call_summary 1 100],
        store = (), outside = ()\<rparr>)"
  by (simp add: run_simps scheduler_summary_cancelled_def example_scheduler_def)

lemma run_close_cancelled:
  "start_scheduler (Suc (Suc 0)) scheduler_close_cancelled (init () ()) =
     (Some (Inl (BaseExceptionOnly ''CancelledError'')), \<lparr>is_running = True,
        logged = [Log_started, Log_check_starting],
        calls = [Call_check, Call_close], store = (), outside = ()\<rparr>)"
  by (simp add: run_simps scheduler_close_cancelled_def example_scheduler_def)

lemma run_summary_fails:
  "for_closed_shifts scheduler_summary_fails [shift_a, shift_b] (init () ()) =
     (Inr (), \<lparr>is_running = False,
        logged = [Log_shift_closed 1 100,
                  Log_summary_error (Some 1) (Exception ''no such shift''),
                  Log_summary_traceback (Exception ''no such shift''),
                  Log_shift_closed 2 200, Log_sent 2 200],
        calls = [Call_notify shift_a, Call_summary 1 100, Call_notify shift_b,
                 Call_summary 2 200,
                 Call_send 200 (strip (message_with_transactions 8
                   (join nl [currency_line ''$'' (format_comma_2f 45.5) 2,
                             currency_line riel (format_comma_2f 1000) 1])
                   3 (format_comma_2f 1045.5)))],
        store = (), outside = ()\<rparr>)"
  by (simp add: run_simps scheduler_summary_fails_def example_scheduler_def example_summary_def)

lemma example_scheduler_raises_only_Exception:
  "notifying_raises_only_Exception example_scheduler"
  "closing_raises_only_Exception example_scheduler"
  "sleep_returns example_scheduler"
  by (simp_all add: notifying_raises_only_Exception_def closing_raises_only_Exception_def
      sleep_returns_def raises_only_Exception_def example_scheduler_def)

lemma example_shifts_are_records: "list_all closed_shift_record [shift_a, shift_b]"
  by (simp add: closed_shift_record_def shift_a_def shift_b_def)

subsection \<open>C1: one notification attempt per closed shift\<close>

text \<open>
  A scheduler that was constructed with \<open>None\<close> for the bot service closes two shifts and
  calls \<open>_send_shift_summary\<close> for neither: line 56 guards the call. And when the task is
  cancelled while it awaits the summary of the first of two shifts, the second is not
  attempted.
\<close>

theorem attempts_differ_from_records:
  "list_all closed_shift_record [shift_a, shift_b]
   \<and> fst (check_and_auto_close_shifts scheduler_without_bot (store (init () ())))
       = Inr [shift_a, shift_b]
   \<and> length (filter is_notify
         (calls (snd (check_auto_close_shifts scheduler_without_bot (init () ())))))
       \<noteq> length [shift_a, shift_b]
   \<and> fst (check_and_auto_close_shifts scheduler_summary_cancelled (store (init () ())))
       = Inr [shift_a, shift_b]
   \<and> length (filter is_notify
         (calls (snd (check_auto_close_shifts scheduler_summary_cancelled (init () ())))))
       \<noteq> length [shift_a, shift_b]"
proof -
  have "fst (check_and_auto_close_shifts scheduler_without_bot (store (init () ())))
     = Inr [shift_a, shift_b]"
    by (simp add: scheduler_without_bot_def example_scheduler_def)
  moreover have "length (filter is_notify
         (calls (snd (check_auto_close_shifts scheduler_without_bot (init () ())))))
       \<noteq> length [shift_a, shift_b]"
    by (simp add: run_without_bot is_notify_def)
  moreover have "fst (check_and_auto_close_shifts scheduler_summary_cancelled (store (init () ())))
     = Inr [shift_a, shift_b]"
    by (simp add: scheduler_summary_cancelled_def example_scheduler_def)
  moreover have "length (filter is_notify
         (calls (snd (check_auto_close_shifts scheduler_summary_cancelled (init () ())))))
       \<noteq> length [shift_a, shift_b]"
    by (simp add: run_summary_cancelled is_notify_def)
  ultimately show ?thesis
    using example_shifts_are_records by blast
qed

text \<open>
  C1, for a scheduler that has a bot service. When the close operation returns a list of
  closed-shift records, and whatever the summary fetch, the format and the send operation
  raise is an instance of \<open>Exception\<close>, the cycle calls \<open>_send_shift_summary\<close> once for
  each record of the list: the number of these calls grows by the length of the list.
\<close>

theorem one_attempt_per_closed_shift:
  assumes "bot_service S \<noteq> None"
    and "notifying_raises_only_Exception S"
    and "check_and_auto_close_shifts S (store w) = (Inr shifts, s')"
    and "list_all closed_shift_record shifts"
  shows "length (filter is_notify (calls (snd (check_auto_close_shifts S w))))
       = length (filter is_notify (calls w)) + length shifts"
  using check_auto_close_shifts_notifies(2) [OF assms] by simp

text \<open>
  The example scheduler closes two shifts and makes two attempts.
\<close>

theorem one_attempt_per_closed_shift_witness:
  "bot_service example_scheduler \<noteq> None
   \<and> notifying_raises_only_Exception example_scheduler
   \<and> check_and_auto_close_shifts example_scheduler (store (init () ()))
       = (Inr [shift_a, shift_b], ())
   \<and> list_all closed_shift_record [shift_a, shift_b]
   \<and> length (filter is_notify
         (calls (snd (check_auto_close_shifts example_scheduler (init () ()))))) = 2"
proof -
  have 1: "bot_service example_scheduler \<noteq> None"
    by (simp add: example_scheduler_def)
  have 2: "check_and_auto_close_shifts example_scheduler (store (init () ()))
       = (Inr [shift_a, shift_b], ())"
    by (simp add: example_scheduler_def)
  show ?thesis
    using one_attempt_per_closed_shift
      [OF 1 example_scheduler_raises_only_Exception(1) 2 example_shifts_are_records]
      1 2 example_scheduler_raises_only_Exception(1) example_shifts_are_records
    by (simp add: init_def)
qed

subsection \<open>C6: a cycle that closes nothing\<close>

text \<open>
  C6. When the close operation returns the empty list, the cycle calls the close
  operation and nothing else (no summary fetch, no send, no \<open>_send_shift_summary\<close>), it
  returns, and the last entry of its log is the message that no shift needed closing.
\<close>

theorem no_shifts_no_notification:
  assumes "check_and_auto_close_shifts S (store w) = (Inr [], s')"
  shows "fst (check_auto_close_shifts S w) = Inr ()
     \<and> calls (snd (check_auto_close_shifts S w)) = calls w @ [Call_check, Call_close]
     \<and> logged (snd (check_auto_close_shifts S w))
         = logged w @ [Log_check_starting]
             @ (if fst (stop_requested S (outside w)) then [Log_stopped] else [])
             @ [Log_no_shifts]"
  using assms by (simp add: check_auto_close_shifts_unfold report_closed_shifts_def)

text \<open>
  A cycle with no overdue shift.
\<close>

theorem no_shifts_no_notification_witness:
  "check_and_auto_close_shifts scheduler_without_shifts (store (init () ())) = (Inr [], ())
   \<and> fst (check_auto_close_shifts scheduler_without_shifts (init () ())) = Inr ()
   \<and> calls (snd (check_auto_close_shifts scheduler_without_shifts (init () ())))
       = [Call_check, Call_close]
   \<and> logged (snd (check_auto_close_shifts scheduler_without_shifts (init () ())))
       = [Log_check_starting, Log_no_shifts]"
proof -
  have 1: "check_and_auto_close_shifts scheduler_without_shifts (store (init () ()))
       = (Inr [], ())"
    by (simp add: scheduler_without_shifts_def example_scheduler_def)
  show ?thesis
    using no_shifts_no_notification [OF 1] 1
    by (simp add: init_def scheduler_without_shifts_def example_scheduler_def)
qed

subsection \<open>C9: a scheduler without a bot service\<close>

text \<open>
  C9. When the scheduler was constructed with \<open>None\<close> for the bot service, a cycle calls
  the close operation and nothing else: no \<open>_send_shift_summary\<close>, no summary fetch, no
  send. When the close operation returns closed-shift records, the cycle returns, the
  store is as the close operation left it, and the log has the line with the number of
  shifts and their ids and one line per closed shift.
\<close>

theorem without_bot_no_notification:
  assumes "bot_service S = None"
  shows "calls (snd (check_auto_close_shifts S w)) = calls w @ [Call_check, Call_close]
     \<and> (check_and_auto_close_shifts S (store w) = (Inr shifts, s')
          \<longrightarrow> list_all closed_shift_record shifts
          \<longrightarrow> fst (check_auto_close_shifts S w) = Inr ()
              \<and> store (snd (check_auto_close_shifts S w)) = s'
              \<and> logged (snd (check_auto_close_shifts S w))
                  = logged w @ [Log_check_starting]
                      @ (if fst (stop_requested S (outside w)) then [Log_stopped] else [])
                      @ (if shifts = [] then [Log_no_shifts]
                         else Log_auto_closed (length shifts)
                                (map (\<lambda>shift. the (shift ''id'')) shifts)
                              # closure_lines shifts))"
proof -
  have calls: "calls (snd (report_closed_shifts S shifts' v)) = calls v" for shifts' v
    using report_closed_shifts_without_bot(1) [OF assms] .
  have 1: "calls (snd (check_auto_close_shifts S w)) = calls w @ [Call_check, Call_close]"
    by (simp add: check_auto_close_shifts_unfold calls split: sum.splits)
  have 2: "fst (check_auto_close_shifts S w) = Inr ()
              \<and> store (snd (check_auto_close_shifts S w)) = s'
              \<and> logged (snd (check_auto_close_shifts S w))
                  = logged w @ [Log_check_starting]
                      @ (if fst (stop_requested S (outside w)) then [Log_stopped] else [])
                      @ (if shifts = [] then [Log_no_shifts]
                         else Log_auto_closed (length shifts)
                                (map (\<lambda>shift. the (shift ''id'')) shifts)
                              # closure_lines shifts)"
    if close: "check_and_auto_close_shifts S (store w) = (Inr shifts, s')"
      and records: "list_all closed_shift_record shifts"
    using close report_closed_shifts_without_bot(2) [OF assms records]
    by (simp add: check_auto_close_shifts_unfold report_closed_shifts_store)
  from 1 2 show ?thesis by blast
qed

text \<open>
  Two shifts are closed and reported in the log; nothing is sent.
\<close>

theorem without_bot_no_notification_witness:
  "bot_service scheduler_without_bot = None
   \<and> check_and_auto_close_shifts scheduler_without_bot (store (init () ()))
       = (Inr [shift_a, shift_b], ())
   \<and> list_all closed_shift_record [shift_a, shift_b]
   \<and> calls (snd (check_auto_close_shifts scheduler_without_bot (init () ())))
       = [Call_check, Call_close]
   \<and> logged (snd (check_auto_close_shifts scheduler_without_bot (init () ())))
       = [Log_check_starting, Log_auto_closed 2 [1, 2],
          Log_shift_closed 1 100, Log_shift_closed 2 200]"
proof -
  have 1: "bot_service scheduler_without_bot = None"
    by (simp add: scheduler_without_bot_def)
  have 2: "check_and_auto_close_shifts scheduler_without_bot (store (init () ()))
       = (Inr [shift_a, shift_b], ())"
    by (simp add: scheduler_without_bot_def example_scheduler_def)
  have 3: "fst (stop_requested scheduler_without_bot k) = False" for k
    by (simp add: scheduler_without_bot_def example_scheduler_def)
  show ?thesis
    using without_bot_no_notification [OF 1, of "init () ()" "[shift_a, shift_b]" "()"]
      1 2 3 example_shifts_are_records
    by (simp add: init_def) (simp add: shift_a_def shift_b_def)
qed

subsection \<open>C8: the notification leaves the store alone\<close>

text \<open>
  C8. Whatever the summary fetch and the send operation do (return, fail, raise),
  \<open>_send_shift_summary\<close> leaves the shift store as it was: after the call that records
  the attempt it only fetches the summary and sends, and it sends at most once, to the
  chat of the shift. So does the loop over the closed shifts: the store is unchanged and
  a chat is sent at most as many messages as shifts of that chat were closed.
\<close>

theorem notification_leaves_store_unchanged:
  "store (snd (send_shift_summary S shift w)) = store w
   \<and> (\<exists>cs. calls (snd (send_shift_summary S shift w)) = calls w @ Call_notify shift # cs
         \<and> list_all is_fetch_or_send cs
         \<and> length (filter (is_send_to chat_id) cs)
             \<le> (if shift ''chat_id'' = Some chat_id then 1 else 0))
   \<and> store (snd (for_closed_shifts S shifts w)) = store w
   \<and> length (filter (is_send_to chat_id) (calls (snd (for_closed_shifts S shifts w))))
       \<le> length (filter (is_send_to chat_id) (calls w))
           + length (filter (\<lambda>shift. shift ''chat_id'' = Some chat_id) shifts)"
  using send_shift_summary_store send_shift_summary_calls for_closed_shifts_store
    for_closed_shifts_sends
  by blast

lemma run_delivery_fails:
  "send_shift_summary scheduler_delivery_fails shift_a (init () ()) =
     (Inr (), \<lparr>is_running = False,
        logged = [Log_send_failed 1 100],
        calls = [Call_notify shift_a, Call_summary 1 100,
                 Call_send 100 (strip (message_with_transactions 7
                   (join nl [currency_line ''$'' (format_comma_2f 45.5) 2,
                             currency_line riel (format_comma_2f 1000) 1])
                   3 (format_comma_2f 1045.5)))],
        store = (), outside = ()\<rparr>)"
  by (simp add: run_simps scheduler_delivery_fails_def example_scheduler_def example_summary_def)

text \<open>
  A delivery that fails is logged; the store is as before and chat 100 is sent one
  message at most.
\<close>

theorem notification_leaves_store_unchanged_witness:
  "logged (snd (send_shift_summary scheduler_delivery_fails shift_a (init () ())))
     = [Log_send_failed 1 100]
   \<and> store (snd (send_shift_summary scheduler_delivery_fails shift_a (init () ())))
       = store (init () ())
   \<and> length (filter (is_send_to 100)
        (calls (snd (for_closed_shifts scheduler_delivery_fails [shift_a, shift_b] (init () ())))))
       \<le> 1"
  using notification_leaves_store_unchanged
    [of scheduler_delivery_fails shift_a "init () ()" 100 "[shift_a, shift_b]"]
  by (simp add: run_delivery_fails) (simp add: init_def shift_a_def shift_b_def)

subsection \<open>What the three handlers do with an exception\<close>

lemma send_shift_summary_handled:
  assumes "send_shift_summary_try S shift (called (Call_notify shift) w) = (Inl e, w')"
  shows "send_shift_summary S shift w =
     (if isinstance_Exception e
      then (Inr (), w'\<lparr>logged := logged w' @ [Log_summary_error (shift ''id'') e,
                                               Log_summary_traceback e]\<rparr>)
      else (Inl e, w'))"
  using assms
  by (simp add: send_shift_summary_def except_Exception_def send_shift_summary_except_def
      bindE_def logging_def force_log_def)

lemma send_shift_summary_leaves:
  "fst (send_shift_summary S shift w) = Inl e \<Longrightarrow> \<not> isinstance_Exception e"
  by (cases "send_shift_summary_try S shift (called (Call_notify shift) w)")
     (auto simp add: send_shift_summary_def except_Exception_def send_shift_summary_except_def
        bindE_def logging_def split: sum.splits if_splits)

lemma check_auto_close_shifts_handled:
  assumes "check_auto_close_shifts_try S (force_log Log_check_starting (called Call_check w))
             = (Inl e, w')"
  shows "check_auto_close_shifts S w =
     (if isinstance_Exception e
      then (Inr (), w'\<lparr>logged := logged w' @ [Log_check_error e, Log_check_traceback e]\<rparr>)
      else (Inl e, w'))"
  using assms
  by (simp add: check_auto_close_shifts_def except_Exception_def
      check_auto_close_shifts_except_def bindE_def logging_def force_log_def)

lemma check_auto_close_shifts_leaves:
  "fst (check_auto_close_shifts S w) = Inl e \<Longrightarrow> \<not> isinstance_Exception e"
  by (cases "check_auto_close_shifts_try S (force_log Log_check_starting (called Call_check w))")
     (auto simp add: check_auto_close_shifts_def except_Exception_def
        check_auto_close_shifts_except_def bindE_def logging_def split: sum.splits if_splits)

lemma scheduler_iteration_handled:
  assumes "bindE (check_auto_close_shifts S) (\<lambda>_. await_sleep S 60) w = (Inl e, w')"
  shows "scheduler_iteration S w =
     (if isinstance_Exception e
      then await_sleep S 60 (force_log (Log_loop_error e) w')
      else (Inl e, w'))"
  using assms
  by (simp add: scheduler_iteration_def except_Exception_def scheduler_iteration_except_def
      bindE_def logging_def)

lemma scheduler_iteration_check_raises:
  assumes "fst (check_auto_close_shifts S w) = Inl e"
  shows "scheduler_iteration S w = check_auto_close_shifts S w"
  using assms check_auto_close_shifts_leaves [OF assms]
  by (cases "check_auto_close_shifts S w")
     (simp add: scheduler_iteration_def except_Exception_def bindE_def)

lemma scheduler_loop_raises:
  assumes "is_running w" and "fst (scheduler_iteration S w) = Inl e"
  shows "scheduler_loop (Suc fuel) S w = (Some (Inl e), snd (scheduler_iteration S w))"
  using assms by (cases "scheduler_iteration S w") simp

subsection \<open>An exception on its way through a cycle\<close>

lemma send_shift_summary_try_fetch_raises:
  assumes "shift ''id'' = Some i" and "shift ''chat_id'' = Some c" and "shift ''number'' = Some n"
    and "get_shift_income_summary S i c (store w) = Inl e"
  shows "send_shift_summary_try S shift (called (Call_notify shift) w)
       = (Inl e, resumed S (called (Call_summary i c) (called (Call_notify shift) w)))"
  using assms
  by (simp add: send_shift_summary_try_def bindE_def lift_def getitem_def
      await_get_shift_income_summary_def)

lemma send_shift_summary_try_format_raises:
  assumes "shift ''id'' = Some i" and "shift ''chat_id'' = Some c" and "shift ''number'' = Some n"
    and "get_shift_income_summary S i c (store w) = Inr summary"
    and "format_message (format_2f S) n summary = Inl e"
  shows "send_shift_summary_try S shift (called (Call_notify shift) w)
       = (Inl e, resumed S (called (Call_summary i c) (called (Call_notify shift) w)))"
  using assms
  by (simp add: send_shift_summary_try_def bindE_def lift_def getitem_def
      await_get_shift_income_summary_def)

lemma send_shift_summary_try_send:
  assumes "shift ''id'' = Some i" and "shift ''chat_id'' = Some c" and "shift ''number'' = Some n"
    and "get_shift_income_summary S i c (store w) = Inr summary"
    and "format_message (format_2f S) n summary = Inr message"
    and "bot_service S = Some send_message"
  shows "send_shift_summary_try S shift (called (Call_notify shift) w) =
     (case send_message c message (snd (stop_requested S (outside w))) of
        (Inl e, k) \<Rightarrow>
          (Inl e, resumed S ((called (Call_send c message)
             (resumed S (called (Call_summary i c) (called (Call_notify shift) w))))
               \<lparr>outside := k\<rparr>))
      | (Inr success, k) \<Rightarrow>
          (Inr (), force_log (if success then Log_sent i c else Log_send_failed i c)
             (resumed S ((called (Call_send c message)
               (resumed S (called (Call_summary i c) (called (Call_notify shift) w))))
                 \<lparr>outside := k\<rparr>))))"
  using assms
  by (simp add: send_shift_summary_try_def bindE_def lift_def getitem_def logging_def
      await_get_shift_income_summary_def await_send_message_def split: prod.splits sum.splits)

lemma closed_shift_step_of_record:
  assumes "shift ''id'' = Some i" and "shift ''chat_id'' = Some c" and "bot_service S \<noteq> None"
  shows "closed_shift_step S shift w
       = send_shift_summary S shift (force_log (Log_shift_closed i c) w)"
  using assms by (simp add: closed_shift_step_def bindE_def lift_def getitem_def logging_def)

lemma for_closed_shifts_append:
  "for_closed_shifts S (xs @ ys) w =
     (case for_closed_shifts S xs w of
        (Inl e, w') \<Rightarrow> (Inl e, w')
      | (Inr u, w') \<Rightarrow> for_closed_shifts S ys w')"
  by (induction xs arbitrary: w) (auto split: prod.splits sum.splits)

lemma for_closed_shifts_stops:
  assumes "for_closed_shifts S before w = (Inr (), w')"
    and "fst (closed_shift_step S shift w') = Inl e"
  shows "for_closed_shifts S (before @ shift # rest) w = closed_shift_step S shift w'"
  using assms
  by (cases "closed_shift_step S shift w'") (simp add: for_closed_shifts_append)

lemma check_auto_close_shifts_try_of_records:
  assumes "check_and_auto_close_shifts S (store w) = (Inr shifts, s')"
    and "list_all closed_shift_record shifts" and "shifts \<noteq> []"
  shows "check_auto_close_shifts_try S (force_log Log_check_starting (called Call_check w))
       = for_closed_shifts S shifts
           (force_log (Log_auto_closed (length shifts) (map (\<lambda>shift. the (shift ''id'')) shifts))
              (resumed S ((called Call_close (force_log Log_check_starting (called Call_check w)))
                 \<lparr>store := s'\<rparr>)))"
  using assms shift_ids_records [OF assms(2)]
  by (simp add: check_auto_close_shifts_try_def bindE_def lift_def logging_def
      await_check_and_auto_close_shifts_def report_closed_shifts_def)

lemma check_auto_close_shifts_try_close_raises:
  assumes "fst (check_and_auto_close_shifts S (store w)) = Inl e"
  shows "check_auto_close_shifts_try S (force_log Log_check_starting (called Call_check w))
       = (Inl e, resumed S ((called Call_close (force_log Log_check_starting (called Call_check w)))
            \<lparr>store := snd (check_and_auto_close_shifts S (store w))\<rparr>))"
  using assms
  by (cases "check_and_auto_close_shifts S (store w)")
     (simp add: check_auto_close_shifts_try_def bindE_def await_check_and_auto_close_shifts_def)

lemma send_shift_summary_try_send_raises:
  assumes "shift ''id'' = Some i" and "shift ''chat_id'' = Some c" and "shift ''number'' = Some n"
    and "get_shift_income_summary S i c (store w) = Inr summary"
    and "format_message (format_2f S) n summary = Inr message"
    and "bot_service S = Some send_message"
    and "fst (send_message c message (snd (stop_requested S (outside w)))) = Inl e"
  shows "fst (send_shift_summary_try S shift (called (Call_notify shift) w)) = Inl e"
  using assms(7) send_shift_summary_try_send [OF assms(1-6)]
  by (cases "send_message c message (snd (stop_requested S (outside w)))") simp

lemma send_shift_summary_delivery:
  assumes "shift ''id'' = Some i" and "shift ''chat_id'' = Some c" and "shift ''number'' = Some n"
    and "get_shift_income_summary S i c (store w) = Inr summary"
    and "format_message (format_2f S) n summary = Inr message"
    and "bot_service S = Some send_message"
    and "fst (send_message c message (snd (stop_requested S (outside w)))) = Inr success"
  shows "fst (send_shift_summary S shift w) = Inr ()"
    and "\<exists>before. logged (snd (send_shift_summary S shift w))
           = before @ [if success then Log_sent i c else Log_send_failed i c]"
  using assms(7) send_shift_summary_try_send [OF assms(1-6)]
  by (cases "send_message c message (snd (stop_requested S (outside w)))";
      simp add: send_shift_summary_def except_Exception_def)+

lemma check_auto_close_shifts_stops:
  assumes "bot_service S \<noteq> None"
    and "check_and_auto_close_shifts S (store w) = (Inr shifts, s')"
    and "list_all closed_shift_record shifts"
    and "shifts = before @ shift # rest"
    and "for_closed_shifts S before (at_line_50 S shifts s' w) = (Inr (), w')"
    and "fst (closed_shift_step S shift w') = Inl e"
  shows "\<not> isinstance_Exception e"
    and "check_auto_close_shifts S w = closed_shift_step S shift w'"
proof -
  have "closed_shift_record shift"
    using assms(3,4) by (simp add: list_all_iff)
  then obtain i c where "shift ''id'' = Some i" and "shift ''chat_id'' = Some c"
    by (auto simp add: closed_shift_record_def)
  then have step: "closed_shift_step S shift w'
      = send_shift_summary S shift (force_log (Log_shift_closed i c) w')"
    using closed_shift_step_of_record assms(1) by blast
  then show no_Exception: "\<not> isinstance_Exception e"
    using assms(6) send_shift_summary_leaves by metis
  have "shifts \<noteq> []"
    using assms(4) by simp
  then have "check_auto_close_shifts_try S (at_line_40 w)
      = for_closed_shifts S shifts (at_line_50 S shifts s' w)"
    using check_auto_close_shifts_try_of_records [OF assms(2,3)] by simp
  also have "\<dots> = closed_shift_step S shift w'"
    using for_closed_shifts_stops [OF assms(5,6), of rest] assms(4) by simp
  finally have "check_auto_close_shifts_try S (at_line_40 w)
      = (Inl e, snd (closed_shift_step S shift w'))"
    using assms(6) by (cases "closed_shift_step S shift w'") simp
  from check_auto_close_shifts_handled [OF this] no_Exception assms(6)
  show "check_auto_close_shifts S w = closed_shift_step S shift w'"
    by (cases "closed_shift_step S shift w'") simp
qed

lemma check_auto_close_shifts_caught:
  assumes "closing_raises_only_Exception S" and "notifying_raises_only_Exception S"
    and "fst (check_auto_close_shifts_try S (force_log Log_check_starting (called Call_check w)))
           = Inl e"
  shows "Log_check_error e \<in> set (logged (snd (check_auto_close_shifts S w)))"
proof -
  have "fst (check_auto_close_shifts S w) = Inr ()"
    using check_auto_close_shifts_returns [OF assms(1,2)] .
  then have "isinstance_Exception e"
    using assms(3) by (simp add: check_auto_close_shifts_def except_Exception_eq split: if_splits)
  then show ?thesis
    using assms(3)
    by (simp add: check_auto_close_shifts_def except_Exception_eq
        check_auto_close_shifts_except_def bindE_eq)
qed

lemma scheduler_iteration_after_caught:
  assumes "check_auto_close_shifts_try S (at_line_40 w) = (Inl e, w')"
    and "isinstance_Exception e"
    and "fst (asyncio_sleep S 60 (outside w')) = Inr ()"
  shows "fst (scheduler_iteration S w) = Inr ()"
    and "logged (snd (scheduler_iteration S w))
         = logged w' @ [Log_check_error e, Log_check_traceback e]
             @ (if fst (stop_requested S (snd (asyncio_sleep S 60 (outside w'))))
                then [Log_stopped] else [])"
    and "calls (snd (scheduler_iteration S w)) = calls w' @ [Call_sleep 60]"
  using check_auto_close_shifts_handled [OF assms(1)] assms(2,3)
  by (simp_all add: scheduler_iteration_unfold)

lemma scheduler_loop_close_raises:
  assumes "is_running w" and "fst (check_and_auto_close_shifts S (store w)) = Inl e"
    and "\<not> isinstance_Exception e"
  shows "scheduler_loop (Suc fuel) S w =
     (Some (Inl e), resumed S ((called Call_close (at_line_40 w))
        \<lparr>store := snd (check_and_auto_close_shifts S (store w))\<rparr>))"
proof -
  have "check_auto_close_shifts S w =
     (Inl e, resumed S ((called Call_close (at_line_40 w))
        \<lparr>store := snd (check_and_auto_close_shifts S (store w))\<rparr>))"
    using check_auto_close_shifts_handled [OF check_auto_close_shifts_try_close_raises [OF assms(2)]]
      assms(3) by simp
  moreover from this have "scheduler_iteration S w = check_auto_close_shifts S w"
    using scheduler_iteration_check_raises [of S w e] by simp
  ultimately show ?thesis
    using scheduler_loop_raises [OF assms(1), of S e fuel] by simp
qed

lemma scheduler_loop_notification_raises:
  assumes "is_running w" and "bot_service S \<noteq> None"
    and "check_and_auto_close_shifts S (store w) = (Inr shifts, s')"
    and "list_all closed_shift_record shifts"
    and "shifts = before @ shift # rest"
    and "for_closed_shifts S before (at_line_50 S shifts s' w) = (Inr (), w')"
    and "fst (closed_shift_step S shift w') = Inl e"
  shows "scheduler_loop (Suc fuel) S w = (Some (Inl e), snd (closed_shift_step S shift w'))"
proof -
  have check: "check_auto_close_shifts S w = closed_shift_step S shift w'"
    using check_auto_close_shifts_stops(2) [OF assms(2-7)] .
  then have "fst (check_auto_close_shifts S w) = Inl e"
    using assms(7) by simp
  then have "scheduler_iteration S w = closed_shift_step S shift w'"
    using scheduler_iteration_check_raises check by metis
  then show ?thesis
    using scheduler_loop_raises [OF assms(1), of S e fuel] assms(7) by simp
qed

subsection \<open>A stop is seen at the next test of the flag\<close>

lemma quiet_step_refl: "quiet_step w w"
  by (simp add: quiet_step_def)

lemma quiet_step_trans:
  assumes "quiet_step a b" and "quiet_step b c"
  shows "quiet_step a c"
proof -
  obtain l cs where 1: "logged b = logged a @ l" "calls b = calls a @ cs"
    "Log_check_starting \<notin> set l" "Call_check \<notin> set cs"
    "Log_stopped \<in> set l \<longrightarrow> \<not> is_running b" "is_running b \<longrightarrow> is_running a"
    using assms(1) unfolding quiet_step_def by blast
  obtain l' cs' where 2: "logged c = logged b @ l'" "calls c = calls b @ cs'"
    "Log_check_starting \<notin> set l'" "Call_check \<notin> set cs'"
    "Log_stopped \<in> set l' \<longrightarrow> \<not> is_running c" "is_running c \<longrightarrow> is_running b"
    using assms(2) unfolding quiet_step_def by blast
  have "logged c = logged a @ (l @ l')" and "calls c = calls a @ (cs @ cs')"
    and "Log_check_starting \<notin> set (l @ l')" and "Call_check \<notin> set (cs @ cs')"
    and "Log_stopped \<in> set (l @ l') \<longrightarrow> \<not> is_running c" and "is_running c \<longrightarrow> is_running a"
    using 1 2 by auto
  then show ?thesis
    unfolding quiet_step_def by blast
qed

lemma send_shift_summary_quiet: "quiet_step w (snd (send_shift_summary S shift w))"
  by (simp add: quiet_step_def send_shift_summary_unfold split: option.splits sum.splits)

lemma closed_shift_step_quiet: "quiet_step w (snd (closed_shift_step S shift w))"
proof -
  have "quiet_step w (force_log (Log_shift_closed i c) w)" for i c
    by (simp add: quiet_step_def)
  moreover from this
  have "quiet_step w (snd (send_shift_summary S shift (force_log (Log_shift_closed i c) w)))"
    for i c
    using send_shift_summary_quiet quiet_step_trans by blast
  ultimately show ?thesis
    by (simp add: closed_shift_step_unfold quiet_step_refl split: option.splits sum.splits)
qed

lemma for_closed_shifts_quiet: "quiet_step w (snd (for_closed_shifts S shifts w))"
proof (induction shifts arbitrary: w)
  case Nil
  show ?case by (simp add: quiet_step_refl)
next
  case (Cons shift rest)
  obtain r w' where step: "closed_shift_step S shift w = (r, w')"
    by (cases "closed_shift_step S shift w")
  have 1: "quiet_step w w'"
    using closed_shift_step_quiet [of w S shift] step by simp
  show ?case
  proof (cases r)
    case (Inl e)
    with step 1 show ?thesis by simp
  next
    case (Inr u)
    with step 1 Cons.IH [of w'] show ?thesis
      using quiet_step_trans by auto
  qed
qed

lemma report_closed_shifts_quiet: "quiet_step w (snd (report_closed_shifts S shifts w))"
proof -
  have 1: "quiet_step w (force_log Log_no_shifts w)"
    by (simp add: quiet_step_def)
  have "quiet_step w (force_log (Log_auto_closed n ids) w)" for n ids
    by (simp add: quiet_step_def)
  then have "quiet_step w (snd (for_closed_shifts S shifts (force_log (Log_auto_closed n ids) w)))"
    for n ids
    using for_closed_shifts_quiet quiet_step_trans by blast
  with 1 show ?thesis
    by (simp add: report_closed_shifts_unfold quiet_step_refl split: sum.splits)
qed

lemma await_check_and_auto_close_shifts_quiet:
  "quiet_step w (snd (await_check_and_auto_close_shifts S w))"
  by (simp add: quiet_step_def)

lemma await_sleep_quiet: "quiet_step w (snd (await_sleep S n w))"
  by (simp add: quiet_step_def)

lemma check_auto_close_shifts_quiet:
  "quiet_step (force_log Log_check_starting (called Call_check w))
     (snd (check_auto_close_shifts S w))"
proof -
  let ?w = "force_log Log_check_starting (called Call_check w)"
  have body: "quiet_step ?w (snd (check_auto_close_shifts_try S ?w))"
    using await_check_and_auto_close_shifts_quiet [of ?w S]
      report_closed_shifts_quiet [of "snd (await_check_and_auto_close_shifts S ?w)" S]
    by (auto simp add: check_auto_close_shifts_try_def bindE_eq split: sum.splits
        intro: quiet_step_trans)
  have "quiet_step v (snd (check_auto_close_shifts_except e v))" for e v
    by (simp add: quiet_step_def check_auto_close_shifts_except_def bindE_eq)
  with body show ?thesis
    by (auto simp add: check_auto_close_shifts_def except_Exception_eq split: sum.splits
        intro: quiet_step_trans)
qed

lemma scheduler_iteration_quiet:
  "quiet_step (force_log Log_check_starting (called Call_check w))
     (snd (scheduler_iteration S w))"
proof -
  let ?w = "force_log Log_check_starting (called Call_check w)"
  have body: "quiet_step ?w (snd (bindE (check_auto_close_shifts S) (\<lambda>_. await_sleep S 60) w))"
    using check_auto_close_shifts_quiet [of w S]
      await_sleep_quiet [of "snd (check_auto_close_shifts S w)" S 60]
    by (auto simp add: bindE_eq split: sum.splits intro: quiet_step_trans)
  have "quiet_step v (snd (scheduler_iteration_except S e v))" for e v
  proof -
    have "quiet_step v (force_log (Log_loop_error e) v)"
      by (simp add: quiet_step_def)
    then show ?thesis
      using await_sleep_quiet [of "force_log (Log_loop_error e) v" S 60]
      by (auto simp add: scheduler_iteration_except_def bindE_eq intro: quiet_step_trans)
  qed
  with body show ?thesis
    by (auto simp add: scheduler_iteration_def except_Exception_eq split: sum.splits
        intro: quiet_step_trans)
qed

lemma no_check_after_stop_append:
  "no_check_after_stop (a @ b) =
     (no_check_after_stop a \<and> no_check_after_stop b
      \<and> (Log_stopped \<in> set a \<longrightarrow> Log_check_starting \<notin> set b))"
  by (induction a) auto

lemma no_check_no_check_after_stop:
  "Log_check_starting \<notin> set l \<Longrightarrow> no_check_after_stop l"
  by (induction l) auto

lemma no_check_after_stopD:
  "no_check_after_stop (before @ Log_stopped # after) \<Longrightarrow> Log_check_starting \<notin> set after"
  by (simp add: no_check_after_stop_append)

lemma scheduler_loop_stops:
  "\<exists>l cs. logged (snd (scheduler_loop fuel S w)) = logged w @ l
      \<and> calls (snd (scheduler_loop fuel S w)) = calls w @ cs
      \<and> length (filter (\<lambda>c. c = Call_check) cs)
          = length (filter (\<lambda>m. m = Log_check_starting) l)
      \<and> no_check_after_stop l
      \<and> (Log_stopped \<in> set l \<longrightarrow>
           fst (scheduler_loop fuel S w) \<noteq> None \<and> \<not> is_running (snd (scheduler_loop fuel S w)))"
proof (induction fuel arbitrary: w)
  case 0
  show ?case by simp
next
  case (Suc fuel)
  show ?case
  proof (cases "is_running w")
    case False
    then show ?thesis by simp
  next
    case True
    obtain r w' where step: "scheduler_iteration S w = (r, w')"
      by (cases "scheduler_iteration S w")
    have "quiet_step (force_log Log_check_starting (called Call_check w)) w'"
      using scheduler_iteration_quiet [of w S] step by simp
    then obtain l cs where 1: "logged w' = logged w @ Log_check_starting # l"
      "calls w' = calls w @ Call_check # cs"
      "Log_check_starting \<notin> set l" "Call_check \<notin> set cs"
      "Log_stopped \<in> set l \<longrightarrow> \<not> is_running w'"
      unfolding quiet_step_def by auto
    have count: "length (filter (\<lambda>c. c = Call_check) (Call_check # cs))
        = length (filter (\<lambda>m. m = Log_check_starting) (Log_check_starting # l))"
    proof -
      have "filter (\<lambda>c. c = Call_check) cs = []"
        and "filter (\<lambda>m. m = Log_check_starting) l = []"
        using 1(3,4) by (auto simp add: filter_empty_conv)
      then show ?thesis by simp
    qed
    have quiet: "no_check_after_stop (Log_check_starting # l)"
      using 1(3) by (simp add: no_check_no_check_after_stop)
    have here: ?thesis if "scheduler_loop (Suc fuel) S w = (Some x, w')"
      and "Log_stopped \<in> set l \<longrightarrow> \<not> is_running w'" for x
      using that 1(1,2) count quiet by auto
    show ?thesis
    proof (cases r)
      case (Inl e)
      then have "scheduler_loop (Suc fuel) S w = (Some (Inl e), w')"
        using True step by simp
      then show ?thesis
        using here 1(5) by blast
    next
      case (Inr u)
      then have next_loop: "scheduler_loop (Suc fuel) S w = scheduler_loop fuel S w'"
        using True step by simp
      show ?thesis
      proof (cases "is_running w'")
        case False
        then have "scheduler_loop (Suc fuel) S w = (Some (Inr ()), w')"
          using next_loop scheduler_loop_stopped by simp
        then show ?thesis
          using here False by blast
      next
        case running: True
        then have no_stop: "Log_stopped \<notin> set l"
          using 1(5) by blast
        obtain l' cs' where 2: "logged (snd (scheduler_loop fuel S w')) = logged w' @ l'"
          "calls (snd (scheduler_loop fuel S w')) = calls w' @ cs'"
          "length (filter (\<lambda>c. c = Call_check) cs')
             = length (filter (\<lambda>m. m = Log_check_starting) l')"
          "no_check_after_stop l'"
          "Log_stopped \<in> set l' \<longrightarrow>
             fst (scheduler_loop fuel S w') \<noteq> None \<and> \<not> is_running (snd (scheduler_loop fuel S w'))"
          using Suc.IH [of w'] by blast
        have "logged (snd (scheduler_loop (Suc fuel) S w))
            = logged w @ ((Log_check_starting # l) @ l')"
          and "calls (snd (scheduler_loop (Suc fuel) S w)) = calls w @ ((Call_check # cs) @ cs')"
          using next_loop 1(1,2) 2(1,2) by simp_all
        moreover have "length (filter (\<lambda>c. c = Call_check) ((Call_check # cs) @ cs'))
            = length (filter (\<lambda>m. m = Log_check_starting) ((Log_check_starting # l) @ l'))"
          using count 2(3) by simp
        moreover have "no_check_after_stop ((Log_check_starting # l) @ l')"
          using quiet 2(4) no_stop by (simp add: no_check_after_stop_append)
        moreover have "Log_stopped \<in> set ((Log_check_starting # l) @ l') \<longrightarrow>
             fst (scheduler_loop (Suc fuel) S w) \<noteq> None
             \<and> \<not> is_running (snd (scheduler_loop (Suc fuel) S w))"
          using next_loop no_stop 2(5) by simp
        ultimately show ?thesis
          by blast
      qed
    qed
  qed
qed

lemma start_scheduler_stops:
  "\<exists>l cs. logged (snd (start_scheduler fuel S w)) = logged w @ Log_started # l
      \<and> calls (snd (start_scheduler fuel S w)) = calls w @ cs
      \<and> length (filter (\<lambda>c. c = Call_check) cs)
          = length (filter (\<lambda>m. m = Log_check_starting) l)
      \<and> (\<forall>before after. l = before @ Log_stopped # after \<longrightarrow> Log_check_starting \<notin> set after)
      \<and> (Log_stopped \<in> set l \<longrightarrow>
           fst (start_scheduler fuel S w) \<noteq> None \<and> \<not> is_running (snd (start_scheduler fuel S w)))"
proof -
  let ?w = "force_log Log_started (w\<lparr>is_running := True\<rparr>)"
  obtain l cs where 1: "logged (snd (scheduler_loop fuel S ?w)) = logged ?w @ l"
    "calls (snd (scheduler_loop fuel S ?w)) = calls ?w @ cs"
    "length (filter (\<lambda>c. c = Call_check) cs) = length (filter (\<lambda>m. m = Log_check_starting) l)"
    "no_check_after_stop l"
    "Log_stopped \<in> set l \<longrightarrow>
       fst (scheduler_loop fuel S ?w) \<noteq> None \<and> \<not> is_running (snd (scheduler_loop fuel S ?w))"
    using scheduler_loop_stops [of fuel S ?w] by blast
  have "\<forall>before after. l = before @ Log_stopped # after \<longrightarrow> Log_check_starting \<notin> set after"
    using 1(4) no_check_after_stopD by blast
  with 1 show ?thesis
    unfolding start_scheduler_def by (intro exI [of _ l] exI [of _ cs]) simp
qed

lemma scheduler_iteration_same:
  assumes "same_calls_and_state w v"
  shows "fst (scheduler_iteration S w) = fst (scheduler_iteration S v)
     \<and> same_calls_and_state (snd (scheduler_iteration S w)) (snd (scheduler_iteration S v))"
proof -
  have "fst (bindE (check_auto_close_shifts S) (\<lambda>_. await_sleep S 60) w)
        = fst (bindE (check_auto_close_shifts S) (\<lambda>_. await_sleep S 60) v)
     \<and> same_calls_and_state (snd (bindE (check_auto_close_shifts S) (\<lambda>_. await_sleep S 60) w))
           (snd (bindE (check_auto_close_shifts S) (\<lambda>_. await_sleep S 60) v))"
  proof (rule bindE_same)
    show "fst (check_auto_close_shifts S w) = fst (check_auto_close_shifts S v)"
      using check_auto_close_shifts_same [OF assms] by blast
    show "same_calls_and_state (snd (check_auto_close_shifts S w))
        (snd (check_auto_close_shifts S v))"
      using check_auto_close_shifts_same [OF assms] by blast
    show "fst (await_sleep S 60 a) = fst (await_sleep S 60 b)
        \<and> same_calls_and_state (snd (await_sleep S 60 a)) (snd (await_sleep S 60 b))"
      if "same_calls_and_state a b" for x :: unit and a b :: "('a, 'b) world"
      using that by (simp add: same_calls_and_state_def)
  qed
  moreover have "fst (scheduler_iteration_except S e a) = fst (scheduler_iteration_except S e b)
     \<and> same_calls_and_state (snd (scheduler_iteration_except S e a))
          (snd (scheduler_iteration_except S e b))"
    if "same_calls_and_state a b" for e and a b :: "('a, 'b) world"
    using that by (simp add: scheduler_iteration_except_def bindE_eq same_calls_and_state_def)
  ultimately show ?thesis
    unfolding scheduler_iteration_def
    using except_Exception_same by blast
qed

subsection \<open>C2: a failing notification does not stop the others\<close>

text \<open>
  When the task is cancelled while it awaits the summary of the first shift, the
  \<open>CancelledError\<close> is no instance of \<open>Exception\<close>: no handler catches it, nothing is
  logged for it, it leaves the cycle, and the second shift is not attempted.
\<close>

theorem failure_not_isolated_when_cancelled:
  "list_all closed_shift_record [shift_a, shift_b]
   \<and> get_shift_income_summary scheduler_summary_cancelled 1 100 ()
       = Inl (BaseExceptionOnly ''CancelledError'')
   \<and> fst (check_auto_close_shifts scheduler_summary_cancelled (init () ()))
       = Inl (BaseExceptionOnly ''CancelledError'')
   \<and> logged (snd (check_auto_close_shifts scheduler_summary_cancelled (init () ())))
       = [Log_check_starting, Log_auto_closed 2 [1, 2], Log_shift_closed 1 100]
   \<and> filter is_notify (calls (snd (check_auto_close_shifts scheduler_summary_cancelled
         (init () ())))) = [Call_notify shift_a]"
proof -
  have "get_shift_income_summary scheduler_summary_cancelled 1 100 ()
       = Inl (BaseExceptionOnly ''CancelledError'')"
    by (simp add: scheduler_summary_cancelled_def example_scheduler_def)
  moreover have "fst (check_auto_close_shifts scheduler_summary_cancelled (init () ()))
       = Inl (BaseExceptionOnly ''CancelledError'')"
    and "logged (snd (check_auto_close_shifts scheduler_summary_cancelled (init () ())))
       = [Log_check_starting, Log_auto_closed 2 [1, 2], Log_shift_closed 1 100]"
    and "filter is_notify (calls (snd (check_auto_close_shifts scheduler_summary_cancelled
         (init () ())))) = [Call_notify shift_a]"
    by (simp_all add: run_summary_cancelled is_notify_def)
  ultimately show ?thesis
    using example_shifts_are_records by blast
qed

text \<open>
  C2, for a scheduler with a bot service and a cycle whose close operation returns
  closed-shift records, one of which is \<open>shift\<close>.

  When whatever the summary fetch, the format and the send operation raise is an instance
  of \<open>Exception\<close>, the cycle returns and attempts every shift of the list, in order.

  The shift has an id \<open>i\<close>, a chat id \<open>c\<close> and a number; in the loop, its step is
  \<open>_send_shift_summary\<close> after the log entry of line 51. In \<open>_send_shift_summary\<close>, called
  in any world \<open>v\<close>: when the summary fetch raises \<open>e\<close>, or the format raises \<open>e\<close>, or
  \<open>send_message\<close> raises \<open>e\<close>, the body of the \<open>try\<close> raises \<open>e\<close>; whatever \<open>e\<close> that body
  raises, if it is an instance of \<open>Exception\<close>, \<open>_send_shift_summary\<close> returns, and what it
  has logged in addition is the error with the id \<open>i\<close> and the traceback; if it is not,
  \<open>_send_shift_summary\<close> raises \<open>e\<close> and logs nothing in addition. When \<open>send_message\<close>
  returns, \<open>_send_shift_summary\<close> returns and its last log entry is the success with \<open>i\<close>
  and \<open>c\<close> if \<open>send_message\<close> returned true, and the failure with \<open>i\<close> and \<open>c\<close> if it
  returned false.

  When the step of the shift raises, after the steps of the shifts before it have
  returned, what it raises is no instance of \<open>Exception\<close>, and the cycle ends there: it
  raises the same, in the world in which the step ended, so that the shifts after it are
  not attempted and nothing is logged for the exception.
\<close>

theorem notification_failure_is_isolated:
  assumes "bot_service S = Some send_message"
    and "check_and_auto_close_shifts S (store w) = (Inr shifts, s')"
    and "list_all closed_shift_record shifts"
    and "shift \<in> set shifts"
  shows "(notifying_raises_only_Exception S \<longrightarrow>
            fst (check_auto_close_shifts S w) = Inr ()
            \<and> filter is_notify (calls (snd (check_auto_close_shifts S w)))
                = filter is_notify (calls w) @ map Call_notify shifts)
     \<and> (\<exists>i c n. shift ''id'' = Some i \<and> shift ''chat_id'' = Some c \<and> shift ''number'' = Some n
          \<and> closed_shift_step S shift v
              = send_shift_summary S shift (force_log (Log_shift_closed i c) v)
          \<and> (\<forall>e. get_shift_income_summary S i c (store v) = Inl e \<longrightarrow>
                 fst (send_shift_summary_try S shift (called (Call_notify shift) v)) = Inl e)
          \<and> (\<forall>summary e.
                 get_shift_income_summary S i c (store v) = Inr summary \<longrightarrow>
                 format_message (format_2f S) n summary = Inl e \<longrightarrow>
                 fst (send_shift_summary_try S shift (called (Call_notify shift) v)) = Inl e)
          \<and> (\<forall>summary message e.
                 get_shift_income_summary S i c (store v) = Inr summary \<longrightarrow>
                 format_message (format_2f S) n summary = Inr message \<longrightarrow>
                 fst (send_message c message (snd (stop_requested S (outside v)))) = Inl e \<longrightarrow>
                 fst (send_shift_summary_try S shift (called (Call_notify shift) v)) = Inl e)
          \<and> (\<forall>e v'.
                 send_shift_summary_try S shift (called (Call_notify shift) v) = (Inl e, v') \<longrightarrow>
                 send_shift_summary S shift v =
                   (if isinstance_Exception e
                    then (Inr (), v'\<lparr>logged := logged v' @ [Log_summary_error (Some i) e,
                                                            Log_summary_traceback e]\<rparr>)
                    else (Inl e, v')))
          \<and> (\<forall>summary message success.
                 get_shift_income_summary S i c (store v) = Inr summary \<longrightarrow>
                 format_message (format_2f S) n summary = Inr message \<longrightarrow>
                 fst (send_message c message (snd (stop_requested S (outside v)))) = Inr success \<longrightarrow>
                 fst (send_shift_summary S shift v) = Inr ()
                 \<and> (\<exists>before. logged (snd (send_shift_summary S shift v))
                       = before @ [if success then Log_sent i c else Log_send_failed i c])))
     \<and> (\<forall>before rest w' e.
            shifts = before @ shift # rest \<longrightarrow>
            for_closed_shifts S before (at_line_50 S shifts s' w) = (Inr (), w') \<longrightarrow>
            fst (closed_shift_step S shift w') = Inl e \<longrightarrow>
            \<not> isinstance_Exception e
            \<and> check_auto_close_shifts S w = closed_shift_step S shift w')"
proof -
  have bot: "bot_service S \<noteq> None"
    using assms(1) by simp
  have "closed_shift_record shift"
    using assms(3,4) by (simp add: list_all_iff)
  then obtain i c n where keys: "shift ''id'' = Some i" "shift ''chat_id'' = Some c"
      "shift ''number'' = Some n"
    by (auto simp add: closed_shift_record_def)
  have 1: "fst (check_auto_close_shifts S w) = Inr ()
      \<and> filter is_notify (calls (snd (check_auto_close_shifts S w)))
          = filter is_notify (calls w) @ map Call_notify shifts"
    if "notifying_raises_only_Exception S"
    using check_auto_close_shifts_notifies [OF bot that assms(2,3)] by blast
  have 2: "closed_shift_step S shift v
      = send_shift_summary S shift (force_log (Log_shift_closed i c) v)"
    using closed_shift_step_of_record [OF keys(1,2) bot] .
  have 3: "fst (send_shift_summary_try S shift (called (Call_notify shift) v)) = Inl e"
    if "get_shift_income_summary S i c (store v) = Inl e" for e
    using send_shift_summary_try_fetch_raises [OF keys that] by simp
  have 4: "fst (send_shift_summary_try S shift (called (Call_notify shift) v)) = Inl e"
    if "get_shift_income_summary S i c (store v) = Inr summary"
      and "format_message (format_2f S) n summary = Inl e" for summary e
    using send_shift_summary_try_format_raises [OF keys that] by simp
  have 5: "fst (send_shift_summary_try S shift (called (Call_notify shift) v)) = Inl e"
    if "get_shift_income_summary S i c (store v) = Inr summary"
      and "format_message (format_2f S) n summary = Inr message"
      and "fst (send_message c message (snd (stop_requested S (outside v)))) = Inl e"
    for summary message e
    using send_shift_summary_try_send_raises [OF keys that(1,2) assms(1) that(3)] .
  have 6: "send_shift_summary S shift v =
       (if isinstance_Exception e
        then (Inr (), v'\<lparr>logged := logged v' @ [Log_summary_error (Some i) e,
                                                Log_summary_traceback e]\<rparr>)
        else (Inl e, v'))"
    if "send_shift_summary_try S shift (called (Call_notify shift) v) = (Inl e, v')" for e v'
    using send_shift_summary_handled [OF that] keys(1) by simp
  have 7: "fst (send_shift_summary S shift v) = Inr ()
      \<and> (\<exists>before. logged (snd (send_shift_summary S shift v))
            = before @ [if success then Log_sent i c else Log_send_failed i c])"
    if "get_shift_income_summary S i c (store v) = Inr summary"
      and "format_message (format_2f S) n summary = Inr message"
      and "fst (send_message c message (snd (stop_requested S (outside v)))) = Inr success"
    for summary message success
    using send_shift_summary_delivery [OF keys that(1,2) assms(1) that(3)] by blast
  have 8: "\<not> isinstance_Exception e
      \<and> check_auto_close_shifts S w = closed_shift_step S shift w'"
    if "shifts = before @ shift # rest"
      and "for_closed_shifts S before (at_line_50 S shifts s' w) = (Inr (), w')"
      and "fst (closed_shift_step S shift w') = Inl e" for before rest w' e
    using check_auto_close_shifts_stops [OF bot assms(2,3) that] by blast
  from keys 2 3 4 5 6 7 have "\<exists>i c n. shift ''id'' = Some i \<and> shift ''chat_id'' = Some c
        \<and> shift ''number'' = Some n
        \<and> closed_shift_step S shift v
            = send_shift_summary S shift (force_log (Log_shift_closed i c) v)
        \<and> (\<forall>e. get_shift_income_summary S i c (store v) = Inl e \<longrightarrow>
               fst (send_shift_summary_try S shift (called (Call_notify shift) v)) = Inl e)
        \<and> (\<forall>summary e.
               get_shift_income_summary S i c (store v) = Inr summary \<longrightarrow>
               format_message (format_2f S) n summary = Inl e \<longrightarrow>
               fst (send_shift_summary_try S shift (called (Call_notify shift) v)) = Inl e)
        \<and> (\<forall>summary message e.
               get_shift_income_summary S i c (store v) = Inr summary \<longrightarrow>
               format_message (format_2f S) n summary = Inr message \<longrightarrow>
               fst (send_message c message (snd (stop_requested S (outside v)))) = Inl e \<longrightarrow>
               fst (send_shift_summary_try S shift (called (Call_notify shift) v)) = Inl e)
        \<and> (\<forall>e v'.
               send_shift_summary_try S shift (called (Call_notify shift) v) = (Inl e, v') \<longrightarrow>
               send_shift_summary S shift v =
                 (if isinstance_Exception e
                  then (Inr (), v'\<lparr>logged := logged v' @ [Log_summary_error (Some i) e,
                                                          Log_summary_traceback e]\<rparr>)
                  else (Inl e, v')))
        \<and> (\<forall>summary message success.
               get_shift_income_summary S i c (store v) = Inr summary \<longrightarrow>
               format_message (format_2f S) n summary = Inr message \<longrightarrow>
               fst (send_message c message (snd (stop_requested S (outside v)))) = Inr success \<longrightarrow>
               fst (send_shift_summary S shift v) = Inr ()
               \<and> (\<exists>before. logged (snd (send_shift_summary S shift v))
                     = before @ [if success then Log_sent i c else Log_send_failed i c]))"
    by blast
  with 1 8 show ?thesis
    by blast
qed

lemma run_summary_fails_first:
  "send_shift_summary scheduler_summary_fails shift_a (init () ()) =
     (Inr (), \<lparr>is_running = False,
        logged = [Log_summary_error (Some 1) (Exception ''no such shift''),
                  Log_summary_traceback (Exception ''no such shift'')],
        calls = [Call_notify shift_a, Call_summary 1 100],
        store = (), outside = ()\<rparr>)"
  by (simp add: run_simps scheduler_summary_fails_def example_scheduler_def)

lemma run_summary_cancelled_first:
  "closed_shift_step scheduler_summary_cancelled shift_a
     (at_line_50 scheduler_summary_cancelled [shift_a, shift_b] () (init () ())) =
     (Inl (BaseExceptionOnly ''CancelledError''), \<lparr>is_running = False,
        logged = [Log_check_starting, Log_auto_closed 2 [1, 2], Log_shift_closed 1 100],
        calls = [Call_check, Call_close, Call_notify shift_a, Call_summary 1 100],
        store = (), outside = ()\<rparr>)"
  by (simp add: run_simps scheduler_summary_cancelled_def example_scheduler_def)

text \<open>
  The summary of the first shift raises an \<open>Exception\<close>: the error is logged with the id 1
  and the second shift is attempted. With a \<open>send_message\<close> that returns false, the failure
  is logged with the id 1 and the chat id 100. When the task is cancelled while it awaits
  the summary of the first shift, the cycle ends where the step of the first shift ended.
\<close>

theorem notification_failure_is_isolated_witness:
  "bot_service scheduler_summary_fails = Some (\<lambda>chat_id message k. (Inr True, k))
   \<and> check_and_auto_close_shifts scheduler_summary_fails (store (init () ()))
       = (Inr [shift_a, shift_b], ())
   \<and> list_all closed_shift_record [shift_a, shift_b]
   \<and> shift_a \<in> set [shift_a, shift_b]
   \<and> notifying_raises_only_Exception scheduler_summary_fails
   \<and> get_shift_income_summary scheduler_summary_fails 1 100 () = Inl (Exception ''no such shift'')
   \<and> logged (snd (send_shift_summary scheduler_summary_fails shift_a (init () ())))
       = [Log_summary_error (Some 1) (Exception ''no such shift''),
          Log_summary_traceback (Exception ''no such shift'')]
   \<and> fst (check_auto_close_shifts scheduler_summary_fails (init () ())) = Inr ()
   \<and> filter is_notify (calls (snd (check_auto_close_shifts scheduler_summary_fails (init () ()))))
       = [Call_notify shift_a, Call_notify shift_b]
   \<and> bot_service scheduler_delivery_fails = Some (\<lambda>chat_id message k. (Inr False, k))
   \<and> check_and_auto_close_shifts scheduler_delivery_fails (store (init () ()))
       = (Inr [shift_a, shift_b], ())
   \<and> fst (send_shift_summary scheduler_delivery_fails shift_a (init () ())) = Inr ()
   \<and> logged (snd (send_shift_summary scheduler_delivery_fails shift_a (init () ())))
       = [Log_send_failed 1 100]
   \<and> bot_service scheduler_summary_cancelled = Some (\<lambda>chat_id message k. (Inr True, k))
   \<and> check_and_auto_close_shifts scheduler_summary_cancelled (store (init () ()))
       = (Inr [shift_a, shift_b], ())
   \<and> [shift_a, shift_b] = [] @ shift_a # [shift_b]
   \<and> fst (closed_shift_step scheduler_summary_cancelled shift_a
         (at_line_50 scheduler_summary_cancelled [shift_a, shift_b] () (init () ())))
       = Inl (BaseExceptionOnly ''CancelledError'')
   \<and> \<not> isinstance_Exception (BaseExceptionOnly ''CancelledError'')
   \<and> check_auto_close_shifts scheduler_summary_cancelled (init () ())
       = closed_shift_step scheduler_summary_cancelled shift_a
           (at_line_50 scheduler_summary_cancelled [shift_a, shift_b] () (init () ()))"
proof -
  have 1: "bot_service scheduler_summary_fails = Some (\<lambda>chat_id message k. (Inr True, k))"
    by (simp add: scheduler_summary_fails_def example_scheduler_def)
  have 2: "notifying_raises_only_Exception scheduler_summary_fails"
    by (simp add: notifying_raises_only_Exception_def raises_only_Exception_def
        scheduler_summary_fails_def example_scheduler_def)
  have 3: "check_and_auto_close_shifts scheduler_summary_fails (store (init () ()))
       = (Inr [shift_a, shift_b], ())"
    by (simp add: scheduler_summary_fails_def example_scheduler_def)
  have 4: "shift_a \<in> set [shift_a, shift_b]"
    by simp
  have 5: "get_shift_income_summary scheduler_summary_fails 1 100 ()
       = Inl (Exception ''no such shift'')"
    by (simp add: scheduler_summary_fails_def example_scheduler_def)
  have 6: "logged (snd (send_shift_summary scheduler_summary_fails shift_a (init () ())))
       = [Log_summary_error (Some 1) (Exception ''no such shift''),
          Log_summary_traceback (Exception ''no such shift'')]"
    by (simp add: run_summary_fails_first)
  have 7: "filter is_notify (calls (init () ())) = []"
    by (simp add: init_def)
  have 8: "bot_service scheduler_delivery_fails = Some (\<lambda>chat_id message k. (Inr False, k))"
    by (simp add: scheduler_delivery_fails_def example_scheduler_def)
  have 9: "check_and_auto_close_shifts scheduler_delivery_fails (store (init () ()))
       = (Inr [shift_a, shift_b], ())"
    by (simp add: scheduler_delivery_fails_def example_scheduler_def)
  have 10: "fst (send_shift_summary scheduler_delivery_fails shift_a (init () ())) = Inr ()"
    and 11: "logged (snd (send_shift_summary scheduler_delivery_fails shift_a (init () ())))
       = [Log_send_failed 1 100]"
    by (simp_all add: run_delivery_fails)
  have 12: "bot_service scheduler_summary_cancelled = Some (\<lambda>chat_id message k. (Inr True, k))"
    by (simp add: scheduler_summary_cancelled_def example_scheduler_def)
  have 13: "check_and_auto_close_shifts scheduler_summary_cancelled (store (init () ()))
       = (Inr [shift_a, shift_b], ())"
    by (simp add: scheduler_summary_cancelled_def example_scheduler_def)
  have 14: "[shift_a, shift_b] = [] @ shift_a # [shift_b]"
    by simp
  have 15: "for_closed_shifts scheduler_summary_cancelled []
        (at_line_50 scheduler_summary_cancelled [shift_a, shift_b] () (init () ()))
      = (Inr (), at_line_50 scheduler_summary_cancelled [shift_a, shift_b] () (init () ()))"
    by simp
  have 16: "fst (closed_shift_step scheduler_summary_cancelled shift_a
         (at_line_50 scheduler_summary_cancelled [shift_a, shift_b] () (init () ())))
       = Inl (BaseExceptionOnly ''CancelledError'')"
    using run_summary_cancelled_first by simp
  have "fst (check_auto_close_shifts scheduler_summary_fails (init () ())) = Inr ()
     \<and> filter is_notify (calls (snd (check_auto_close_shifts scheduler_summary_fails (init () ()))))
         = [Call_notify shift_a, Call_notify shift_b]"
    using notification_failure_is_isolated [OF 1 3 example_shifts_are_records 4, of "init () ()"]
      notification_failure_is_isolated [OF 8 9 example_shifts_are_records 4, of "init () ()"]
      2 7
    by simp
  moreover have "\<not> isinstance_Exception (BaseExceptionOnly ''CancelledError'')
     \<and> check_auto_close_shifts scheduler_summary_cancelled (init () ())
         = closed_shift_step scheduler_summary_cancelled shift_a
             (at_line_50 scheduler_summary_cancelled [shift_a, shift_b] () (init () ()))"
    using notification_failure_is_isolated [OF 12 13 example_shifts_are_records 4, of "init () ()"]
      14 15 16
    by blast
  ultimately show ?thesis
    using 1 3 4 2 5 6 8 9 10 11 12 13 14 16 example_shifts_are_records
    by blast
qed

subsection \<open>C3: a failing cycle is followed by another one\<close>

text \<open>
  When the task is cancelled while it awaits the close operation, the \<open>CancelledError\<close>
  leaves \<open>check_auto_close_shifts\<close> and the loop: nothing is logged for it, the loop does
  not sleep, and there is no second cycle.
\<close>

theorem cancelled_cycle_ends_the_loop:
  "is_running (force_log Log_started ((init () ())\<lparr>is_running := True\<rparr>))
   \<and> fst (check_and_auto_close_shifts scheduler_close_cancelled ())
       = Inl (BaseExceptionOnly ''CancelledError'')
   \<and> fst (start_scheduler (Suc (Suc 0)) scheduler_close_cancelled (init () ()))
       = Some (Inl (BaseExceptionOnly ''CancelledError''))
   \<and> logged (snd (start_scheduler (Suc (Suc 0)) scheduler_close_cancelled (init () ())))
       = [Log_started, Log_check_starting]
   \<and> calls (snd (start_scheduler (Suc (Suc 0)) scheduler_close_cancelled (init () ())))
       = [Call_check, Call_close]"
proof -
  have "fst (check_and_auto_close_shifts scheduler_close_cancelled ())
       = Inl (BaseExceptionOnly ''CancelledError'')"
    by (simp add: scheduler_close_cancelled_def example_scheduler_def)
  then show ?thesis
    by (simp add: run_close_cancelled)
qed

text \<open>
  C3, for a scheduler that is running when the loop tests the flag.

  When whatever the collaborators raise is an instance of \<open>Exception\<close> and
  \<open>asyncio.sleep\<close> returns, the body of the loop returns and its last call is a sleep of
  60 seconds. An error that the body of the cycle raised is logged by the cycle; when it
  was the close operation that raised, the calls of the iteration are the cycle, the
  close operation and the sleep. The loop goes on with the next iteration: if no other
  task has stopped the scheduler meanwhile, the next call is \<open>check_auto_close_shifts\<close>
  again.

  Whatever \<open>e\<close> the body of the cycle raises: if \<open>e\<close> is an instance of \<open>Exception\<close>, the
  cycle returns, and what it has logged in addition is the error and the traceback; if
  the sleep of line 25 returns then, the iteration returns after that one further call,
  and the loop goes on with the next test of the flag. If \<open>e\<close> is no instance of
  \<open>Exception\<close>, the cycle raises \<open>e\<close> and logs nothing in addition. Whenever the cycle
  returns, the next call is the sleep of 60 seconds, whatever that sleep does.

  Whatever leaves the cycle is no instance of \<open>Exception\<close>; the body of the loop raises
  it in the world in which the cycle ended, without a sleep, and the loop ends with it.
  So does the loop when the close operation raises what is no instance of \<open>Exception\<close>:
  the calls are the cycle and the close operation. And whatever leaves the body of the
  loop ends the loop; whenever the body of the loop returns, the loop goes on with the
  next test of the flag, and, if the scheduler is still running then, with the next call
  of \<open>check_auto_close_shifts\<close>.
\<close>

theorem failing_cycle_is_retried:
  assumes "is_running w"
  shows "(closing_raises_only_Exception S \<and> notifying_raises_only_Exception S
          \<and> sleep_returns S \<longrightarrow>
            fst (scheduler_iteration S w) = Inr ()
            \<and> (\<exists>cs. calls (snd (scheduler_iteration S w))
                      = calls w @ Call_check # Call_close # cs @ [Call_sleep 60])
            \<and> (\<forall>e. fst (check_auto_close_shifts_try S (at_line_40 w)) = Inl e
                   \<longrightarrow> Log_check_error e \<in> set (logged (snd (scheduler_iteration S w))))
            \<and> (\<forall>e. fst (check_and_auto_close_shifts S (store w)) = Inl e
                   \<longrightarrow> calls (snd (scheduler_iteration S w))
                        = calls w @ [Call_check, Call_close, Call_sleep 60])
            \<and> scheduler_loop (Suc fuel) S w = scheduler_loop fuel S (snd (scheduler_iteration S w))
            \<and> (is_running (snd (scheduler_iteration S w)) \<longrightarrow>
                 (\<exists>cs. calls (snd (scheduler_loop (Suc (Suc fuel)) S w))
                        = calls (snd (scheduler_iteration S w)) @ Call_check # cs)))
     \<and> (\<forall>e w'. check_auto_close_shifts_try S (at_line_40 w) = (Inl e, w') \<longrightarrow>
            check_auto_close_shifts S w =
              (if isinstance_Exception e
               then (Inr (), w'\<lparr>logged := logged w' @ [Log_check_error e,
                                                       Log_check_traceback e]\<rparr>)
               else (Inl e, w')))
     \<and> (\<forall>e w'. check_auto_close_shifts_try S (at_line_40 w) = (Inl e, w') \<longrightarrow>
            isinstance_Exception e \<longrightarrow>
            fst (asyncio_sleep S 60 (outside w')) = Inr () \<longrightarrow>
            fst (scheduler_iteration S w) = Inr ()
            \<and> logged (snd (scheduler_iteration S w))
                = logged w' @ [Log_check_error e, Log_check_traceback e]
                    @ (if fst (stop_requested S (snd (asyncio_sleep S 60 (outside w'))))
                       then [Log_stopped] else [])
            \<and> calls (snd (scheduler_iteration S w)) = calls w' @ [Call_sleep 60]
            \<and> scheduler_loop (Suc fuel) S w = scheduler_loop fuel S (snd (scheduler_iteration S w)))
     \<and> (\<forall>e. fst (check_auto_close_shifts S w) = Inl e \<longrightarrow>
            \<not> isinstance_Exception e
            \<and> scheduler_iteration S w = check_auto_close_shifts S w
            \<and> scheduler_loop (Suc fuel) S w = (Some (Inl e), snd (check_auto_close_shifts S w)))
     \<and> (\<forall>e. fst (check_and_auto_close_shifts S (store w)) = Inl e \<longrightarrow>
            \<not> isinstance_Exception e \<longrightarrow>
            fst (scheduler_loop (Suc fuel) S w) = Some (Inl e)
            \<and> calls (snd (scheduler_loop (Suc fuel) S w)) = calls w @ [Call_check, Call_close]
            \<and> logged (snd (scheduler_loop (Suc fuel) S w))
                = logged w @ Log_check_starting
                    # (if fst (stop_requested S (outside w)) then [Log_stopped] else []))
     \<and> (\<forall>e. fst (scheduler_iteration S w) = Inl e \<longrightarrow>
            scheduler_loop (Suc fuel) S w = (Some (Inl e), snd (scheduler_iteration S w)))
     \<and> (fst (check_auto_close_shifts S w) = Inr () \<longrightarrow>
            (\<exists>cs. calls (snd (scheduler_iteration S w))
                   = calls (snd (check_auto_close_shifts S w)) @ Call_sleep 60 # cs))
     \<and> (fst (scheduler_iteration S w) = Inr () \<longrightarrow>
            scheduler_loop (Suc fuel) S w = scheduler_loop fuel S (snd (scheduler_iteration S w))
            \<and> (is_running (snd (scheduler_iteration S w)) \<longrightarrow>
                 (\<exists>cs. calls (snd (scheduler_loop (Suc (Suc fuel)) S w))
                        = calls (snd (scheduler_iteration S w)) @ Call_check # cs)))"
proof -
  let ?w = "snd (scheduler_iteration S w)"
  have next_loop: "scheduler_loop (Suc fuel') S w = scheduler_loop fuel' S ?w"
    if "fst (scheduler_iteration S w) = Inr ()" for fuel'
    using assms that by (cases "scheduler_iteration S w") simp
  have A: "fst (scheduler_iteration S w) = Inr ()
      \<and> (\<exists>cs. calls ?w = calls w @ Call_check # Call_close # cs @ [Call_sleep 60])
      \<and> (\<forall>e. fst (check_auto_close_shifts_try S (at_line_40 w)) = Inl e
             \<longrightarrow> Log_check_error e \<in> set (logged ?w))
      \<and> (\<forall>e. fst (check_and_auto_close_shifts S (store w)) = Inl e
             \<longrightarrow> calls ?w = calls w @ [Call_check, Call_close, Call_sleep 60])
      \<and> scheduler_loop (Suc fuel) S w = scheduler_loop fuel S ?w
      \<and> (is_running ?w \<longrightarrow>
           (\<exists>cs. calls (snd (scheduler_loop (Suc (Suc fuel)) S w)) = calls ?w @ Call_check # cs))"
    if closing: "closing_raises_only_Exception S"
      and notifying: "notifying_raises_only_Exception S"
      and sleeping: "sleep_returns S"
  proof -
    have sleep: "fst (asyncio_sleep S n k) = Inr ()" for n k
      using sleeping by (simp add: sleep_returns_def)
    have check: "fst (check_auto_close_shifts S w) = Inr ()"
      using check_auto_close_shifts_returns [OF closing notifying] .
    have 1: "fst (scheduler_iteration S w) = Inr ()"
      using scheduler_iteration_returns [OF closing notifying sleeping] .
    obtain cs where "calls (snd (check_auto_close_shifts S w))
        = calls w @ Call_check # Call_close # cs"
      using check_auto_close_shifts_calls by blast
    then have 2: "\<exists>cs. calls ?w = calls w @ Call_check # Call_close # cs @ [Call_sleep 60]"
      using check sleep by (simp add: scheduler_iteration_unfold)
    have 3: "Log_check_error e \<in> set (logged ?w)"
      if "fst (check_auto_close_shifts_try S (at_line_40 w)) = Inl e" for e
      using check_auto_close_shifts_caught [OF closing notifying that] check sleep
      by (simp add: scheduler_iteration_unfold)
    have 4: "calls ?w = calls w @ [Call_check, Call_close, Call_sleep 60]"
      if "fst (check_and_auto_close_shifts S (store w)) = Inl e" for e
      using that check sleep
      by (simp add: scheduler_iteration_unfold check_auto_close_shifts_unfold split: if_splits)
    have 6: "\<exists>cs. calls (snd (scheduler_loop (Suc (Suc fuel)) S w)) = calls ?w @ Call_check # cs"
      if "is_running ?w"
      using scheduler_loop_running_calls [OF that, of fuel S] next_loop [OF 1, of "Suc fuel"]
      by simp
    from 1 2 3 4 next_loop [OF 1, of fuel] 6 show ?thesis by blast
  qed
  have B: "check_auto_close_shifts S w =
      (if isinstance_Exception e
       then (Inr (), w'\<lparr>logged := logged w' @ [Log_check_error e, Log_check_traceback e]\<rparr>)
       else (Inl e, w'))"
    if "check_auto_close_shifts_try S (at_line_40 w) = (Inl e, w')" for e w'
    using check_auto_close_shifts_handled [OF that] .
  have C: "fst (scheduler_iteration S w) = Inr ()
      \<and> logged ?w = logged w' @ [Log_check_error e, Log_check_traceback e]
            @ (if fst (stop_requested S (snd (asyncio_sleep S 60 (outside w'))))
               then [Log_stopped] else [])
      \<and> calls ?w = calls w' @ [Call_sleep 60]
      \<and> scheduler_loop (Suc fuel) S w = scheduler_loop fuel S ?w"
    if "check_auto_close_shifts_try S (at_line_40 w) = (Inl e, w')"
      and "isinstance_Exception e"
      and "fst (asyncio_sleep S 60 (outside w')) = Inr ()" for e w'
    using scheduler_iteration_after_caught [OF that]
      next_loop [OF scheduler_iteration_after_caught(1) [OF that], of fuel]
    by blast
  have D: "\<not> isinstance_Exception e
      \<and> scheduler_iteration S w = check_auto_close_shifts S w
      \<and> scheduler_loop (Suc fuel) S w = (Some (Inl e), snd (check_auto_close_shifts S w))"
    if "fst (check_auto_close_shifts S w) = Inl e" for e
    using check_auto_close_shifts_leaves [OF that] scheduler_iteration_check_raises [OF that]
      scheduler_loop_raises [OF assms, of S e fuel] that
    by simp
  have E: "fst (scheduler_loop (Suc fuel) S w) = Some (Inl e)
      \<and> calls (snd (scheduler_loop (Suc fuel) S w)) = calls w @ [Call_check, Call_close]
      \<and> logged (snd (scheduler_loop (Suc fuel) S w))
          = logged w @ Log_check_starting
              # (if fst (stop_requested S (outside w)) then [Log_stopped] else [])"
    if "fst (check_and_auto_close_shifts S (store w)) = Inl e" and "\<not> isinstance_Exception e"
    for e
    using scheduler_loop_close_raises [OF assms that, of fuel] by simp
  have F: "scheduler_loop (Suc fuel) S w = (Some (Inl e), ?w)"
    if "fst (scheduler_iteration S w) = Inl e" for e
    using scheduler_loop_raises [OF assms that] .
  have G: "scheduler_loop (Suc fuel) S w = scheduler_loop fuel S ?w
      \<and> (is_running ?w \<longrightarrow>
           (\<exists>cs. calls (snd (scheduler_loop (Suc (Suc fuel)) S w)) = calls ?w @ Call_check # cs))"
    if "fst (scheduler_iteration S w) = Inr ()"
    using scheduler_loop_running_calls [of ?w fuel S] next_loop [OF that, of fuel]
      next_loop [OF that, of "Suc fuel"]
    by simp
  have H: "\<exists>cs. calls ?w = calls (snd (check_auto_close_shifts S w)) @ Call_sleep 60 # cs"
    if "fst (check_auto_close_shifts S w) = Inr ()"
    using that by (simp add: scheduler_iteration_unfold split: sum.splits)
  from A B C D E F G H show ?thesis
    by blast
qed

lemma run_store_down:
  "start_scheduler (Suc (Suc 0)) scheduler_store_down (init () ()) =
     (None, \<lparr>is_running = True,
        logged = [Log_started,
                  Log_check_starting, Log_check_error (Exception ''store unreachable''),
                  Log_check_traceback (Exception ''store unreachable''),
                  Log_check_starting, Log_check_error (Exception ''store unreachable''),
                  Log_check_traceback (Exception ''store unreachable'')],
        calls = [Call_check, Call_close, Call_sleep 60, Call_check, Call_close, Call_sleep 60],
        store = (), outside = ()\<rparr>)"
  by (simp add: run_simps scheduler_store_down_def example_scheduler_def)

text \<open>
  A store that is unreachable in every cycle: two iterations make two cycles, each
  followed by a sleep of 60 seconds. And a task that is cancelled while it awaits the
  close operation: the loop ends in its first iteration, after the cycle and the close
  operation were called.
\<close>

theorem failing_cycle_is_retried_witness:
  "is_running (force_log Log_started ((init () ())\<lparr>is_running := True\<rparr>))
   \<and> closing_raises_only_Exception scheduler_store_down
   \<and> notifying_raises_only_Exception scheduler_store_down
   \<and> sleep_returns scheduler_store_down
   \<and> fst (check_and_auto_close_shifts scheduler_store_down
         (store (force_log Log_started ((init () ())\<lparr>is_running := True\<rparr>))))
       = Inl (Exception ''store unreachable'')
   \<and> isinstance_Exception (Exception ''store unreachable'')
   \<and> fst (scheduler_iteration scheduler_store_down
         (force_log Log_started ((init () ())\<lparr>is_running := True\<rparr>))) = Inr ()
   \<and> calls (snd (scheduler_iteration scheduler_store_down
         (force_log Log_started ((init () ())\<lparr>is_running := True\<rparr>))))
       = [Call_check, Call_close, Call_sleep 60]
   \<and> logged (snd (start_scheduler (Suc (Suc 0)) scheduler_store_down (init () ())))
       = [Log_started,
          Log_check_starting, Log_check_error (Exception ''store unreachable''),
          Log_check_traceback (Exception ''store unreachable''),
          Log_check_starting, Log_check_error (Exception ''store unreachable''),
          Log_check_traceback (Exception ''store unreachable'')]
   \<and> calls (snd (start_scheduler (Suc (Suc 0)) scheduler_store_down (init () ())))
       = [Call_check, Call_close, Call_sleep 60, Call_check, Call_close, Call_sleep 60]
   \<and> fst (check_and_auto_close_shifts scheduler_close_cancelled
         (store (force_log Log_started ((init () ())\<lparr>is_running := True\<rparr>))))
       = Inl (BaseExceptionOnly ''CancelledError'')
   \<and> \<not> isinstance_Exception (BaseExceptionOnly ''CancelledError'')
   \<and> fst (scheduler_loop (Suc 0) scheduler_close_cancelled
         (force_log Log_started ((init () ())\<lparr>is_running := True\<rparr>)))
       = Some (Inl (BaseExceptionOnly ''CancelledError''))
   \<and> calls (snd (scheduler_loop (Suc 0) scheduler_close_cancelled
         (force_log Log_started ((init () ())\<lparr>is_running := True\<rparr>))))
       = [Call_check, Call_close]"
proof -
  let ?w = "force_log Log_started ((init () ())\<lparr>is_running := True\<rparr>)"
  have 1: "is_running ?w"
    by simp
  have 2: "closing_raises_only_Exception scheduler_store_down"
    by (simp add: closing_raises_only_Exception_def raises_only_Exception_def
        scheduler_store_down_def example_scheduler_def)
  have 3: "notifying_raises_only_Exception scheduler_store_down"
    by (simp add: notifying_raises_only_Exception_def raises_only_Exception_def
        scheduler_store_down_def example_scheduler_def)
  have 4: "sleep_returns scheduler_store_down"
    by (simp add: sleep_returns_def scheduler_store_down_def example_scheduler_def)
  have 5: "fst (check_and_auto_close_shifts scheduler_store_down (store ?w))
       = Inl (Exception ''store unreachable'')"
    by (simp add: scheduler_store_down_def example_scheduler_def)
  have 6: "logged (snd (start_scheduler (Suc (Suc 0)) scheduler_store_down (init () ())))
       = [Log_started,
          Log_check_starting, Log_check_error (Exception ''store unreachable''),
          Log_check_traceback (Exception ''store unreachable''),
          Log_check_starting, Log_check_error (Exception ''store unreachable''),
          Log_check_traceback (Exception ''store unreachable'')]"
    and 7: "calls (snd (start_scheduler (Suc (Suc 0)) scheduler_store_down (init () ())))
       = [Call_check, Call_close, Call_sleep 60, Call_check, Call_close, Call_sleep 60]"
    by (simp_all add: run_store_down)
  have 8: "calls ?w = []"
    by (simp add: init_def)
  have 9: "fst (check_and_auto_close_shifts scheduler_close_cancelled (store ?w))
       = Inl (BaseExceptionOnly ''CancelledError'')"
    by (simp add: scheduler_close_cancelled_def example_scheduler_def)
  have 10: "\<not> isinstance_Exception (BaseExceptionOnly ''CancelledError'')"
    by simp
  have "fst (scheduler_iteration scheduler_store_down ?w) = Inr ()
     \<and> calls (snd (scheduler_iteration scheduler_store_down ?w))
         = [Call_check, Call_close, Call_sleep 60]"
    using failing_cycle_is_retried [OF 1, of scheduler_store_down 0] 2 3 4 5 8
    by simp
  moreover have "fst (scheduler_loop (Suc 0) scheduler_close_cancelled ?w)
       = Some (Inl (BaseExceptionOnly ''CancelledError''))
     \<and> calls (snd (scheduler_loop (Suc 0) scheduler_close_cancelled ?w))
         = [Call_check, Call_close]"
    using failing_cycle_is_retried [OF 1, of scheduler_close_cancelled 0] 9 10 8
    by simp
  ultimately show ?thesis
    using 1 2 3 4 5 6 7 9 10
    by simp
qed

subsection \<open>C7: exceptions do not leave the loop\<close>

text \<open>
  A \<open>KeyboardInterrupt\<close> raised while the first message is sent is no instance of
  \<open>Exception\<close>: it passes the three handlers and leaves the body of the loop.
\<close>

theorem interrupt_leaves_the_loop:
  "fst (scheduler_iteration scheduler_send_interrupted (init () ()))
     = Inl (BaseExceptionOnly ''KeyboardInterrupt'')
   \<and> calls (snd (scheduler_iteration scheduler_send_interrupted (init () ())))
       = [Call_check, Call_close, Call_notify shift_a, Call_summary 1 100,
          Call_send 100 (strip (message_with_transactions 7
                   (join nl [currency_line ''$'' (format_comma_2f 45.5) 2,
                             currency_line riel (format_comma_2f 1000) 1])
                   3 (format_comma_2f 1045.5)))]"
  by (simp add: run_simps scheduler_send_interrupted_def example_scheduler_def
      example_summary_def)

text \<open>
  C7. When whatever the close operation, the summary fetch, the format and the send
  operation raise is an instance of \<open>Exception\<close>, \<open>_send_shift_summary\<close> and
  \<open>check_auto_close_shifts\<close> return; and when \<open>asyncio.sleep\<close> returns as well, so does the
  body of the loop, and no exception leaves the loop.

  Whatever leaves \<open>_send_shift_summary\<close> or \<open>check_auto_close_shifts\<close> is no instance of
  \<open>Exception\<close>. An exception that is no instance of \<open>Exception\<close> passes each of the three
  handlers: when the body of the \<open>try\<close> of \<open>_send_shift_summary\<close>, of
  \<open>check_auto_close_shifts\<close> or of the loop raises it, so does the function or the body of
  the loop, in the same world: nothing is logged for it.

  For a scheduler that is running when the loop tests the flag, it leaves the loop: when
  the close operation raises it; when the step of a closed shift raises it, in a cycle of a
  scheduler with a bot service, after the steps of the shifts before it have returned (that
  step is \<open>_send_shift_summary\<close> after the log entry of line 51, see C2); and whenever the
  body of the loop raises.
\<close>

theorem exceptions_stay_inside:
  "(closing_raises_only_Exception S \<and> notifying_raises_only_Exception S \<longrightarrow>
      fst (send_shift_summary S shift w) = Inr ()
      \<and> fst (check_auto_close_shifts S w) = Inr ()
      \<and> (sleep_returns S \<longrightarrow>
           fst (scheduler_iteration S w) = Inr ()
           \<and> (\<forall>e. fst (scheduler_loop fuel S w) \<noteq> Some (Inl e))))
   \<and> (\<forall>e. fst (send_shift_summary S shift w) = Inl e \<longrightarrow> \<not> isinstance_Exception e)
   \<and> (\<forall>e. fst (check_auto_close_shifts S w) = Inl e \<longrightarrow> \<not> isinstance_Exception e)
   \<and> (\<forall>e w'. \<not> isinstance_Exception e \<longrightarrow>
         (send_shift_summary_try S shift (called (Call_notify shift) w) = (Inl e, w')
            \<longrightarrow> send_shift_summary S shift w = (Inl e, w'))
         \<and> (check_auto_close_shifts_try S (at_line_40 w) = (Inl e, w')
            \<longrightarrow> check_auto_close_shifts S w = (Inl e, w'))
         \<and> (bindE (check_auto_close_shifts S) (\<lambda>_. await_sleep S 60) w = (Inl e, w')
            \<longrightarrow> scheduler_iteration S w = (Inl e, w')))
   \<and> (is_running w \<longrightarrow>
         (\<forall>e. fst (check_and_auto_close_shifts S (store w)) = Inl e \<longrightarrow>
               \<not> isinstance_Exception e \<longrightarrow>
               fst (scheduler_loop (Suc fuel) S w) = Some (Inl e))
         \<and> (\<forall>shifts s' before rest w' e.
               bot_service S \<noteq> None \<longrightarrow>
               check_and_auto_close_shifts S (store w) = (Inr shifts, s') \<longrightarrow>
               list_all closed_shift_record shifts \<longrightarrow>
               shifts = before @ shift # rest \<longrightarrow>
               for_closed_shifts S before (at_line_50 S shifts s' w) = (Inr (), w') \<longrightarrow>
               fst (closed_shift_step S shift w') = Inl e \<longrightarrow>
               \<not> isinstance_Exception e
               \<and> scheduler_loop (Suc fuel) S w
                   = (Some (Inl e), snd (closed_shift_step S shift w')))
         \<and> (\<forall>e. fst (scheduler_iteration S w) = Inl e \<longrightarrow>
               scheduler_loop (Suc fuel) S w = (Some (Inl e), snd (scheduler_iteration S w))))"
proof -
  have A: "fst (send_shift_summary S shift w) = Inr ()
      \<and> fst (check_auto_close_shifts S w) = Inr ()
      \<and> (sleep_returns S \<longrightarrow>
           fst (scheduler_iteration S w) = Inr ()
           \<and> (\<forall>e. fst (scheduler_loop fuel S w) \<noteq> Some (Inl e)))"
    if closing: "closing_raises_only_Exception S"
      and notifying: "notifying_raises_only_Exception S"
    using send_shift_summary_returns [OF notifying]
      check_auto_close_shifts_returns [OF closing notifying]
      scheduler_iteration_returns [OF closing notifying]
      scheduler_loop_returns [OF closing notifying]
    by blast
  have B: "\<not> isinstance_Exception e" if "fst (send_shift_summary S shift w) = Inl e" for e
    using send_shift_summary_leaves [OF that] .
  have C: "\<not> isinstance_Exception e" if "fst (check_auto_close_shifts S w) = Inl e" for e
    using check_auto_close_shifts_leaves [OF that] .
  have D1: "send_shift_summary S shift w = (Inl e, w')"
    if "\<not> isinstance_Exception e"
      and "send_shift_summary_try S shift (called (Call_notify shift) w) = (Inl e, w')" for e w'
    using send_shift_summary_handled [OF that(2)] that(1) by simp
  have D2: "check_auto_close_shifts S w = (Inl e, w')"
    if "\<not> isinstance_Exception e"
      and "check_auto_close_shifts_try S (at_line_40 w) = (Inl e, w')" for e w'
    using check_auto_close_shifts_handled [OF that(2)] that(1) by simp
  have D3: "scheduler_iteration S w = (Inl e, w')"
    if "\<not> isinstance_Exception e"
      and "bindE (check_auto_close_shifts S) (\<lambda>_. await_sleep S 60) w = (Inl e, w')" for e w'
    using scheduler_iteration_handled [OF that(2)] that(1) by simp
  have E1: "fst (scheduler_loop (Suc fuel) S w) = Some (Inl e)"
    if "is_running w" and "fst (check_and_auto_close_shifts S (store w)) = Inl e"
      and "\<not> isinstance_Exception e" for e
    using scheduler_loop_close_raises [OF that, of fuel] by simp
  have E2: "\<not> isinstance_Exception e
      \<and> scheduler_loop (Suc fuel) S w = (Some (Inl e), snd (closed_shift_step S shift w'))"
    if "is_running w" and "bot_service S \<noteq> None"
      and "check_and_auto_close_shifts S (store w) = (Inr shifts, s')"
      and "list_all closed_shift_record shifts"
      and "shifts = before @ shift # rest"
      and "for_closed_shifts S before (at_line_50 S shifts s' w) = (Inr (), w')"
      and "fst (closed_shift_step S shift w') = Inl e" for shifts s' before rest w' e
    using check_auto_close_shifts_stops(1) [OF that(2-7)]
      scheduler_loop_notification_raises [OF that, of fuel]
    by blast
  have E3: "scheduler_loop (Suc fuel) S w = (Some (Inl e), snd (scheduler_iteration S w))"
    if "is_running w" and "fst (scheduler_iteration S w) = Inl e" for e
    using scheduler_loop_raises [OF that] .
  have E: "(\<forall>e. fst (check_and_auto_close_shifts S (store w)) = Inl e \<longrightarrow>
               \<not> isinstance_Exception e \<longrightarrow>
               fst (scheduler_loop (Suc fuel) S w) = Some (Inl e))
         \<and> (\<forall>shifts s' before rest w' e.
               bot_service S \<noteq> None \<longrightarrow>
               check_and_auto_close_shifts S (store w) = (Inr shifts, s') \<longrightarrow>
               list_all closed_shift_record shifts \<longrightarrow>
               shifts = before @ shift # rest \<longrightarrow>
               for_closed_shifts S before (at_line_50 S shifts s' w) = (Inr (), w') \<longrightarrow>
               fst (closed_shift_step S shift w') = Inl e \<longrightarrow>
               \<not> isinstance_Exception e
               \<and> scheduler_loop (Suc fuel) S w
                   = (Some (Inl e), snd (closed_shift_step S shift w')))
         \<and> (\<forall>e. fst (scheduler_iteration S w) = Inl e \<longrightarrow>
               scheduler_loop (Suc fuel) S w = (Some (Inl e), snd (scheduler_iteration S w)))"
    if "is_running w"
    using E1 [OF that] E2 [OF that] E3 [OF that] by blast
  have D: "(send_shift_summary_try S shift (called (Call_notify shift) w) = (Inl e, w')
            \<longrightarrow> send_shift_summary S shift w = (Inl e, w'))
         \<and> (check_auto_close_shifts_try S (at_line_40 w) = (Inl e, w')
            \<longrightarrow> check_auto_close_shifts S w = (Inl e, w'))
         \<and> (bindE (check_auto_close_shifts S) (\<lambda>_. await_sleep S 60) w = (Inl e, w')
            \<longrightarrow> scheduler_iteration S w = (Inl e, w'))"
    if "\<not> isinstance_Exception e" for e w'
    using D1 [OF that] D2 [OF that] D3 [OF that] by blast
  from A B C D E show ?thesis
    by blast
qed

lemma run_send_interrupted_first:
  "closed_shift_step scheduler_send_interrupted shift_a
     (at_line_50 scheduler_send_interrupted [shift_a, shift_b] ()
        (force_log Log_started ((init () ())\<lparr>is_running := True\<rparr>))) =
     (Inl (BaseExceptionOnly ''KeyboardInterrupt''), \<lparr>is_running = True,
        logged = [Log_started, Log_check_starting, Log_auto_closed 2 [1, 2],
                  Log_shift_closed 1 100],
        calls = [Call_check, Call_close, Call_notify shift_a, Call_summary 1 100,
                 Call_send 100 (strip (message_with_transactions 7
                   (join nl [currency_line ''$'' (format_comma_2f 45.5) 2,
                             currency_line riel (format_comma_2f 1000) 1])
                   3 (format_comma_2f 1045.5)))],
        store = (), outside = ()\<rparr>)"
  by (simp add: run_simps scheduler_send_interrupted_def example_scheduler_def
      example_summary_def)

text \<open>
  The close operation raises an \<open>Exception\<close>; the cycle and the body of the loop return,
  and two iterations of the loop end with the scheduler still running. And a
  \<open>KeyboardInterrupt\<close> raised while the message of the first shift is sent: the loop ends
  with it in its first iteration.
\<close>

theorem exceptions_stay_inside_witness:
  "closing_raises_only_Exception scheduler_store_down
   \<and> notifying_raises_only_Exception scheduler_store_down
   \<and> sleep_returns scheduler_store_down
   \<and> fst (check_and_auto_close_shifts scheduler_store_down ()) = Inl (Exception ''store unreachable'')
   \<and> fst (send_shift_summary scheduler_store_down shift_a (init () ())) = Inr ()
   \<and> fst (check_auto_close_shifts scheduler_store_down (init () ())) = Inr ()
   \<and> fst (scheduler_iteration scheduler_store_down (init () ())) = Inr ()
   \<and> fst (start_scheduler (Suc (Suc 0)) scheduler_store_down (init () ())) = None
   \<and> is_running (force_log Log_started ((init () ())\<lparr>is_running := True\<rparr>))
   \<and> bot_service scheduler_send_interrupted \<noteq> None
   \<and> check_and_auto_close_shifts scheduler_send_interrupted
        (store (force_log Log_started ((init () ())\<lparr>is_running := True\<rparr>)))
       = (Inr [shift_a, shift_b], ())
   \<and> list_all closed_shift_record [shift_a, shift_b]
   \<and> [shift_a, shift_b] = [] @ shift_a # [shift_b]
   \<and> fst (closed_shift_step scheduler_send_interrupted shift_a
         (at_line_50 scheduler_send_interrupted [shift_a, shift_b] ()
            (force_log Log_started ((init () ())\<lparr>is_running := True\<rparr>))))
       = Inl (BaseExceptionOnly ''KeyboardInterrupt'')
   \<and> \<not> isinstance_Exception (BaseExceptionOnly ''KeyboardInterrupt'')
   \<and> fst (scheduler_loop (Suc 0) scheduler_send_interrupted
         (force_log Log_started ((init () ())\<lparr>is_running := True\<rparr>)))
       = Some (Inl (BaseExceptionOnly ''KeyboardInterrupt''))"
proof -
  let ?w = "force_log Log_started ((init () ())\<lparr>is_running := True\<rparr>)"
  have 1: "closing_raises_only_Exception scheduler_store_down"
    by (simp add: closing_raises_only_Exception_def raises_only_Exception_def
        scheduler_store_down_def example_scheduler_def)
  have 2: "notifying_raises_only_Exception scheduler_store_down"
    by (simp add: notifying_raises_only_Exception_def raises_only_Exception_def
        scheduler_store_down_def example_scheduler_def)
  have 3: "sleep_returns scheduler_store_down"
    by (simp add: sleep_returns_def scheduler_store_down_def example_scheduler_def)
  have 4: "fst (check_and_auto_close_shifts scheduler_store_down ())
       = Inl (Exception ''store unreachable'')"
    by (simp add: scheduler_store_down_def example_scheduler_def)
  have 5: "fst (start_scheduler (Suc (Suc 0)) scheduler_store_down (init () ())) = None"
    by (simp add: run_store_down)
  have 6: "is_running ?w"
    by simp
  have 7: "bot_service scheduler_send_interrupted \<noteq> None"
    by (simp add: scheduler_send_interrupted_def example_scheduler_def)
  have 8: "check_and_auto_close_shifts scheduler_send_interrupted (store ?w)
       = (Inr [shift_a, shift_b], ())"
    by (simp add: scheduler_send_interrupted_def example_scheduler_def)
  have 9: "[shift_a, shift_b] = [] @ shift_a # [shift_b]"
    by simp
  have 10: "for_closed_shifts scheduler_send_interrupted []
        (at_line_50 scheduler_send_interrupted [shift_a, shift_b] () ?w)
      = (Inr (), at_line_50 scheduler_send_interrupted [shift_a, shift_b] () ?w)"
    by simp
  have 11: "fst (closed_shift_step scheduler_send_interrupted shift_a
         (at_line_50 scheduler_send_interrupted [shift_a, shift_b] () ?w))
       = Inl (BaseExceptionOnly ''KeyboardInterrupt'')"
    using run_send_interrupted_first by simp
  have "fst (send_shift_summary scheduler_store_down shift_a (init () ())) = Inr ()
     \<and> fst (check_auto_close_shifts scheduler_store_down (init () ())) = Inr ()
     \<and> fst (scheduler_iteration scheduler_store_down (init () ())) = Inr ()"
    using exceptions_stay_inside [of scheduler_store_down shift_a "init () ()" 0] 1 2 3
    by blast
  moreover have "\<not> isinstance_Exception (BaseExceptionOnly ''KeyboardInterrupt'')
     \<and> scheduler_loop (Suc 0) scheduler_send_interrupted ?w
         = (Some (Inl (BaseExceptionOnly ''KeyboardInterrupt'')),
            snd (closed_shift_step scheduler_send_interrupted shift_a
              (at_line_50 scheduler_send_interrupted [shift_a, shift_b] () ?w)))"
    using exceptions_stay_inside [of scheduler_send_interrupted shift_a ?w 0]
      6 7 8 9 10 11 example_shifts_are_records
    by blast
  ultimately show ?thesis
    using 1 2 3 4 5 6 7 8 9 11 example_shifts_are_records
    by simp
qed

subsection \<open>C4: \<open>stop_scheduler\<close>\<close>

lemma run_stop_then_start:
  "start_scheduler (Suc (Suc 0)) example_scheduler (snd (stop_scheduler (init () ()))) =
     (None, \<lparr>is_running = True,
        logged = [Log_stopped, Log_started,
                  Log_check_starting, Log_auto_closed 2 [1, 2],
                  Log_shift_closed 1 100, Log_sent 1 100,
                  Log_shift_closed 2 200, Log_sent 2 200,
                  Log_check_starting, Log_auto_closed 2 [1, 2],
                  Log_shift_closed 1 100, Log_sent 1 100,
                  Log_shift_closed 2 200, Log_sent 2 200],
        calls = [Call_check, Call_close,
                 Call_notify shift_a, Call_summary 1 100,
                 Call_send 100 (strip (message_with_transactions 7
                   (join nl [currency_line ''$'' (format_comma_2f 45.5) 2,
                             currency_line riel (format_comma_2f 1000) 1])
                   3 (format_comma_2f 1045.5))),
                 Call_notify shift_b, Call_summary 2 200,
                 Call_send 200 (strip (message_with_transactions 8
                   (join nl [currency_line ''$'' (format_comma_2f 45.5) 2,
                             currency_line riel (format_comma_2f 1000) 1])
                   3 (format_comma_2f 1045.5))),
                 Call_sleep 60,
                 Call_check, Call_close,
                 Call_notify shift_a, Call_summary 1 100,
                 Call_send 100 (strip (message_with_transactions 7
                   (join nl [currency_line ''$'' (format_comma_2f 45.5) 2,
                             currency_line riel (format_comma_2f 1000) 1])
                   3 (format_comma_2f 1045.5))),
                 Call_notify shift_b, Call_summary 2 200,
                 Call_send 200 (strip (message_with_transactions 8
                   (join nl [currency_line ''$'' (format_comma_2f 45.5) 2,
                             currency_line riel (format_comma_2f 1000) 1])
                   3 (format_comma_2f 1045.5))),
                 Call_sleep 60],
        store = (), outside = ()\<rparr>)"
  by (simp add: run_simps example_scheduler_def example_summary_def)

text \<open>
  \<open>stop_scheduler\<close> is called on a scheduler that was just constructed, and returns;
  \<open>start_scheduler\<close> is called after that. Line 18 sets the flag again before the loop
  tests it for the first time: the loop does not see the stop. After two iterations
  \<open>check_auto_close_shifts\<close> has been called twice and the scheduler is still running.
\<close>

theorem stop_before_start_is_overwritten:
  "fst (stop_scheduler (init () ())) = Inr ()
   \<and> \<not> is_running (snd (stop_scheduler (init () ())))
   \<and> logged (snd (stop_scheduler (init () ()))) = [Log_stopped]
   \<and> fst (start_scheduler (Suc (Suc 0)) example_scheduler (snd (stop_scheduler (init () ()))))
       = None
   \<and> is_running (snd (start_scheduler (Suc (Suc 0)) example_scheduler
         (snd (stop_scheduler (init () ())))))
   \<and> filter (\<lambda>c. c = Call_check) (calls (snd (start_scheduler (Suc (Suc 0)) example_scheduler
         (snd (stop_scheduler (init () ()))))))
       = [Call_check, Call_check]
   \<and> take 3 (logged (snd (start_scheduler (Suc (Suc 0)) example_scheduler
         (snd (stop_scheduler (init () ()))))))
       = [Log_stopped, Log_started, Log_check_starting]"
proof -
  have "fst (stop_scheduler (init () ())) = Inr ()"
    and "\<not> is_running (snd (stop_scheduler (init () ())))"
    and "logged (snd (stop_scheduler (init () ()))) = [Log_stopped]"
    by (simp_all add: stop_scheduler_def init_def)
  then show ?thesis
    by (simp add: run_stop_then_start)
qed

text \<open>
  C4, for a stop that arrives once \<open>start_scheduler\<close> has set the flag. Another task can
  run, and call \<open>stop_scheduler\<close>, only while the scheduler is suspended at an \<open>await\<close>: in
  the close operation, the summary fetch, \<open>send_message\<close> or a sleep.

  \<open>stop_scheduler\<close> returns; it clears the flag, logs that the scheduler has stopped and
  changes nothing else; a stop requested at an \<open>await\<close> is that call.

  In every run of \<open>start_scheduler\<close>, for every number of iterations: each call of
  \<open>check_auto_close_shifts\<close> has logged the entry of line 38 and the log has no other such
  entry; after a logged stop the log has no such entry, so that no cycle is called after
  a stop; and when a stop was logged, the loop has ended (it has not run out of
  iterations) and the flag is cleared.

  With the flag cleared, the loop returns at its test of the flag, for any number of
  iterations, in the world as it is. A stop requested while the scheduler sleeps clears
  the flag before the sleep is over.

  The in-flight cycle is not disturbed: nothing in a cycle or in the body of the loop
  reads the flag. From the world after \<open>stop_scheduler\<close>, the notification of a shift, the
  rest of a cycle after the close operation, a cycle and the body of the loop return
  what they return otherwise, with the same calls, the same store and the same outside
  world.
\<close>

theorem stop_ends_the_loop:
  "stop_scheduler v = (Inr (), v\<lparr>is_running := False, logged := logged v @ [Log_stopped]\<rparr>)
   \<and> (fst (stop_requested S (outside v)) \<longrightarrow>
        resumed S v = snd (stop_scheduler (v\<lparr>outside := snd (stop_requested S (outside v))\<rparr>)))
   \<and> (\<exists>l cs. logged (snd (start_scheduler fuel S w)) = logged w @ Log_started # l
        \<and> calls (snd (start_scheduler fuel S w)) = calls w @ cs
        \<and> length (filter (\<lambda>c. c = Call_check) cs)
            = length (filter (\<lambda>m. m = Log_check_starting) l)
        \<and> (\<forall>before after. l = before @ Log_stopped # after
              \<longrightarrow> Log_check_starting \<notin> set after)
        \<and> (Log_stopped \<in> set l \<longrightarrow>
             fst (start_scheduler fuel S w) \<noteq> None
             \<and> \<not> is_running (snd (start_scheduler fuel S w))))
   \<and> (\<not> is_running v \<longrightarrow> scheduler_loop fuel S v = (Some (Inr ()), v))
   \<and> (fst (stop_requested S (snd (asyncio_sleep S n (outside v))))
        \<longrightarrow> \<not> is_running (snd (await_sleep S n v)))
   \<and> fst (send_shift_summary S shift (snd (stop_scheduler v))) = fst (send_shift_summary S shift v)
   \<and> same_calls_and_state (snd (send_shift_summary S shift (snd (stop_scheduler v))))
        (snd (send_shift_summary S shift v))
   \<and> fst (report_closed_shifts S shifts (snd (stop_scheduler v)))
       = fst (report_closed_shifts S shifts v)
   \<and> same_calls_and_state (snd (report_closed_shifts S shifts (snd (stop_scheduler v))))
        (snd (report_closed_shifts S shifts v))
   \<and> fst (check_auto_close_shifts S (snd (stop_scheduler v))) = fst (check_auto_close_shifts S v)
   \<and> same_calls_and_state (snd (check_auto_close_shifts S (snd (stop_scheduler v))))
        (snd (check_auto_close_shifts S v))
   \<and> fst (scheduler_iteration S (snd (stop_scheduler v))) = fst (scheduler_iteration S v)
   \<and> same_calls_and_state (snd (scheduler_iteration S (snd (stop_scheduler v))))
        (snd (scheduler_iteration S v))"
proof -
  have 1: "stop_scheduler v
      = (Inr (), v\<lparr>is_running := False, logged := logged v @ [Log_stopped]\<rparr>)"
    by (simp add: stop_scheduler_def logging_def force_log_def)
  have 2: "resumed S v = snd (stop_scheduler (v\<lparr>outside := snd (stop_requested S (outside v))\<rparr>))"
    if "fst (stop_requested S (outside v))"
    using that by (cases "stop_requested S (outside v)") (simp add: resumed_def)
  have 3: "scheduler_loop fuel S v = (Some (Inr ()), v)" if "\<not> is_running v"
    using scheduler_loop_stopped [OF that] .
  have 4: "\<not> is_running (snd (await_sleep S n v))"
    if "fst (stop_requested S (snd (asyncio_sleep S n (outside v))))"
    using that by simp
  have same: "same_calls_and_state (snd (stop_scheduler v)) v"
    by (simp add: 1 same_calls_and_state_def)
  have 5: "fst (send_shift_summary S shift (snd (stop_scheduler v)))
        = fst (send_shift_summary S shift v)"
    and 6: "same_calls_and_state (snd (send_shift_summary S shift (snd (stop_scheduler v))))
        (snd (send_shift_summary S shift v))"
    using send_shift_summary_same [OF same] by blast+
  have 7: "fst (report_closed_shifts S shifts (snd (stop_scheduler v)))
        = fst (report_closed_shifts S shifts v)"
    and 8: "same_calls_and_state (snd (report_closed_shifts S shifts (snd (stop_scheduler v))))
        (snd (report_closed_shifts S shifts v))"
    using report_closed_shifts_same [OF same] by blast+
  have 9: "fst (check_auto_close_shifts S (snd (stop_scheduler v)))
        = fst (check_auto_close_shifts S v)"
    and 10: "same_calls_and_state (snd (check_auto_close_shifts S (snd (stop_scheduler v))))
        (snd (check_auto_close_shifts S v))"
    using check_auto_close_shifts_same [OF same] by blast+
  have 11: "fst (scheduler_iteration S (snd (stop_scheduler v))) = fst (scheduler_iteration S v)"
    and 12: "same_calls_and_state (snd (scheduler_iteration S (snd (stop_scheduler v))))
        (snd (scheduler_iteration S v))"
    using scheduler_iteration_same [OF same] by blast+
  from 1 2 start_scheduler_stops [of fuel S w] 3 4 5 6 7 8 9 10 11 12 show ?thesis
    by (intro conjI impI) assumption+
qed

lemma run_stopping:
  "start_scheduler (Suc (Suc (Suc 0))) scheduler_stopping (init () ()) =
     (Some (Inr ()), \<lparr>is_running = False,
        logged = [Log_started, Log_check_starting, Log_stopped, Log_auto_closed 2 [1, 2],
                  Log_shift_closed 1 100, Log_stopped, Log_stopped, Log_sent 1 100,
                  Log_shift_closed 2 200, Log_stopped, Log_stopped, Log_sent 2 200,
                  Log_stopped],
        calls = [Call_check, Call_close,
                 Call_notify shift_a, Call_summary 1 100,
                 Call_send 100 (strip (message_with_transactions 7
                   (join nl [currency_line ''$'' (format_comma_2f 45.5) 2,
                             currency_line riel (format_comma_2f 1000) 1])
                   3 (format_comma_2f 1045.5))),
                 Call_notify shift_b, Call_summary 2 200,
                 Call_send 200 (strip (message_with_transactions 8
                   (join nl [currency_line ''$'' (format_comma_2f 45.5) 2,
                             currency_line riel (format_comma_2f 1000) 1])
                   3 (format_comma_2f 1045.5))),
                 Call_sleep 60],
        store = (), outside = ()\<rparr>)"
  by (simp add: run_simps scheduler_stopping_def example_scheduler_def example_summary_def)

text \<open>
  With another task that calls \<open>stop_scheduler\<close> at every \<open>await\<close>, the first stop arrives
  while the close operation of the first cycle is awaited. The scheduler finishes that
  cycle, with both notifications, and its sleep, and returns: of three iterations there
  is one, and the scheduler is stopped.
\<close>

theorem stop_ends_the_loop_witness:
  "fst (stop_requested scheduler_stopping (outside (init () ())))
   \<and> fst (stop_requested scheduler_stopping (snd (asyncio_sleep scheduler_stopping 60 ())))
   \<and> \<not> is_running (snd (stop_scheduler (init () ())))
   \<and> scheduler_loop (Suc (Suc 0)) scheduler_stopping (snd (stop_scheduler (init () ())))
       = (Some (Inr ()), snd (stop_scheduler (init () ())))
   \<and> take 3 (logged (snd (start_scheduler (Suc (Suc (Suc 0))) scheduler_stopping (init () ()))))
       = [Log_started, Log_check_starting, Log_stopped]
   \<and> Log_stopped \<in> set (logged (snd (start_scheduler (Suc (Suc (Suc 0))) scheduler_stopping
         (init () ()))))
   \<and> fst (start_scheduler (Suc (Suc (Suc 0))) scheduler_stopping (init () ())) = Some (Inr ())
   \<and> \<not> is_running (snd (start_scheduler (Suc (Suc (Suc 0))) scheduler_stopping (init () ())))
   \<and> filter (\<lambda>c. c = Call_check)
        (calls (snd (start_scheduler (Suc (Suc (Suc 0))) scheduler_stopping (init () ()))))
       = [Call_check]
   \<and> filter is_notify
        (calls (snd (start_scheduler (Suc (Suc (Suc 0))) scheduler_stopping (init () ()))))
       = [Call_notify shift_a, Call_notify shift_b]
   \<and> last (calls (snd (start_scheduler (Suc (Suc (Suc 0))) scheduler_stopping (init () ()))))
       = Call_sleep 60"
proof -
  have 1: "fst (stop_requested scheduler_stopping (outside (init () ())))"
    and 2: "fst (stop_requested scheduler_stopping (snd (asyncio_sleep scheduler_stopping 60 ())))"
    by (simp_all add: scheduler_stopping_def example_scheduler_def)
  have 3: "\<not> is_running (snd (stop_scheduler (init () ())))"
    by (simp add: stop_scheduler_def)
  have 4: "take 3 (logged (snd (start_scheduler (Suc (Suc (Suc 0))) scheduler_stopping
         (init () ())))) = [Log_started, Log_check_starting, Log_stopped]"
    and 5: "Log_stopped \<in> set (logged (snd (start_scheduler (Suc (Suc (Suc 0)))
         scheduler_stopping (init () ()))))"
    and 6: "fst (start_scheduler (Suc (Suc (Suc 0))) scheduler_stopping (init () ()))
       = Some (Inr ())"
    and 7: "\<not> is_running (snd (start_scheduler (Suc (Suc (Suc 0))) scheduler_stopping
         (init () ())))"
    and 8: "filter (\<lambda>c. c = Call_check)
        (calls (snd (start_scheduler (Suc (Suc (Suc 0))) scheduler_stopping (init () ()))))
       = [Call_check]"
    and 9: "filter is_notify
        (calls (snd (start_scheduler (Suc (Suc (Suc 0))) scheduler_stopping (init () ()))))
       = [Call_notify shift_a, Call_notify shift_b]"
    and 10: "last (calls (snd (start_scheduler (Suc (Suc (Suc 0))) scheduler_stopping
         (init () ())))) = Call_sleep 60"
    by (simp_all add: run_stopping is_notify_def)
  have "scheduler_loop (Suc (Suc 0)) scheduler_stopping (snd (stop_scheduler (init () ())))
       = (Some (Inr ()), snd (stop_scheduler (init () ())))"
    using stop_ends_the_loop [of "snd (stop_scheduler (init () ()))" scheduler_stopping
        "Suc (Suc (Suc 0))" "init () ()" 60 shift_a "[shift_a, shift_b]"] 3
    unfolding scheduler_loop_stopped [OF 3]
    by blast
  with 1 2 3 4 5 6 7 8 9 10 show ?thesis
    by blast
qed

end
